theory Spec2Isabelle
  imports Complex_Main "HOL-Library.Word"
begin

unbundle bit_operations_syntax

section \<open>Data model of AMLCodec.cpp\<close>

type_synonym byte = "8 word"

subsection \<open>Return codes and constants\<close>

definition P_PRE :: int where
  "P_PRE = 0x02000000"

definition PLAYER_SUCCESS :: int where
  "PLAYER_SUCCESS = 0"

definition PLAYER_FAILED :: int where
  "PLAYER_FAILED = - (P_PRE OR 0x01)"

definition PLAYER_NOMEM :: int where
  "PLAYER_NOMEM = - (P_PRE OR 0x02)"

definition PLAYER_EMPTY_P :: int where
  "PLAYER_EMPTY_P = - (P_PRE OR 0x03)"

definition PLAYER_WR_FAILED :: int where
  "PLAYER_WR_FAILED = - (P_PRE OR 0x21)"

definition PLAYER_PTS_ERROR :: int where
  "PLAYER_PTS_ERROR = - (P_PRE OR 0x31)"

definition PLAYER_UNSUPPORT :: int where
  "PLAYER_UNSUPPORT = - (P_PRE OR 0x35)"

definition HDR_BUF_SIZE :: nat where
  "HDR_BUF_SIZE = 1024"

definition UINT64_0 :: "64 word" where
  "UINT64_0 = 0x8000000000000000"

text \<open>The value of \<open>errno\<close> that marks a would-block write (Linux).\<close>

definition EAGAIN :: int where
  "EAGAIN = 11"

text \<open>\<open>AVERROR(ENOMEM)\<close>, the negative code of a failed FFmpeg allocation.\<close>

definition AVERROR_ENOMEM :: int where
  "AVERROR_ENOMEM = - 12"

definition INT_MAX :: int where
  "INT_MAX = 2147483647"

definition AV_INPUT_BUFFER_PADDING_SIZE :: int where
  "AV_INPUT_BUFFER_PADDING_SIZE = 64"

subsection \<open>Enumerations\<close>

datatype pstream_type =
  AM_STREAM_UNKNOWN | AM_STREAM_TS | AM_STREAM_PS | AM_STREAM_ES
  | AM_STREAM_RM | AM_STREAM_AUDIO | AM_STREAM_VIDEO

text \<open>
  The members of libamcodec's \<open>vformat_t\<close>, \<open>vdec_type_t\<close> and \<open>stream_type_t\<close> and the
  codec tags and ids that the code compares against; every other value is \<open>..._OTHER\<close>.
\<close>

datatype vformat_t =
  VFORMAT_MPEG12 | VFORMAT_MPEG4 | VFORMAT_H264 | VFORMAT_MJPEG | VFORMAT_VC1
  | VFORMAT_H264MVC | VFORMAT_H264_4K2K | VFORMAT_HEVC | VFORMAT_VP9 | VFORMAT_AV1
  | VFORMAT_OTHER

datatype vdec_type_t =
  VIDEO_DEC_FORMAT_MPEG4_3 | VIDEO_DEC_FORMAT_H263 | VIDEO_DEC_FORMAT_WMV3
  | VIDEO_DEC_FORMAT_WVC1 | VIDEO_DEC_FORMAT_OTHER

datatype codec_tag_t =
  CODEC_TAG_M4S2 | CODEC_TAG_DX50 | CODEC_TAG_mp4v | CODEC_TAG_WMV3
  | CODEC_TAG_WVC1 | CODEC_TAG_VC_1 | CODEC_TAG_WMVA | CODEC_TAG_OTHER

datatype codec_id_t =
  AV_CODEC_ID_MPEG1VIDEO | AV_CODEC_ID_MPEG2VIDEO | AV_CODEC_ID_OTHER

datatype stream_type_t =
  STREAM_TYPE_SINGLE | STREAM_TYPE_FRAME | STREAM_TYPE_STREAM

subsection \<open>Packet, header buffer and decoder parameters\<close>

text \<open>
  A pointer to bytes is \<open>None\<close> (\<open>NULL\<close>) or \<open>Some\<close> of the bytes of the block it points
  into, from the pointer to the end of the block. A read or write outside the block is
  undefined behaviour in C; the functions below return \<open>None\<close> there.
\<close>

record hdr_buf_t =
  hdr_data :: "byte list option"
  hdr_size :: int

record am_packet_t =
  avpkt_data :: "byte list option"
  avpkt_size :: int
  avpkt_flags :: int
  avpts :: "64 word"
  avdts :: "64 word"
  avduration :: int
  isvalid :: int
  newflag :: int
  lastpts :: "64 word"
  data :: "byte list option"
  buf :: "byte list option"
  data_size :: int
  buf_size :: int
  hdr :: "hdr_buf_t option"
  codec :: bool

record am_private_t =
  am_pkt :: am_packet_t
  hdr_buf :: hdr_buf_t
  gcodec_dec_mode :: stream_type_t
  gcodec_param_keyframe_pts_only :: bool
  vcodec_dec_mode :: stream_type_t
  stream_type :: pstream_type
  video_format :: vformat_t
  video_codec_id :: codec_id_t
  video_codec_tag :: codec_tag_t
  video_codec_type :: vdec_type_t
  video_width :: "32 word"
  video_height :: "32 word"
  video_rate :: "32 word"
  extrasize :: int
  extradata :: "byte list"

subsection \<open>The platform and the decoder device\<close>

text \<open>
  What the C code leaves to its platform: whether plain \<open>char\<close> is signed (it is unsigned
  on the ARM targets of this decoder), whether an allocation of \<open>n\<close> bytes succeeds, the
  content of freshly allocated, uninitialised memory, the size of \<open>hdr_buf_t\<close>, the
  rounding of a value to \<open>float\<close> and to \<open>double\<close> and the conversion of a \<open>double\<close> to
  \<open>uint64_t\<close>. It also holds the constants of headers that are not part of these
  sources: \<open>DVD_NOPTS_VALUE\<close>, \<open>DVD_TIME_BASE\<close> and \<open>STATE_HASPTS\<close>.
\<close>

record platform =
  char_is_signed :: bool
  malloc_ok :: "nat \<Rightarrow> bool"
  fresh :: "nat \<Rightarrow> byte"
  fresh_int :: int
  sizeof_hdr_buf_t :: nat
  to_float :: "real \<Rightarrow> real"
  to_double :: "real \<Rightarrow> real"
  double_to_uint64 :: "real \<Rightarrow> 64 word"
  DVD_NOPTS_VALUE :: "64 word"
  DVD_TIME_BASE :: "32 word"
  STATE_HASPTS :: "32 word"

definition malloc_block :: "platform \<Rightarrow> nat \<Rightarrow> byte list option" where
  "malloc_block pf n = (if malloc_ok pf n then Some (map (fresh pf) [0..<n]) else None)"

record buf_status =
  bs_size :: int
  bs_data_len :: int
  bs_free_len :: int

text \<open>
  The device is a script of answers. \<open>wr_script\<close> holds, for each coming call of
  \<open>codec_write\<close>, the value it returns and the value of \<open>errno\<close> after it; a loop that
  needs an answer when the script is empty has no result (\<open>None\<close>): the call is still
  waiting. \<open>written\<close> holds the bytes that the device has taken from the blocks handed to
  \<open>codec_write\<close>, in order. \<open>dq_script\<close> holds the answers of \<open>VIDIOC_DQBUF\<close>: the
  \<open>errno\<close> of a failed call or the index and the two halves of the timestamp of a
  dequeued buffer. \<open>vdec_ratio_control\<close> is what \<open>codec_get_vdec_info\<close> reports, \<open>resets\<close>
  counts the calls of \<open>codec_reset\<close>.
\<close>

datatype dqbuf = DQ_FAIL int | DQ_OK "32 word" int int

record device =
  wr_script :: "(int \<times> int) list"
  written :: "byte list"
  checkin_pts :: "64 word \<Rightarrow> int"
  vbuf_state :: buf_status
  dq_script :: "dqbuf list"
  vdec_ratio_control :: "32 word"
  resets :: nat

section \<open>Writing a packet to the decoder\<close>

definition check_in_pts :: "am_private_t \<Rightarrow> device \<Rightarrow> am_packet_t \<Rightarrow> int" where
  "check_in_pts para dev pkt =
     (if stream_type para = AM_STREAM_ES \<and> UINT64_0 \<noteq> avpts pkt
         \<and> checkin_pts dev (avpts pkt) \<noteq> 0
      then PLAYER_PTS_ERROR else PLAYER_SUCCESS)"

text \<open>
  What the device takes from a call \<open>codec_write(codec, b + off, ...)\<close> that returns \<open>n\<close>:
  the \<open>n\<close> bytes of the block \<open>b\<close> from the offset \<open>off\<close>.
\<close>

definition taken :: "byte list option \<Rightarrow> int \<Rightarrow> int \<Rightarrow> byte list" where
  "taken b off n = (case b of None \<Rightarrow> [] | Some bs \<Rightarrow> take (nat n) (drop (nat off) bs))"

text \<open>
  The \<open>while (1)\<close> loop of \<open>write_header\<close>: \<open>hbuf\<close> is \<open>pkt->hdr->data\<close>, \<open>sz\<close> is
  \<open>pkt->hdr->size\<close>, \<open>w\<close> is what the device has taken so far.
\<close>

fun write_header_loop :: "byte list option \<Rightarrow> int \<Rightarrow> int \<Rightarrow> (int \<times> int) list \<Rightarrow> byte list
    \<Rightarrow> (int \<times> (int \<times> int) list \<times> byte list) option" where
  "write_header_loop hbuf sz len [] w = None"
| "write_header_loop hbuf sz len ((write_bytes, errno) # rs) w =
     (if write_bytes < 0 \<or> write_bytes > sz - len then
        (if errno \<noteq> EAGAIN then Some (PLAYER_WR_FAILED, rs, w)
         else write_header_loop hbuf sz len rs w)
      else if len + write_bytes = sz then Some (PLAYER_SUCCESS, rs, w @ taken hbuf len write_bytes)
      else write_header_loop hbuf sz (len + write_bytes) rs (w @ taken hbuf len write_bytes))"

definition wvc1_es_start :: "am_packet_t \<Rightarrow> bool" where
  "wvc1_es_start pkt =
     (case data pkt of
        None \<Rightarrow> False
      | Some d \<Rightarrow> data_size pkt \<ge> 4 \<and> length d \<ge> 4
          \<and> d ! 0 = 0 \<and> d ! 1 = 0 \<and> d ! 2 = 1 \<and> (d ! 3 = 0xd \<or> d ! 3 = 0xf))"

definition write_header :: "am_private_t \<Rightarrow> am_packet_t \<Rightarrow> (int \<times> int) list \<Rightarrow> byte list
    \<Rightarrow> (int \<times> (int \<times> int) list \<times> byte list) option" where
  "write_header para pkt rs w =
     (case hdr pkt of
        None \<Rightarrow> Some (PLAYER_SUCCESS, rs, w)
      | Some h \<Rightarrow>
          if hdr_size h > 0 then
            (if \<not> codec pkt \<or> hdr_data h = None then Some (PLAYER_EMPTY_P, rs, w)
             else if video_format para = VFORMAT_VC1
                     \<and> video_codec_type para = VIDEO_DEC_FORMAT_WVC1 \<and> wvc1_es_start pkt
               then Some (PLAYER_SUCCESS, rs, w)
             else write_header_loop (hdr_data h) (hdr_size h) 0 rs w)
          else Some (PLAYER_SUCCESS, rs, w))"

text \<open>
  The \<open>while (size > 0 && pkt->isvalid)\<close> loop of \<open>write_av_packet\<close>; \<open>sz\<close> and \<open>len\<close> are
  the locals \<open>size\<close> and \<open>len\<close>, and the local \<open>buf\<close> is \<open>pkt->data + len\<close>. \<open>w\<close> is what the
  device has taken so far.
\<close>

fun write_data_loop :: "am_packet_t \<Rightarrow> int \<Rightarrow> int \<Rightarrow> (int \<times> int) list \<Rightarrow> byte list
    \<Rightarrow> (int \<times> am_packet_t \<times> (int \<times> int) list \<times> byte list) option" where
  "write_data_loop pkt sz len rs w =
     (if sz > 0 \<and> isvalid pkt \<noteq> 0 then
        (case rs of
           [] \<Rightarrow> None
         | (write_bytes, errno) # rs' \<Rightarrow>
             if write_bytes < 0 \<or> write_bytes > sz then
               (if errno \<noteq> EAGAIN then Some (PLAYER_WR_FAILED, pkt, rs', w)
                else Some (PLAYER_SUCCESS,
                       pkt\<lparr>data := map_option (drop (nat len)) (data pkt),
                           data_size := data_size pkt - len\<rparr>, rs', w))
             else if len + write_bytes = data_size pkt then
               Some (PLAYER_SUCCESS, pkt\<lparr>isvalid := 0, data_size := 0\<rparr>, rs',
                     w @ taken (data pkt) len write_bytes)
             else if len + write_bytes < data_size pkt then
               write_data_loop pkt (sz - write_bytes) (len + write_bytes) rs'
                 (w @ taken (data pkt) len write_bytes)
             else Some (PLAYER_WR_FAILED, pkt, rs', w @ taken (data pkt) len write_bytes))
      else Some (PLAYER_SUCCESS, pkt, rs, w))"

declare write_data_loop.simps [simp del]

definition write_av_packet :: "am_private_t \<Rightarrow> am_packet_t \<Rightarrow> device
    \<Rightarrow> (int \<times> am_packet_t \<times> device) option" where
  "write_av_packet para pkt dev =
     (let after_header =
        (if newflag pkt \<noteq> 0 then
           (if isvalid pkt \<noteq> 0 \<and> check_in_pts para dev pkt \<noteq> PLAYER_SUCCESS
            then Some (PLAYER_WR_FAILED, pkt, wr_script dev, written dev)
            else case write_header para pkt (wr_script dev) (written dev) of
                   None \<Rightarrow> None
                 | Some (r, rs, w) \<Rightarrow>
                     if r = PLAYER_WR_FAILED then Some (PLAYER_WR_FAILED, pkt, rs, w)
                     else Some (PLAYER_SUCCESS, pkt\<lparr>newflag := 0\<rparr>, rs, w))
         else Some (PLAYER_SUCCESS, pkt, wr_script dev, written dev))
      in case after_header of
           None \<Rightarrow> None
         | Some (r, pkt1, rs, w) \<Rightarrow>
             if r \<noteq> PLAYER_SUCCESS then Some (r, pkt1, dev\<lparr>wr_script := rs, written := w\<rparr>)
             else
               let sz = data_size pkt1;
                   pkt2 = (if sz = 0 \<and> isvalid pkt1 \<noteq> 0
                           then pkt1\<lparr>isvalid := 0, data_size := 0\<rparr> else pkt1)
               in case write_data_loop pkt2 sz 0 rs w of
                    None \<Rightarrow> None
                  | Some (r', pkt3, rs', w') \<Rightarrow>
                      Some (r', pkt3, dev\<lparr>wr_script := rs', written := w'\<rparr>))"

section \<open>Header synthesis\<close>

text \<open>\<open>memcpy(dst, src, length src)\<close> into the block \<open>dst\<close>, at offset \<open>off\<close>.\<close>

definition memcpy_at :: "byte list \<Rightarrow> nat \<Rightarrow> byte list \<Rightarrow> byte list option" where
  "memcpy_at dst off src =
     (if off + length src \<le> length dst
      then Some (take off dst @ src @ drop (off + length src) dst) else None)"

subsection \<open>MJPEG\<close>

definition mjpeg_addon_data :: "byte list" where
  "mjpeg_addon_data = [
     0xff, 0xd8, 0xff, 0xc4, 0x01, 0xa2, 0x00, 0x00, 0x01, 0x05, 0x01, 0x01, 0x01,
     0x01, 0x01, 0x01, 0x00, 0x00, 0x00, 0x00, 0x00, 0x00, 0x00, 0x00, 0x01, 0x02,
     0x03, 0x04, 0x05, 0x06, 0x07, 0x08, 0x09, 0x0a, 0x0b, 0x01, 0x00, 0x03, 0x01,
     0x01, 0x01, 0x01, 0x01, 0x01, 0x01, 0x01, 0x01, 0x00, 0x00, 0x00, 0x00, 0x00,
     0x00, 0x01, 0x02, 0x03, 0x04, 0x05, 0x06, 0x07, 0x08, 0x09, 0x0a, 0x0b, 0x10,
     0x00, 0x02, 0x01, 0x03, 0x03, 0x02, 0x04, 0x03, 0x05, 0x05, 0x04, 0x04, 0x00,
     0x00, 0x01, 0x7d, 0x01, 0x02, 0x03, 0x00, 0x04, 0x11, 0x05, 0x12, 0x21, 0x31,
     0x41, 0x06, 0x13, 0x51, 0x61, 0x07, 0x22, 0x71, 0x14, 0x32, 0x81, 0x91, 0xa1,
     0x08, 0x23, 0x42, 0xb1, 0xc1, 0x15, 0x52, 0xd1, 0xf0, 0x24, 0x33, 0x62, 0x72,
     0x82, 0x09, 0x0a, 0x16, 0x17, 0x18, 0x19, 0x1a, 0x25, 0x26, 0x27, 0x28, 0x29,
     0x2a, 0x34, 0x35, 0x36, 0x37, 0x38, 0x39, 0x3a, 0x43, 0x44, 0x45, 0x46, 0x47,
     0x48, 0x49, 0x4a, 0x53, 0x54, 0x55, 0x56, 0x57, 0x58, 0x59, 0x5a, 0x63, 0x64,
     0x65, 0x66, 0x67, 0x68, 0x69, 0x6a, 0x73, 0x74, 0x75, 0x76, 0x77, 0x78, 0x79,
     0x7a, 0x83, 0x84, 0x85, 0x86, 0x87, 0x88, 0x89, 0x8a, 0x92, 0x93, 0x94, 0x95,
     0x96, 0x97, 0x98, 0x99, 0x9a, 0xa2, 0xa3, 0xa4, 0xa5, 0xa6, 0xa7, 0xa8, 0xa9,
     0xaa, 0xb2, 0xb3, 0xb4, 0xb5, 0xb6, 0xb7, 0xb8, 0xb9, 0xba, 0xc2, 0xc3, 0xc4,
     0xc5, 0xc6, 0xc7, 0xc8, 0xc9, 0xca, 0xd2, 0xd3, 0xd4, 0xd5, 0xd6, 0xd7, 0xd8,
     0xd9, 0xda, 0xe1, 0xe2, 0xe3, 0xe4, 0xe5, 0xe6, 0xe7, 0xe8, 0xe9, 0xea, 0xf1,
     0xf2, 0xf3, 0xf4, 0xf5, 0xf6, 0xf7, 0xf8, 0xf9, 0xfa, 0x11, 0x00, 0x02, 0x01,
     0x02, 0x04, 0x04, 0x03, 0x04, 0x07, 0x05, 0x04, 0x04, 0x00, 0x01, 0x02, 0x77,
     0x00, 0x01, 0x02, 0x03, 0x11, 0x04, 0x05, 0x21, 0x31, 0x06, 0x12, 0x41, 0x51,
     0x07, 0x61, 0x71, 0x13, 0x22, 0x32, 0x81, 0x08, 0x14, 0x42, 0x91, 0xa1, 0xb1,
     0xc1, 0x09, 0x23, 0x33, 0x52, 0xf0, 0x15, 0x62, 0x72, 0xd1, 0x0a, 0x16, 0x24,
     0x34, 0xe1, 0x25, 0xf1, 0x17, 0x18, 0x19, 0x1a, 0x26, 0x27, 0x28, 0x29, 0x2a,
     0x35, 0x36, 0x37, 0x38, 0x39, 0x3a, 0x43, 0x44, 0x45, 0x46, 0x47, 0x48, 0x49,
     0x4a, 0x53, 0x54, 0x55, 0x56, 0x57, 0x58, 0x59, 0x5a, 0x63, 0x64, 0x65, 0x66,
     0x67, 0x68, 0x69, 0x6a, 0x73, 0x74, 0x75, 0x76, 0x77, 0x78, 0x79, 0x7a, 0x82,
     0x83, 0x84, 0x85, 0x86, 0x87, 0x88, 0x89, 0x8a, 0x92, 0x93, 0x94, 0x95, 0x96,
     0x97, 0x98, 0x99, 0x9a, 0xa2, 0xa3, 0xa4, 0xa5, 0xa6, 0xa7, 0xa8, 0xa9, 0xaa,
     0xb2, 0xb3, 0xb4, 0xb5, 0xb6, 0xb7, 0xb8, 0xb9, 0xba, 0xc2, 0xc3, 0xc4, 0xc5,
     0xc6, 0xc7, 0xc8, 0xc9, 0xca, 0xd2, 0xd3, 0xd4, 0xd5, 0xd6, 0xd7, 0xd8, 0xd9,
     0xda, 0xe2, 0xe3, 0xe4, 0xe5, 0xe6, 0xe7, 0xe8, 0xe9, 0xea, 0xf2, 0xf3, 0xf4,
     0xf5, 0xf6, 0xf7, 0xf8, 0xf9, 0xfa
  ]"

definition mjpeg_data_prefeeding :: "am_packet_t \<Rightarrow> (int \<times> am_packet_t) option" where
  "mjpeg_data_prefeeding pkt =
     (case hdr pkt of
        None \<Rightarrow> None
      | Some h \<Rightarrow>
          (case hdr_data h of
             None \<Rightarrow> Some (PLAYER_FAILED, pkt)
           | Some d \<Rightarrow>
               (case memcpy_at d 0 mjpeg_addon_data of
                  None \<Rightarrow> None
                | Some d' \<Rightarrow>
                    Some (PLAYER_SUCCESS,
                      pkt\<lparr>hdr := Some (h\<lparr>hdr_data := Some d',
                                         hdr_size := int (length mjpeg_addon_data)\<rparr>)\<rparr>))))"

definition mjpeg_write_header :: "am_private_t \<Rightarrow> am_packet_t \<Rightarrow> device
    \<Rightarrow> (int \<times> am_packet_t \<times> device) option" where
  "mjpeg_write_header para pkt dev =
     (case mjpeg_data_prefeeding pkt of
        None \<Rightarrow> None
      | Some (_, pkt1) \<Rightarrow>
          (case write_av_packet para (pkt1\<lparr>codec := True, newflag := 1\<rparr>) dev of
             None \<Rightarrow> None
           | Some (_, pkt2, dev') \<Rightarrow> Some (PLAYER_SUCCESS, pkt2, dev')))"

subsection \<open>WMV3\<close>

text \<open>The conversion of a \<open>char\<close> read from the header buffer to \<open>unsigned\<close>.\<close>

definition char_to_unsigned :: "platform \<Rightarrow> byte \<Rightarrow> 32 word" where
  "char_to_unsigned pf c = (if char_is_signed pf then scast c else ucast c)"

text \<open>
  The 26 bytes that \<open>wmv3_write_header\<close> stores at \<open>pkt->hdr->data[0..25]\<close>; the checksum
  loop reads bytes 4..15 back from the buffer.
\<close>

definition wmv3_fixed_bytes :: "platform \<Rightarrow> am_private_t \<Rightarrow> byte list" where
  "wmv3_fixed_bytes pf para =
     (let data_len = (word_of_int (extrasize para + 4) :: 32 word);
          b4_15 = [0, ucast (drop_bit 16 data_len AND 0xff), 0x88,
                   ucast (drop_bit 8 data_len AND 0xff), ucast (data_len AND 0xff), 0x88,
                   0xff, 0xff, 0x88, 0xff, 0xff, 0x88 :: byte];
          check_sum = foldl (\<lambda>s c. s + char_to_unsigned pf c) (0 :: 32 word) b4_15;
          b16_21 = [ucast (drop_bit 8 check_sum AND 0xff), ucast (check_sum AND 0xff), 0x88,
                    ucast (drop_bit 8 check_sum AND 0xff), ucast (check_sum AND 0xff), 0x88 :: byte];
          b22_25 = [ucast (drop_bit 8 (video_width para) AND 0xff),
                    ucast (video_width para AND 0xff),
                    ucast (drop_bit 8 (video_height para) AND 0xff),
                    ucast (video_height para AND 0xff) :: byte]
      in [0, 0, 1, 0x10] @ b4_15 @ b16_21 @ b22_25)"

text \<open>
  \<open>wmv3_write_header\<close> up to its last statement: the header buffer filled and sized, the
  codec and \<open>newflag\<close> set.
\<close>

definition wmv3_fill_header :: "platform \<Rightarrow> am_private_t \<Rightarrow> am_packet_t \<Rightarrow> am_packet_t option" where
  "wmv3_fill_header pf para pkt =
     (case hdr pkt of
        None \<Rightarrow> None
      | Some h \<Rightarrow>
          (case hdr_data h of
             None \<Rightarrow> None
           | Some d \<Rightarrow>
               (case memcpy_at d 0 (wmv3_fixed_bytes pf para) of
                  None \<Rightarrow> None
                | Some d1 \<Rightarrow>
                    (case memcpy_at d1 26 (extradata para) of
                       None \<Rightarrow> None
                     | Some d2 \<Rightarrow>
                         Some (pkt\<lparr>hdr := Some (h\<lparr>hdr_data := Some d2,
                                                    hdr_size := extrasize para + 26\<rparr>),
                                   codec := True, newflag := 1\<rparr>)))))"

definition wmv3_write_header :: "platform \<Rightarrow> am_private_t \<Rightarrow> am_packet_t \<Rightarrow> device
    \<Rightarrow> (int \<times> am_packet_t \<times> device) option" where
  "wmv3_write_header pf para pkt dev =
     (case wmv3_fill_header pf para pkt of
        None \<Rightarrow> None
      | Some pkt1 \<Rightarrow> write_av_packet para pkt1 dev)"

section \<open>Observations used by the properties\<close>

text \<open>The bytes that \<open>write_header\<close> hands to the device: \<open>pkt->hdr->data[0 .. size)\<close>.\<close>

definition header_bytes :: "am_packet_t \<Rightarrow> byte list option" where
  "header_bytes pkt =
     (case hdr pkt of
        None \<Rightarrow> None
      | Some h \<Rightarrow>
          (case hdr_data h of
             None \<Rightarrow> None
           | Some d \<Rightarrow>
               if 0 \<le> hdr_size h \<and> nat (hdr_size h) \<le> length d
               then Some (take (nat (hdr_size h)) d) else None))"

text \<open>Two bytes read as a 16-bit big-endian number.\<close>

definition be16 :: "byte \<Rightarrow> byte \<Rightarrow> nat" where
  "be16 hi lo = unat hi * 256 + unat lo"

text \<open>\<open>am_packet_init\<close> (every field of the packet is overwritten).\<close>

definition am_packet_init :: am_packet_t where
  "am_packet_init =
     \<lparr>avpkt_data = None, avpkt_size = 0, avpkt_flags = 0, avpts = 0, avdts = 0,
      avduration = 0, isvalid = 0, newflag = 0, lastpts = UINT64_0, data = None,
      buf = None, data_size = 0, buf_size = 0, hdr = None, codec = False\<rparr>"

text \<open>
  Example values: a platform with unsigned \<open>char\<close> on which every allocation succeeds,
  fresh memory reads as zero and no value is rounded, with the constants of Kodi's
  headers; and the parameters of an elementary stream of 1920x1080 pictures without
  extradata.
\<close>

definition example_platform :: platform where
  "example_platform =
     \<lparr>char_is_signed = False, malloc_ok = (\<lambda>_. True), fresh = (\<lambda>_. 0), fresh_int = 0,
      sizeof_hdr_buf_t = 16, to_float = (\<lambda>x. x), to_double = (\<lambda>x. x),
      double_to_uint64 = (\<lambda>x. word_of_int \<lfloor>x\<rfloor>),
      DVD_NOPTS_VALUE = 0xFFF0000000000000, DVD_TIME_BASE = 1000000, STATE_HASPTS = 1\<rparr>"

definition example_para :: am_private_t where
  "example_para =
     \<lparr>am_pkt = am_packet_init, hdr_buf = \<lparr>hdr_data = None, hdr_size = 0\<rparr>,
      gcodec_dec_mode = STREAM_TYPE_FRAME, gcodec_param_keyframe_pts_only = False,
      vcodec_dec_mode = STREAM_TYPE_FRAME, stream_type = AM_STREAM_ES,
      video_format = VFORMAT_OTHER, video_codec_id = AV_CODEC_ID_OTHER,
      video_codec_tag = CODEC_TAG_OTHER, video_codec_type = VIDEO_DEC_FORMAT_OTHER,
      video_width = 1920, video_height = 1080, video_rate = 4004,
      extrasize = 0, extradata = []\<rparr>"

definition example_hdr_packet :: am_packet_t where
  "example_hdr_packet =
     am_packet_init\<lparr>hdr := Some \<lparr>hdr_data = Some (replicate 1024 0), hdr_size = 0\<rparr>\<rparr>"

definition example_wmv3_para :: am_private_t where
  "example_wmv3_para = example_para\<lparr>extrasize := 2, extradata := [0x4e, 0x29]\<rparr>"

text \<open>
  Example VP9 packets: a single frame of one byte; a superframe of a 2-byte and a 3-byte
  frame with its index; an index whose sizes exceed the packet.
\<close>

definition example_vp9_frame :: am_packet_t where
  "example_vp9_frame = am_packet_init\<lparr>data := Some [0], data_size := 1\<rparr>"

definition example_vp9_superframe :: am_packet_t where
  "example_vp9_superframe =
     am_packet_init\<lparr>data := Some [1, 2, 3, 4, 5, 0xC1, 2, 3, 0xC1], data_size := 9\<rparr>"

definition example_vp9_overflow :: am_packet_t where
  "example_vp9_overflow = am_packet_init\<lparr>data := Some [0xC1, 5, 5, 0xC1], data_size := 4\<rparr>"

text \<open>
  A packet that is nothing but a superframe index: two frames whose sizes are coded in
  four bytes each, 0x7fffffff both.
\<close>

definition example_vp9_wrap :: am_packet_t where
  "example_vp9_wrap =
     am_packet_init\<lparr>data := Some [0xD9, 0xff, 0xff, 0xff, 0x7f, 0xff, 0xff, 0xff, 0x7f, 0xD9],
                    data_size := 10\<rparr>"


section \<open>VP9 superframes\<close>

text \<open>A value wrapped to the range of a 32-bit \<open>int\<close>.\<close>

definition i32 :: "int \<Rightarrow> int" where
  "i32 x = sint (word_of_int x :: 32 word)"

text \<open>\<open>buf[i]\<close>, \<open>memmove\<close>, \<open>memset\<close> and a store of several bytes, inside a block.\<close>

definition rd :: "byte list \<Rightarrow> int \<Rightarrow> byte option" where
  "rd b i = (if 0 \<le> i \<and> i < int (length b) then Some (b ! nat i) else None)"

definition store_at :: "byte list \<Rightarrow> int \<Rightarrow> byte list \<Rightarrow> byte list option" where
  "store_at b off src = (if 0 \<le> off then memcpy_at b (nat off) src else None)"

definition memmove_at :: "byte list \<Rightarrow> int \<Rightarrow> int \<Rightarrow> int \<Rightarrow> byte list option" where
  "memmove_at b dst src n =
     (if 0 \<le> n \<and> 0 \<le> src \<and> src + n \<le> int (length b)
      then store_at b dst (take (nat n) (drop (nat src) b)) else None)"

definition memset_at :: "byte list \<Rightarrow> int \<Rightarrow> byte \<Rightarrow> int \<Rightarrow> byte list option" where
  "memset_at b off c n = (if 0 \<le> n then store_at b off (replicate (nat n) c) else None)"

text \<open>
  FFmpeg's \<open>av_grow_packet\<close> on a packet without a reference-counted buffer (the callers
  drop it first with \<open>av_buffer_unref\<close>): it aborts on a size out of range, fails with
  \<open>AVERROR(ENOMEM)\<close> when \<open>grow_by\<close>, read as unsigned, is too large or the allocation
  fails, and otherwise copies the \<open>size\<close> bytes into a new block of
  \<open>size + grow_by\<close> uninitialised bytes followed by zeroed padding.
\<close>

definition av_grow_packet :: "platform \<Rightarrow> byte list option \<Rightarrow> int \<Rightarrow> int
    \<Rightarrow> (int \<times> byte list option \<times> int) option" where
  "av_grow_packet pf d sz grow_by =
     (if sz < 0 \<or> sz > INT_MAX - AV_INPUT_BUFFER_PADDING_SIZE then None
      else if grow_by < 0 \<or> grow_by > INT_MAX - (sz + AV_INPUT_BUFFER_PADDING_SIZE)
        then Some (AVERROR_ENOMEM, d, sz)
      else if \<not> malloc_ok pf (nat (sz + grow_by + AV_INPUT_BUFFER_PADDING_SIZE))
        then Some (AVERROR_ENOMEM, d, sz)
      else if sz = 0
        then Some (0, Some (map (fresh pf) [0..<nat grow_by]
                            @ replicate (nat AV_INPUT_BUFFER_PADDING_SIZE) 0), grow_by)
      else
        (case d of
           None \<Rightarrow> None
         | Some old \<Rightarrow>
             if int (length old) < sz then None
             else Some (0, Some (take (nat sz) old @ map (fresh pf) [nat sz..<nat (sz + grow_by)]
                                 @ replicate (nat AV_INPUT_BUFFER_PADDING_SIZE) 0),
                        sz + grow_by)))"

text \<open>
  The size of one sub-frame: \<open>mag\<close> little-endian bytes from \<open>buf[mag_ptr]\<close>, combined
  with \<open>|\<close> and \<open><<\<close> on \<open>int\<close>.
\<close>

definition vp9_read_size :: "byte list \<Rightarrow> int \<Rightarrow> nat \<Rightarrow> int option" where
  "vp9_read_size b mag_ptr mag =
     fold (\<lambda>cur_mag acc.
             case acc of
               None \<Rightarrow> None
             | Some sz \<Rightarrow>
                 (case rd b (mag_ptr + int cur_mag) of
                    None \<Rightarrow> None
                  | Some x \<Rightarrow> Some (sz OR i32 (uint x * 2 ^ (cur_mag * 8)))))
          [0..<mag] (Some 0)"

fun vp9_read_sizes :: "byte list \<Rightarrow> int \<Rightarrow> nat \<Rightarrow> nat \<Rightarrow> int list option" where
  "vp9_read_sizes b mag_ptr mag 0 = Some []"
| "vp9_read_sizes b mag_ptr mag (Suc n) =
     (case vp9_read_size b mag_ptr mag of
        None \<Rightarrow> None
      | Some sz \<Rightarrow>
          (case vp9_read_sizes b (mag_ptr + int mag) mag n of
             None \<Rightarrow> None
           | Some szs \<Rightarrow> Some (sz # szs)))"

text \<open>\<open>tframesize[]\<close>: the running sums of \<open>size[]\<close>.\<close>

fun vp9_tframesize :: "int \<Rightarrow> int list \<Rightarrow> int list" where
  "vp9_tframesize acc [] = []"
| "vp9_tframesize acc (s # ss) = i32 (acc + s) # vp9_tframesize (i32 (acc + s)) ss"

text \<open>
  The first half of \<open>vp9_update_frame_header\<close>: what it learns from the packet before it
  rewrites anything. \<open>VP9_FRAMES frame_number size tframesize total_datasize\<close> holds the
  locals of that name.
\<close>

datatype vp9_layout =
  VP9_FAULT | VP9_WRONG_MARKER | VP9_FRAMES nat "int list" "int list" int

definition vp9_parse :: "byte list \<Rightarrow> int \<Rightarrow> vp9_layout" where
  "vp9_parse b dsize =
     (case rd b (dsize - 1) of
        None \<Rightarrow> VP9_FAULT
      | Some marker \<Rightarrow>
          if marker AND 0xe0 = 0xc0 then
            (let frame_number = unat (marker AND 0x7) + 1;
                 mag = unat (drop_bit 3 marker AND 0x3) + 1;
                 mag_ptr = dsize - int mag * int frame_number - 2
             in case rd b mag_ptr of
                  None \<Rightarrow> VP9_FAULT
                | Some marker2 \<Rightarrow>
                    if marker2 \<noteq> marker then VP9_WRONG_MARKER
                    else
                      (case vp9_read_sizes b (mag_ptr + 1) mag frame_number of
                         None \<Rightarrow> VP9_FAULT
                       | Some szs \<Rightarrow>
                           VP9_FRAMES frame_number szs (vp9_tframesize 0 szs)
                             (foldl (\<lambda>t s. i32 (t + s)) 0 szs)))
          else VP9_FRAMES 1 [dsize] [dsize] dsize)"

text \<open>The 16 bytes stored at \<open>fdata[0..15]\<close> for a frame of \<open>framesize\<close> bytes.\<close>

definition vp9_frame_marker :: "int \<Rightarrow> byte list" where
  "vp9_frame_marker framesize =
     (let fs = (word_of_int (framesize + 4) :: 32 word)
      in [ucast (drop_bit 24 fs AND 0xff), ucast (drop_bit 16 fs AND 0xff),
          ucast (drop_bit 8 fs AND 0xff), ucast (fs AND 0xff),
          ucast (drop_bit 24 fs AND 0xff) XOR 0xff, ucast (drop_bit 16 fs AND 0xff) XOR 0xff,
          ucast (drop_bit 8 fs AND 0xff) XOR 0xff, ucast (fs AND 0xff) XOR 0xff,
          0, 0, 0, 1, 0x41, 0x4D, 0x4C, 0x56])"

text \<open>
  The second loop, \<open>cur_frame\<close> from \<open>frame_number - 1\<close> down to 0, on the grown block;
  \<open>old_header\<close> is the offset of the marker written last, if any.
\<close>

fun vp9_put_headers :: "nat \<Rightarrow> int list \<Rightarrow> int list \<Rightarrow> byte list \<Rightarrow> int option
    \<Rightarrow> byte list option" where
  "vp9_put_headers 0 szs tfs b old_header = Some b"
| "vp9_put_headers (Suc cur_frame) szs tfs b old_header =
     (if cur_frame < length szs \<and> cur_frame < length tfs then
        (let framesize = szs ! cur_frame;
             oldframeoff = tfs ! cur_frame - framesize;
             outheaderoff = oldframeoff + int cur_frame * 16
         in case memmove_at b (outheaderoff + 16) oldframeoff framesize of
              None \<Rightarrow> None
            | Some b1 \<Rightarrow>
                (case store_at b1 outheaderoff (vp9_frame_marker framesize) of
                   None \<Rightarrow> None
                 | Some b2 \<Rightarrow>
                     (case (case old_header of
                              None \<Rightarrow> Some b2
                            | Some oh \<Rightarrow>
                                if oh > outheaderoff + 16 + framesize
                                then memset_at b2 (outheaderoff + 16 + framesize) 0
                                       (oh - outheaderoff + 16 + framesize)
                                else Some b2) of
                        None \<Rightarrow> None
                      | Some b3 \<Rightarrow> vp9_put_headers cur_frame szs tfs b3 (Some outheaderoff))))
      else None)"

definition vp9_update_frame_header :: "platform \<Rightarrow> am_packet_t \<Rightarrow> (int \<times> am_packet_t) option" where
  "vp9_update_frame_header pf pkt =
     (let dsize = data_size pkt;
          pkt1 = pkt\<lparr>avpkt_data := data pkt, avpkt_size := data_size pkt\<rparr>
      in case data pkt of
           None \<Rightarrow> Some (PLAYER_SUCCESS, pkt1)
         | Some b \<Rightarrow>
             (case vp9_parse b dsize of
                VP9_FAULT \<Rightarrow> None
              | VP9_WRONG_MARKER \<Rightarrow> Some (PLAYER_SUCCESS, pkt1)
              | VP9_FRAMES frame_number szs tfs total_datasize \<Rightarrow>
                  if total_datasize > dsize then Some (PLAYER_SUCCESS, pkt1)
                  else
                    (case av_grow_packet pf (avpkt_data pkt1) (avpkt_size pkt1)
                            (total_datasize + int frame_number * 16 - dsize) of
                       None \<Rightarrow> None
                     | Some (ret, d, sz) \<Rightarrow>
                         if ret < 0 then Some (ret, pkt1)
                         else
                           (case d of
                              None \<Rightarrow> None
                            | Some grown \<Rightarrow>
                                (case vp9_put_headers frame_number szs tfs grown None of
                                   None \<Rightarrow> None
                                 | Some b' \<Rightarrow>
                                     Some (PLAYER_SUCCESS,
                                       pkt1\<lparr>avpkt_data := Some b', avpkt_size := sz,
                                            data := Some b', data_size := sz\<rparr>))))))"

text \<open>The bytes of the packet: \<open>pkt->data[0 .. data_size)\<close>.\<close>

definition packet_bytes :: "am_packet_t \<Rightarrow> byte list option" where
  "packet_bytes pkt =
     (case data pkt of
        None \<Rightarrow> None
      | Some d \<Rightarrow>
          if 0 \<le> data_size pkt \<and> nat (data_size pkt) \<le> length d
          then Some (take (nat (data_size pkt)) d) else None)"

text \<open>What a repackager returns: its code, the bytes of the packet and their number.\<close>

definition repackaged :: "(int \<times> am_packet_t) option \<Rightarrow> (int \<times> byte list \<times> int) option" where
  "repackaged res =
     (case res of
        None \<Rightarrow> None
      | Some (ret, pkt) \<Rightarrow>
          (case packet_bytes pkt of
             None \<Rightarrow> None
           | Some bs \<Rightarrow> Some (ret, bs, data_size pkt)))"

section \<open>AV1 open bitstream units\<close>

datatype OBU_TYPE =
  OBU_SEQUENCE_HEADER | OBU_TEMPORAL_DELIMITER | OBU_FRAME_HEADER | OBU_TILE_GROUP
  | OBU_METADATA | OBU_FRAME | OBU_REDUNDANT_FRAME_HEADER | OBU_TILE_LIST | OBU_PADDING
  | OBU_OTHER

text \<open>
  What \<open>av1_parser_frame\<close> takes from \<open>obu_util.h\<close> and \<open>aom_integer.h\<close>, which are not
  part of these sources, are parameters. \<open>aom_read_obu_header_and_size\<close> gets the bytes
  from \<open>data\<close> to \<open>data_end\<close> and \<open>is_annexb\<close>; it fails (\<open>None\<close>) or returns the type of
  the unit, \<open>payload_size\<close> and \<open>bytes_read\<close>. \<open>aom_uleb_encode_fixed_size\<close> gets the value
  to code in 4 bytes; it fails or returns the 4 bytes. \<open>aom_uleb_decode\<close> gets the bytes
  from \<open>buffer\<close> to the end of its block, \<open>available\<close> and the value of \<open>*length\<close> before
  the call; it returns what \<open>*value\<close> and \<open>*length\<close> hold after the call, or \<open>None\<close> when
  it reads outside the block or leaves \<open>*value\<close> unset. The last two fields are the
  values of two enumerators of \<open>OBU_METADATA_TYPE\<close>.
\<close>

record aom_lib =
  aom_read_obu_header_and_size :: "byte list \<Rightarrow> bool \<Rightarrow> (OBU_TYPE \<times> nat \<times> nat) option"
  aom_uleb_encode_fixed_size :: "32 word \<Rightarrow> (byte \<times> byte \<times> byte \<times> byte) option"
  aom_uleb_decode :: "byte list \<Rightarrow> nat \<Rightarrow> nat \<Rightarrow> (64 word \<times> nat) option"
  OBU_METADATA_TYPE_HDR_CLL :: "64 word"
  OBU_METADATA_TYPE_HDR_MDCV :: "64 word"

definition av1_header_init :: "byte list" where
  "av1_header_init =
     [0x00, 0x00, 0x01, 0x54, 0xFF, 0xFF, 0xFE, 0xAB, 0x00, 0x00, 0x00, 0x01,
      0x41, 0x4D, 0x4C, 0x56, 0xD0, 0x82, 0x80, 0x00]"

text \<open>
  The case \<open>OBU_METADATA\<close> with \<open>meta_buf == NULL\<close>, as in the only call: it stores
  nothing, and the result says whether what it reads is defined. \<open>rest\<close> holds the bytes
  from \<open>data\<close>, which is behind the header of the unit, to the end of the block.
  \<open>aom_uleb_decode(data, 8, &type, &bytes_read)\<close> sets \<open>type\<close> and \<open>bytes_read\<close>;
  \<open>meta_type_name[type]\<close> has six entries; the arguments of the log calls read \<open>p[0..3]\<close>
  for \<open>OBU_METADATA_TYPE_HDR_CLL\<close> and \<open>p[0..23]\<close> for \<open>OBU_METADATA_TYPE_HDR_MDCV\<close>, with
  \<open>p = data + bytes_read\<close>, whatever the size of the payload is.
\<close>

definition av1_metadata_reads :: "aom_lib \<Rightarrow> byte list \<Rightarrow> nat \<Rightarrow> bool" where
  "av1_metadata_reads lib rest bytes_read =
     (case aom_uleb_decode lib rest 8 bytes_read of
        None \<Rightarrow> False
      | Some (type, bytes_read') \<Rightarrow>
          type < 6
          \<and> (if type = OBU_METADATA_TYPE_HDR_CLL lib then bytes_read' + 4 \<le> length rest
               else if type = OBU_METADATA_TYPE_HDR_MDCV lib then bytes_read' + 24 \<le> length rest
               else True))"

text \<open>
  The \<open>switch (obu_header.type)\<close>: \<open>OBU_ERROR\<close> where it returns -1, \<open>OBU_UNDEFINED\<close> where
  it reads outside the block, otherwise \<open>OBU_NEXT\<close> with the new values of
  \<open>frame_decoding_finished\<close> and \<open>seen_frame_header\<close>. \<open>at_end\<close> is
  \<open>data_end == data + payload_size\<close>.
\<close>

datatype obu_switch = OBU_UNDEFINED | OBU_ERROR | OBU_NEXT bool bool

fun av1_obu_switch :: "aom_lib \<Rightarrow> OBU_TYPE \<Rightarrow> bool \<Rightarrow> bool \<Rightarrow> byte list \<Rightarrow> nat \<Rightarrow> obu_switch" where
  "av1_obu_switch lib OBU_TEMPORAL_DELIMITER seen at_end rest bytes_read = OBU_NEXT False False"
| "av1_obu_switch lib OBU_SEQUENCE_HEADER seen at_end rest bytes_read =
     (if seen then OBU_ERROR else OBU_NEXT False seen)"
| "av1_obu_switch lib OBU_FRAME_HEADER seen at_end rest bytes_read =
     (if at_end then OBU_NEXT True seen else OBU_NEXT False True)"
| "av1_obu_switch lib OBU_REDUNDANT_FRAME_HEADER seen at_end rest bytes_read =
     (if \<not> seen then OBU_ERROR else OBU_NEXT False seen)"
| "av1_obu_switch lib OBU_FRAME seen at_end rest bytes_read =
     (if seen then OBU_ERROR else if at_end then OBU_NEXT True False else OBU_NEXT False seen)"
| "av1_obu_switch lib OBU_TILE_GROUP seen at_end rest bytes_read =
     (if \<not> seen then OBU_ERROR else if at_end then OBU_NEXT True False else OBU_NEXT False seen)"
| "av1_obu_switch lib OBU_METADATA seen at_end rest bytes_read =
     (if av1_metadata_reads lib rest bytes_read then OBU_NEXT False seen else OBU_UNDEFINED)"
| "av1_obu_switch lib OBU_TILE_LIST seen at_end rest bytes_read = OBU_NEXT False seen"
| "av1_obu_switch lib OBU_PADDING seen at_end rest bytes_read = OBU_NEXT False seen"
| "av1_obu_switch lib OBU_OTHER seen at_end rest bytes_read = OBU_NEXT False seen"

text \<open>The array \<open>header\<close> after the stores of one iteration.\<close>

definition av1_unit_header :: "aom_lib \<Rightarrow> bool \<Rightarrow> byte list \<Rightarrow> nat \<Rightarrow> byte list" where
  "av1_unit_header lib is_annexb header n =
     (let obu_size = (if is_annexb then word_of_nat n else word_of_nat n + 4 :: 32 word);
          header1 =
            (if is_annexb then header
             else case aom_uleb_encode_fixed_size lib obu_size of
                    None \<Rightarrow> header
                  | Some (c0, c1, c2, c3) \<Rightarrow> take 16 header @ [c0, c1, c2, c3]);
          h0 = (ucast (drop_bit 24 (obu_size + 4) AND 0xff) :: byte);
          h1 = (ucast (drop_bit 16 (obu_size + 4) AND 0xff) :: byte);
          h2 = (ucast (drop_bit 8 (obu_size + 4) AND 0xff) :: byte);
          h3 = (ucast ((obu_size + 4) AND 0xff) :: byte)
      in [h0, h1, h2, h3, h0 XOR 0xff, h1 XOR 0xff, h2 XOR 0xff, h3 XOR 0xff] @ drop 8 header1)"

text \<open>
  The loop of \<open>av1_parser_frame\<close>. \<open>d\<close> holds the bytes from \<open>data\<close> to \<open>data_end\<close>,
  \<open>slack\<close> the bytes of the block behind \<open>data_end\<close>, \<open>dst\<close> the bytes written so far
  into a block of \<open>cap\<close> bytes. The result is the returned code with what was written and
  \<open>*frame_len\<close>, or \<open>None\<close> where a \<open>memcpy\<close> or a read leaves its block. Every iteration
  that goes on has written at least 16 bytes, so the loop ends.
\<close>

function av1_parser_loop :: "aom_lib \<Rightarrow> bool \<Rightarrow> nat \<Rightarrow> byte list \<Rightarrow> byte list \<Rightarrow> byte list
    \<Rightarrow> 32 word \<Rightarrow> bool \<Rightarrow> byte list \<Rightarrow> (int \<times> byte list \<times> 32 word) option" where
  "av1_parser_loop lib is_annexb cap d slack dst frame_len seen_frame_header header =
     (if d = [] \<and> \<not> seen_frame_header then Some (0, dst, frame_len)
      else
        (case aom_read_obu_header_and_size lib d is_annexb of
           None \<Rightarrow> Some (- 1, dst, frame_len)
         | Some (ty, payload_size, bytes_read) \<Rightarrow>
             if (int (length d) - int bytes_read) mod 2 ^ 64 < int payload_size
             then Some (- 1, dst, frame_len)
             else if length d < bytes_read + payload_size then None
             else
               (let header' = av1_unit_header lib is_annexb header (bytes_read + payload_size);
                    header_size = (if is_annexb then 16 else 20);
                    dst' = dst @ take header_size header' @ take (bytes_read + payload_size) d;
                    frame_len' = frame_len + word_of_nat (20 + bytes_read + payload_size);
                    d1 = drop bytes_read d
                in if cap < length dst' then None
                   else
                     (case av1_obu_switch lib ty seen_frame_header (length d1 = payload_size)
                             (d1 @ slack) bytes_read of
                        OBU_UNDEFINED \<Rightarrow> None
                      | OBU_ERROR \<Rightarrow> Some (- 1, dst', frame_len')
                      | OBU_NEXT frame_decoding_finished seen' \<Rightarrow>
                          if frame_decoding_finished then Some (0, dst', frame_len')
                          else av1_parser_loop lib is_annexb cap (drop payload_size d1) slack dst'
                                 frame_len' seen' header'))))"
  by pat_completeness auto
termination
  by (relation "measure (\<lambda>(lib, is_annexb, cap, d, slack, dst, frame_len, seen, header).
                           cap - length dst)")
     (auto simp: av1_unit_header_def Let_def split: if_splits)

declare av1_parser_loop.simps [simp del]

definition av1_parser_frame :: "aom_lib \<Rightarrow> bool \<Rightarrow> nat \<Rightarrow> byte list \<Rightarrow> byte list \<Rightarrow> 32 word
    \<Rightarrow> (int \<times> byte list \<times> 32 word) option" where
  "av1_parser_frame lib is_annexb cap d slack frame_len =
     av1_parser_loop lib is_annexb cap d slack [] frame_len False av1_header_init"

text \<open>
  \<open>av1_add_frame_dec_info\<close>. The block of \<open>calloc\<close> has \<open>data_size + 4096\<close> zeroed bytes;
  the code of the parser is not looked at.
\<close>

definition av1_add_frame_dec_info :: "platform \<Rightarrow> aom_lib \<Rightarrow> am_packet_t
    \<Rightarrow> (int \<times> am_packet_t) option" where
  "av1_add_frame_dec_info pf lib pkt =
     (if data_size pkt + 4096 < 0 \<or> \<not> malloc_ok pf (nat (data_size pkt + 4096)) then None
      else
        (case data pkt of
           None \<Rightarrow> None
         | Some d \<Rightarrow>
             if data_size pkt < 0 \<or> int (length d) < data_size pkt then None
             else
               (case av1_parser_frame lib False (nat (data_size pkt + 4096))
                       (take (nat (data_size pkt)) d) (drop (nat (data_size pkt)) d) 0 of
                  None \<Rightarrow> None
                | Some (_, dst, dst_frame_size) \<Rightarrow>
                    if dst_frame_size - word_of_int (data_size pkt) \<noteq> 0 then
                      (let pkt1 = pkt\<lparr>avpkt_data := data pkt, avpkt_size := data_size pkt\<rparr>
                       in case av_grow_packet pf (avpkt_data pkt1) (avpkt_size pkt1)
                                 (sint (dst_frame_size - word_of_int (data_size pkt))) of
                            None \<Rightarrow> None
                          | Some (ret, d', sz) \<Rightarrow>
                              if ret < 0 then Some (ret, pkt1)
                              else
                                (case d' of
                                   None \<Rightarrow> None
                                 | Some grown \<Rightarrow>
                                     if nat (data_size pkt + 4096) < unat dst_frame_size then None
                                     else
                                       (case memcpy_at grown 0
                                               (take (unat dst_frame_size)
                                                  (dst @ replicate (nat (data_size pkt + 4096)
                                                                     - length dst) 0)) of
                                          None \<Rightarrow> None
                                        | Some b \<Rightarrow>
                                            Some (PLAYER_SUCCESS,
                                              pkt1\<lparr>avpkt_data := Some b, avpkt_size := sz,
                                                   data := Some b,
                                                   data_size := sint dst_frame_size\<rparr>))))
                    else Some (PLAYER_SUCCESS, pkt))))"

subsection \<open>A packet made of units\<close>

text \<open>
  \<open>obu_stream lib d slack us\<close>: read with \<open>aom_read_obu_header_and_size\<close>, the bytes \<open>d\<close>
  are exactly the units \<open>us\<close>, one after the other, and what the parser reads of a
  metadata unit lies in the block, which ends with \<open>slack\<close> behind \<open>d\<close>; a unit is given
  by its type, its \<open>payload_size\<close> and its \<open>bytes_read\<close>. \<open>obu_split\<close> cuts \<open>d\<close> into the
  bytes of each unit.
\<close>

fun obu_stream :: "aom_lib \<Rightarrow> byte list \<Rightarrow> byte list \<Rightarrow> (OBU_TYPE \<times> nat \<times> nat) list \<Rightarrow> bool" where
  "obu_stream lib d slack [] = (d = [])"
| "obu_stream lib d slack ((ty, payload_size, bytes_read) # us) =
     (aom_read_obu_header_and_size lib d False = Some (ty, payload_size, bytes_read)
      \<and> 0 < bytes_read \<and> bytes_read + payload_size \<le> length d
      \<and> (ty = OBU_METADATA \<longrightarrow> av1_metadata_reads lib (drop bytes_read d @ slack) bytes_read)
      \<and> obu_stream lib (drop (bytes_read + payload_size) d) slack us)"

fun obu_split :: "byte list \<Rightarrow> (OBU_TYPE \<times> nat \<times> nat) list \<Rightarrow> byte list list" where
  "obu_split d [] = []"
| "obu_split d ((ty, payload_size, bytes_read) # us) =
     take (bytes_read + payload_size) d # obu_split (drop (bytes_read + payload_size) d) us"

text \<open>
  The order of units that the parser accepts, in the words of the specification: a
  sequence header does not come in the middle of a frame; a redundant frame header and a
  tile group need a pending frame header, a frame must not have one; the packet does not
  end with a frame header pending.
\<close>

fun obu_order_ok :: "bool \<Rightarrow> (OBU_TYPE \<times> nat \<times> nat) list \<Rightarrow> bool" where
  "obu_order_ok pending [] = (\<not> pending)"
| "obu_order_ok pending ((ty, payload_size, bytes_read) # us) =
     (case ty of
        OBU_TEMPORAL_DELIMITER \<Rightarrow> obu_order_ok False us
      | OBU_SEQUENCE_HEADER \<Rightarrow> \<not> pending \<and> obu_order_ok pending us
      | OBU_FRAME_HEADER \<Rightarrow> us = [] \<or> obu_order_ok True us
      | OBU_REDUNDANT_FRAME_HEADER \<Rightarrow> pending \<and> obu_order_ok pending us
      | OBU_FRAME \<Rightarrow> \<not> pending \<and> (us = [] \<or> obu_order_ok pending us)
      | OBU_TILE_GROUP \<Rightarrow> pending \<and> (us = [] \<or> obu_order_ok pending us)
      | _ \<Rightarrow> obu_order_ok pending us)"

text \<open>The first four bytes read as a 32-bit big-endian number.\<close>

definition be32 :: "byte list \<Rightarrow> nat" where
  "be32 bs = ((unat (bs ! 0) * 256 + unat (bs ! 1)) * 256 + unat (bs ! 2)) * 256 + unat (bs ! 3)"

text \<open>
  \<open>av1_unit_ok obu u\<close>: \<open>u\<close> is the unit \<open>obu\<close> behind a 20-byte marker whose length field
  is the number of bytes of the unit plus 8 and whose next four bytes are the
  complements of the length bytes.
\<close>

definition av1_unit_ok :: "byte list \<Rightarrow> byte list \<Rightarrow> bool" where
  "av1_unit_ok obu u \<longleftrightarrow>
     length u = 20 + length obu \<and> be32 u = length obu + 8
     \<and> u ! 4 = u ! 0 XOR 0xff \<and> u ! 5 = u ! 1 XOR 0xff
     \<and> u ! 6 = u ! 2 XOR 0xff \<and> u ! 7 = u ! 3 XOR 0xff
     \<and> take 8 (drop 8 u) = [0, 0, 0, 1, 0x41, 0x4D, 0x4C, 0x56]
     \<and> drop 20 u = obu"

text \<open>Bytes 8 to 15 of every marker: 00 00 00 01 and "AMLV".\<close>

definition AMLV_tag :: "byte list" where
  "AMLV_tag = [0, 0, 0, 1, 0x41, 0x4D, 0x4C, 0x56]"

text \<open>
  An example of the library: units with a one-byte header, whose bits 3 to 6 are the
  type, and a one-byte size field; the 4-byte LEB128 code of values below \<open>2^28\<close>; the
  LEB128 decoder, which reads at most \<open>available\<close> bytes and sets \<open>*length\<close> when it finds
  the last byte of the code; and the values 1 and 2 of the two enumerators.
\<close>

fun example_uleb_decode :: "nat \<Rightarrow> nat \<Rightarrow> 64 word \<Rightarrow> byte list \<Rightarrow> nat \<Rightarrow> (64 word \<times> nat) option" where
  "example_uleb_decode 0 i acc bs len0 = Some (acc, len0)"
| "example_uleb_decode (Suc k) i acc [] len0 = None"
| "example_uleb_decode (Suc k) i acc (b # bs) len0 =
     (if b AND 0x80 = 0 then Some (acc OR push_bit (i * 7) (ucast (b AND 0x7f)), i + 1)
      else example_uleb_decode k (i + 1) (acc OR push_bit (i * 7) (ucast (b AND 0x7f))) bs len0)"

definition example_obu_type :: "byte \<Rightarrow> OBU_TYPE" where
  "example_obu_type b =
     (let t = unat (drop_bit 3 b AND 0xf)
      in if t = 1 then OBU_SEQUENCE_HEADER else if t = 2 then OBU_TEMPORAL_DELIMITER
         else if t = 3 then OBU_FRAME_HEADER else if t = 4 then OBU_TILE_GROUP
         else if t = 5 then OBU_METADATA else if t = 6 then OBU_FRAME
         else if t = 7 then OBU_REDUNDANT_FRAME_HEADER else if t = 8 then OBU_TILE_LIST
         else if t = 15 then OBU_PADDING else OBU_OTHER)"

definition example_aom_lib :: aom_lib where
  "example_aom_lib =
     \<lparr>aom_read_obu_header_and_size =
        (\<lambda>d is_annexb. case d of
                          b0 # b1 # _ \<Rightarrow> Some (example_obu_type b0, unat b1, 2)
                        | _ \<Rightarrow> None),
      aom_uleb_encode_fixed_size =
        (\<lambda>v. if 2 ^ 28 \<le> unat v then None
             else Some (ucast (v AND 0x7f) OR 0x80, ucast (drop_bit 7 v AND 0x7f) OR 0x80,
                        ucast (drop_bit 14 v AND 0x7f) OR 0x80, ucast (drop_bit 21 v AND 0x7f))),
      aom_uleb_decode = (\<lambda>bs available len0. example_uleb_decode (min available 8) 0 0 bs len0),
      OBU_METADATA_TYPE_HDR_CLL = 1, OBU_METADATA_TYPE_HDR_MDCV = 2\<rparr>"

text \<open>An example AV1 packet: a temporal delimiter and a frame of two payload bytes.\<close>

definition example_av1_bytes :: "byte list" where
  "example_av1_bytes = [0x12, 0x00, 0x32, 0x02, 0xAA, 0xBB]"

definition example_av1_units :: "(OBU_TYPE \<times> nat \<times> nat) list" where
  "example_av1_units = [(OBU_TEMPORAL_DELIMITER, 0, 2), (OBU_FRAME, 2, 2)]"

definition example_av1_packet :: am_packet_t where
  "example_av1_packet = am_packet_init\<lparr>data := Some example_av1_bytes, data_size := 6\<rparr>"

text \<open>
  An example AV1 packet with a metadata unit: a temporal delimiter, the content light
  level (the type 1 and four bytes) and a frame of two payload bytes.
\<close>

definition example_av1_meta_bytes :: "byte list" where
  "example_av1_meta_bytes =
     [0x12, 0x00, 0x2A, 0x05, 0x01, 0x03, 0xE8, 0x01, 0x90, 0x32, 0x02, 0xAA, 0xBB]"

definition example_av1_meta_units :: "(OBU_TYPE \<times> nat \<times> nat) list" where
  "example_av1_meta_units =
     [(OBU_TEMPORAL_DELIMITER, 0, 2), (OBU_METADATA, 5, 2), (OBU_FRAME, 2, 2)]"

definition example_av1_meta_packet :: am_packet_t where
  "example_av1_meta_packet =
     am_packet_init\<lparr>data := Some example_av1_meta_bytes, data_size := 13\<rparr>"

section \<open>The other header writers and the dispatch\<close>

text \<open>\<open>h264_add_header\<close> and \<open>hevc_add_header\<close>, which have the same text.\<close>

definition h264_add_header :: "platform \<Rightarrow> byte list \<Rightarrow> am_packet_t \<Rightarrow> (int \<times> am_packet_t) option" where
  "h264_add_header pf src pkt =
     (case hdr pkt of
        None \<Rightarrow> None
      | Some h \<Rightarrow>
          (let grown = (if length src > HDR_BUF_SIZE then malloc_block pf (length src)
                        else hdr_data h)
           in if length src > HDR_BUF_SIZE \<and> grown = None
              then Some (PLAYER_NOMEM, pkt\<lparr>hdr := Some (h\<lparr>hdr_data := None\<rparr>)\<rparr>)
              else if src = []
              then Some (PLAYER_SUCCESS, pkt\<lparr>hdr := Some (h\<lparr>hdr_data := grown, hdr_size := 0\<rparr>)\<rparr>)
              else
                (case grown of
                   None \<Rightarrow> None
                 | Some d \<Rightarrow>
                     (case memcpy_at d 0 src of
                        None \<Rightarrow> None
                      | Some d' \<Rightarrow>
                          Some (PLAYER_SUCCESS,
                            pkt\<lparr>hdr := Some (h\<lparr>hdr_data := Some d',
                                               hdr_size := int (length src)\<rparr>)\<rparr>)))))"

definition h264_write_header :: "platform \<Rightarrow> am_private_t \<Rightarrow> am_packet_t \<Rightarrow> device
    \<Rightarrow> (int \<times> am_packet_t \<times> device) option" where
  "h264_write_header pf para pkt dev =
     (case h264_add_header pf (extradata para) pkt of
        None \<Rightarrow> None
      | Some (ret, pkt1) \<Rightarrow>
          if ret = PLAYER_SUCCESS
          then write_av_packet para (pkt1\<lparr>codec := True, newflag := 1\<rparr>) dev
          else Some (ret, pkt1, dev))"

definition hevc_write_header :: "platform \<Rightarrow> am_private_t \<Rightarrow> am_packet_t \<Rightarrow> device
    \<Rightarrow> (int \<times> am_packet_t \<times> device) option" where
  "hevc_write_header pf para pkt dev =
     (if extradata para = [] then Some (- 1, pkt, dev)
      else
        (case h264_add_header pf (extradata para) pkt of
           None \<Rightarrow> None
         | Some (ret, pkt1) \<Rightarrow>
             if ret = PLAYER_SUCCESS
             then write_av_packet para (pkt1\<lparr>codec := True, newflag := 1\<rparr>) dev
             else Some (ret, pkt1, dev)))"

definition divx311_add :: "32 word \<Rightarrow> 32 word \<Rightarrow> byte list" where
  "divx311_add w h =
     (let i = push_bit 12 w OR (h AND 0xfff)
      in [0x00, 0x00, 0x00, 0x01, 0x20, ucast (drop_bit 16 i AND 0xff),
          ucast (drop_bit 8 i AND 0xff), ucast (i AND 0xff), 0x00, 0x00])"

definition divx3_data_prefeeding :: "am_packet_t \<Rightarrow> 32 word \<Rightarrow> 32 word
    \<Rightarrow> (int \<times> am_packet_t) option" where
  "divx3_data_prefeeding pkt w h =
     (case hdr pkt of
        None \<Rightarrow> None
      | Some hb \<Rightarrow>
          (case hdr_data hb of
             None \<Rightarrow> Some (PLAYER_FAILED, pkt)
           | Some d \<Rightarrow>
               (case memcpy_at d 0 (divx311_add w h) of
                  None \<Rightarrow> None
                | Some d' \<Rightarrow>
                    Some (PLAYER_SUCCESS,
                      pkt\<lparr>hdr := Some (hb\<lparr>hdr_data := Some d', hdr_size := 10\<rparr>)\<rparr>))))"

definition divx3_write_header :: "am_private_t \<Rightarrow> am_packet_t \<Rightarrow> device
    \<Rightarrow> (int \<times> am_packet_t \<times> device) option" where
  "divx3_write_header para pkt dev =
     (case divx3_data_prefeeding pkt (video_width para) (video_height para) of
        None \<Rightarrow> None
      | Some (_, pkt1) \<Rightarrow>
          (case write_av_packet para (pkt1\<lparr>codec := True, newflag := 1\<rparr>) dev of
             None \<Rightarrow> None
           | Some (_, pkt2, dev') \<Rightarrow> Some (PLAYER_SUCCESS, pkt2, dev')))"

text \<open>\<open>m4s2_dx50_mp4v_write_header\<close> fills \<open>para->hdr_buf\<close>, not the header of the packet.\<close>

definition m4s2_dx50_mp4v_write_header :: "platform \<Rightarrow> am_private_t \<Rightarrow> (int \<times> am_private_t) option" where
  "m4s2_dx50_mp4v_write_header pf para =
     (let src = extradata para; h = hdr_buf para
      in if int (length src) > hdr_size h then
           (case malloc_block pf (length src) of
              None \<Rightarrow> Some (PLAYER_FAILED, para\<lparr>hdr_buf := \<lparr>hdr_data = None, hdr_size = 0\<rparr>\<rparr>)
            | Some d \<Rightarrow>
                (case memcpy_at d 0 src of
                   None \<Rightarrow> None
                 | Some d' \<Rightarrow>
                     Some (PLAYER_SUCCESS,
                       para\<lparr>hdr_buf := \<lparr>hdr_data = Some d', hdr_size = int (length src)\<rparr>\<rparr>)))
         else if src = []
           then Some (PLAYER_SUCCESS, para\<lparr>hdr_buf := h\<lparr>hdr_size := 0\<rparr>\<rparr>)
         else
           (case hdr_data h of
              None \<Rightarrow> None
            | Some d \<Rightarrow>
                (case memcpy_at d 0 src of
                   None \<Rightarrow> None
                 | Some d' \<Rightarrow>
                     Some (PLAYER_SUCCESS,
                       para\<lparr>hdr_buf := \<lparr>hdr_data = Some d', hdr_size = int (length src)\<rparr>\<rparr>))))"

definition wvc1_write_header :: "am_private_t \<Rightarrow> am_packet_t \<Rightarrow> device
    \<Rightarrow> (int \<times> am_packet_t \<times> device) option" where
  "wvc1_write_header para pkt dev =
     (case hdr pkt of
        None \<Rightarrow> None
      | Some h \<Rightarrow>
          (case hdr_data h of
             None \<Rightarrow> None
           | Some d \<Rightarrow>
               if extradata para = [] then None
               else
                 (case memcpy_at d 0 (tl (extradata para)) of
                    None \<Rightarrow> None
                  | Some d' \<Rightarrow>
                      write_av_packet para
                        (pkt\<lparr>hdr := Some (h\<lparr>hdr_data := Some d', hdr_size := extrasize para - 1\<rparr>),
                             codec := True, newflag := 1\<rparr>) dev)))"

definition STUFF_BYTES_LENGTH :: nat where
  "STUFF_BYTES_LENGTH = 256"

definition packet_wrapper :: "int \<Rightarrow> byte list" where
  "packet_wrapper sz =
     [0x00, 0x00, 0x01, 0xe0, word_of_int (i32 sz div 256), word_of_int (i32 sz),
      0x81, 0xc0, 0x0d, 0x20, 0x00, 0x00, 0x00, 0x00, 0x1f, 0xff, 0xff, 0xff, 0xff,
      0xff, 0xff, 0xff, 0xff, 0xff, 0xff]"

definition mpeg_add_header :: "am_private_t \<Rightarrow> am_packet_t \<Rightarrow> device
    \<Rightarrow> (int \<times> am_packet_t \<times> device) option" where
  "mpeg_add_header para pkt dev =
     (case hdr pkt of
        None \<Rightarrow> None
      | Some h \<Rightarrow>
          (case hdr_data h of
             None \<Rightarrow> None
           | Some d \<Rightarrow>
               (case memcpy_at d 0 (packet_wrapper (extrasize para + 25)) of
                  None \<Rightarrow> None
                | Some d1 \<Rightarrow>
                    (case memcpy_at d1 25 (extradata para) of
                       None \<Rightarrow> None
                     | Some d2 \<Rightarrow>
                         (case store_at d2 (25 + extrasize para)
                                 (replicate STUFF_BYTES_LENGTH 0xff) of
                            None \<Rightarrow> None
                          | Some d3 \<Rightarrow>
                              write_av_packet para
                                (pkt\<lparr>hdr := Some (h\<lparr>hdr_data := Some d3,
                                        hdr_size := 25 + extrasize para + int STUFF_BYTES_LENGTH\<rparr>),
                                     codec := True, newflag := 1\<rparr>) dev)))))"

text \<open>
  The test of \<open>pre_header_feeding\<close> on the first five bytes of the extradata of a VC-1
  stream.
\<close>

definition vc1_has_wmv3_sequence :: "byte list \<Rightarrow> bool" where
  "vc1_has_wmv3_sequence e \<longleftrightarrow>
     length e > 4 \<and> e ! 0 = 0 \<and> e ! 1 = 0 \<and> e ! 2 = 0x01 \<and> e ! 3 = 0x0f
     \<and> (e ! 4) AND 0x03 = 0x03"

text \<open>The allocation of \<open>pkt->hdr\<close> at the start of \<open>pre_header_feeding\<close>.\<close>

definition alloc_pkt_hdr :: "platform \<Rightarrow> am_packet_t \<Rightarrow> (bool \<times> am_packet_t) option" where
  "alloc_pkt_hdr pf pkt =
     (if hdr pkt = None then
        (if \<not> malloc_ok pf (sizeof_hdr_buf_t pf) then None
         else
           (case malloc_block pf HDR_BUF_SIZE of
              None \<Rightarrow> Some (False, pkt\<lparr>hdr := Some \<lparr>hdr_data = None, hdr_size = fresh_int pf\<rparr>\<rparr>)
            | Some d \<Rightarrow>
                Some (True, pkt\<lparr>hdr := Some \<lparr>hdr_data = Some d, hdr_size = fresh_int pf\<rparr>\<rparr>)))
      else Some (True, pkt))"

definition pre_header_feeding :: "platform \<Rightarrow> am_private_t \<Rightarrow> am_packet_t \<Rightarrow> device
    \<Rightarrow> (int \<times> am_private_t \<times> am_packet_t \<times> device) option" where
  "pre_header_feeding pf para pkt dev =
     (if stream_type para = AM_STREAM_ES then
        (case alloc_pkt_hdr pf pkt of
           None \<Rightarrow> None
         | Some (ok, pkt1) \<Rightarrow>
             if \<not> ok then Some (PLAYER_NOMEM, para, pkt1, dev)
             else
               (case
                  (if video_format para = VFORMAT_H264 \<or> video_format para = VFORMAT_H264_4K2K
                      \<or> video_format para = VFORMAT_H264MVC
                   then map_option (\<lambda>(r, p, d). (r, para, p, d)) (h264_write_header pf para pkt1 dev)
                   else if video_format para = VFORMAT_MPEG4
                           \<and> video_codec_type para = VIDEO_DEC_FORMAT_MPEG4_3
                   then map_option (\<lambda>(r, p, d). (r, para, p, d)) (divx3_write_header para pkt1 dev)
                   else if video_codec_tag para = CODEC_TAG_M4S2
                           \<or> video_codec_tag para = CODEC_TAG_DX50
                           \<or> video_codec_tag para = CODEC_TAG_mp4v
                   then map_option (\<lambda>(r, pa). (r, pa, pkt1, dev)) (m4s2_dx50_mp4v_write_header pf para)
                   else if video_codec_tag para = CODEC_TAG_WMV3
                   then map_option (\<lambda>(r, p, d). (r, para, p, d)) (wmv3_write_header pf para pkt1 dev)
                   else if video_codec_tag para = CODEC_TAG_WVC1
                           \<or> video_codec_tag para = CODEC_TAG_VC_1
                           \<or> video_codec_tag para = CODEC_TAG_WMVA
                   then map_option (\<lambda>(r, p, d). (r, para, p, d))
                          (if vc1_has_wmv3_sequence (extradata para)
                           then wmv3_write_header pf para pkt1 dev
                           else wvc1_write_header para pkt1 dev)
                   else if video_format para = VFORMAT_MJPEG
                   then map_option (\<lambda>(r, p, d). (r, para, p, d)) (mjpeg_write_header para pkt1 dev)
                   else if video_format para = VFORMAT_HEVC
                   then map_option (\<lambda>(r, p, d). (r, para, p, d)) (hevc_write_header pf para pkt1 dev)
                   else Some (PLAYER_SUCCESS, para, pkt1, dev)) of
                  None \<Rightarrow> None
                | Some (ret, para2, pkt2, dev2) \<Rightarrow>
                    if ret \<noteq> PLAYER_SUCCESS then Some (ret, para2, pkt2, dev2)
                    else Some (PLAYER_SUCCESS, para2, pkt2\<lparr>hdr := None\<rparr>, dev2)))
      else if stream_type para = AM_STREAM_PS then
        (case alloc_pkt_hdr pf pkt of
           None \<Rightarrow> None
         | Some (ok, pkt1) \<Rightarrow>
             if \<not> ok then Some (PLAYER_NOMEM, para, pkt1, dev)
             else
               (case
                  (if video_codec_id para = AV_CODEC_ID_MPEG1VIDEO
                      \<or> video_codec_id para = AV_CODEC_ID_MPEG2VIDEO
                   then mpeg_add_header para pkt1 dev
                   else Some (PLAYER_SUCCESS, pkt1, dev)) of
                  None \<Rightarrow> None
                | Some (ret, pkt2, dev2) \<Rightarrow>
                    if ret \<noteq> PLAYER_SUCCESS then Some (ret, para, pkt2, dev2)
                    else Some (PLAYER_SUCCESS, para, pkt2\<lparr>hdr := None\<rparr>, dev2)))
      else Some (PLAYER_SUCCESS, para, pkt, dev))"

section \<open>The decoder session\<close>

text \<open>
  The members of \<open>CAMLCodec\<close> that the modelled functions read or write. The poll
  descriptor, the sysfs files, the dump file, the clock and the stereo mode of the
  picture are outside the model; \<open>GetPicture\<close> gets as an argument whether the time since
  the last frame exceeds the decoder timeout.
\<close>

record CAMLCodec =
  am_private :: am_private_t
  m_opened :: bool
  m_drain :: bool
  m_cur_pts :: "64 word"
  m_last_pts :: "64 word"
  m_bufferIndex :: "32 word"
  m_state :: "32 word"
  m_buffer_level_ready :: bool
  m_minimum_buffer_level :: real
  m_hints_ptsinvalid :: bool
  m_hints_aspect :: real


subsection \<open>Per-packet headers\<close>

text \<open>
  The start of \<open>divx3_prefix\<close> and of the two VC-1 branches of \<open>set_header_info\<close>: the
  old header bytes are freed, a missing \<open>hdr_buf_t\<close> is allocated. \<open>None\<close> is the failed
  allocation.
\<close>

definition renew_pkt_hdr :: "platform \<Rightarrow> am_packet_t \<Rightarrow> hdr_buf_t option" where
  "renew_pkt_hdr pf pkt =
     (case hdr pkt of
        Some h \<Rightarrow> Some (h\<lparr>hdr_data := None\<rparr>)
      | None \<Rightarrow>
          if malloc_ok pf (sizeof_hdr_buf_t pf) then Some \<lparr>hdr_data = None, hdr_size = 0\<rparr>
          else None)"

definition divx311_chunk_prefix :: "byte list" where
  "divx311_chunk_prefix =
     [0x00, 0x00, 0x00, 0x01, 0xb6, 0x44, 0x49, 0x56, 0x58, 0x33, 0x2e, 0x31, 0x31]"

text \<open>The four bytes of an \<open>int\<close>, most significant first.\<close>

definition int_be_bytes :: "int \<Rightarrow> byte list" where
  "int_be_bytes x =
     (let w = (word_of_int x :: 32 word)
      in [ucast (drop_bit 24 w AND 0xff), ucast (drop_bit 16 w AND 0xff),
          ucast (drop_bit 8 w AND 0xff), ucast (w AND 0xff)])"

definition divx3_prefix :: "platform \<Rightarrow> am_packet_t \<Rightarrow> int \<times> am_packet_t" where
  "divx3_prefix pf pkt =
     (case renew_pkt_hdr pf pkt of
        None \<Rightarrow> (PLAYER_FAILED, pkt)
      | Some h \<Rightarrow>
          (case malloc_block pf 17 of
             None \<Rightarrow> (PLAYER_FAILED, pkt\<lparr>hdr := Some h\<rparr>)
           | Some _ \<Rightarrow>
               (PLAYER_SUCCESS,
                pkt\<lparr>hdr := Some (h\<lparr>hdr_data :=
                                       Some (divx311_chunk_prefix @ int_be_bytes (data_size pkt)),
                                   hdr_size := 17\<rparr>),
                    newflag := 1\<rparr>)))"

text \<open>The 22 bytes of the WMV3 frame header, with the checksum of its bytes 4..15.\<close>

definition wmv3_frame_bytes :: "platform \<Rightarrow> int \<Rightarrow> byte list" where
  "wmv3_frame_bytes pf dsize =
     (let w = (word_of_int dsize :: 32 word);
          b4_15 = [0, ucast (drop_bit 16 w AND 0xff), 0x88,
                   ucast (drop_bit 8 w AND 0xff), ucast (w AND 0xff), 0x88,
                   0xff, 0xff, 0x88, 0xff, 0xff, 0x88 :: byte];
          check_sum = foldl (\<lambda>s c. s + char_to_unsigned pf c) (0 :: 32 word) b4_15
      in [0, 0, 1, 0xd] @ b4_15
         @ [ucast (drop_bit 8 check_sum AND 0xff), ucast (check_sum AND 0xff), 0x88,
            ucast (drop_bit 8 check_sum AND 0xff), ucast (check_sum AND 0xff), 0x88])"

definition wmv3_frame_header :: "platform \<Rightarrow> am_private_t \<Rightarrow> am_packet_t
    \<Rightarrow> (int \<times> am_packet_t) option" where
  "wmv3_frame_header pf para pkt =
     (case renew_pkt_hdr pf pkt of
        None \<Rightarrow> Some (PLAYER_FAILED, pkt)
      | Some h \<Rightarrow>
          if avpkt_flags pkt \<noteq> 0 then
            (if extrasize para + 48 < 0 then Some (PLAYER_FAILED, pkt\<lparr>hdr := Some h\<rparr>)
             else
               (case malloc_block pf (nat (extrasize para + 48)) of
                  None \<Rightarrow> Some (PLAYER_FAILED, pkt\<lparr>hdr := Some h\<rparr>)
                | Some d \<Rightarrow>
                    (case memcpy_at d 0 (wmv3_fixed_bytes pf para) of
                       None \<Rightarrow> None
                     | Some d1 \<Rightarrow>
                         (case memcpy_at d1 26 (extradata para) of
                            None \<Rightarrow> None
                          | Some d2 \<Rightarrow>
                              (case store_at d2 (extrasize para + 26)
                                      (wmv3_frame_bytes pf (data_size pkt)) of
                                 None \<Rightarrow> None
                               | Some d3 \<Rightarrow>
                                   Some (PLAYER_SUCCESS,
                                     pkt\<lparr>hdr := Some (h\<lparr>hdr_data := Some d3,
                                                        hdr_size := extrasize para + 26 + 22\<rparr>),
                                         newflag := 1\<rparr>))))))
          else
            (case malloc_block pf 22 of
               None \<Rightarrow> Some (PLAYER_FAILED, pkt\<lparr>hdr := Some h\<rparr>)
             | Some _ \<Rightarrow>
                 Some (PLAYER_SUCCESS,
                   pkt\<lparr>hdr := Some (h\<lparr>hdr_data := Some (wmv3_frame_bytes pf (data_size pkt)),
                                      hdr_size := 22\<rparr>),
                       newflag := 1\<rparr>)))"

definition wvc1_prefix :: "platform \<Rightarrow> am_packet_t \<Rightarrow> int \<times> am_packet_t" where
  "wvc1_prefix pf pkt =
     (case renew_pkt_hdr pf pkt of
        None \<Rightarrow> (PLAYER_FAILED, pkt)
      | Some h \<Rightarrow>
          (case malloc_block pf 4 of
             None \<Rightarrow> (PLAYER_FAILED, pkt\<lparr>hdr := Some h\<rparr>)
           | Some _ \<Rightarrow>
               (PLAYER_SUCCESS,
                pkt\<lparr>hdr := Some (h\<lparr>hdr_data := Some [0, 0, 1, 0xd], hdr_size := 4\<rparr>),
                    newflag := 1\<rparr>)))"

definition mpeg12_add_frame_dec_info :: "platform \<Rightarrow> am_packet_t \<Rightarrow> (int \<times> am_packet_t) option" where
  "mpeg12_add_frame_dec_info pf pkt =
     (let pkt1 = pkt\<lparr>avpkt_data := data pkt, avpkt_size := data_size pkt\<rparr>
      in case av_grow_packet pf (avpkt_data pkt1) (avpkt_size pkt1) 4 of
           None \<Rightarrow> None
         | Some (ret, d, sz) \<Rightarrow>
             if ret < 0 then Some (ret, pkt1)
             else
               (case d of
                  None \<Rightarrow> None
                | Some grown \<Rightarrow>
                    (case store_at grown (sz - 4) [0x00, 0x00, 0x01, 0x00] of
                       None \<Rightarrow> None
                     | Some b \<Rightarrow>
                         Some (PLAYER_SUCCESS,
                           pkt1\<lparr>avpkt_data := Some b, avpkt_size := sz,
                                data := Some b, data_size := sz\<rparr>))))"

text \<open>
  \<open>set_header_info\<close>; the packet is \<open>para->am_pkt\<close>. The codes of the three repackagers are
  not looked at.
\<close>

definition set_header_info :: "platform \<Rightarrow> aom_lib \<Rightarrow> am_private_t \<Rightarrow> (int \<times> am_private_t) option" where
  "set_header_info pf lib para =
     (let pkt = am_pkt para
      in if video_format para = VFORMAT_MPEG4 then
           (if video_codec_type para = VIDEO_DEC_FORMAT_MPEG4_3 then
              (case divx3_prefix pf pkt of (ret, pkt') \<Rightarrow> Some (ret, para\<lparr>am_pkt := pkt'\<rparr>))
            else if video_codec_type para = VIDEO_DEC_FORMAT_H263 then
              Some (PLAYER_UNSUPPORT, para)
            else Some (PLAYER_SUCCESS, para))
         else if video_format para = VFORMAT_VC1 then
           (if video_codec_type para = VIDEO_DEC_FORMAT_WMV3 then
              (case wmv3_frame_header pf para pkt of
                 None \<Rightarrow> None
               | Some (ret, pkt') \<Rightarrow>
                   Some (if ret = PLAYER_FAILED then PLAYER_FAILED else PLAYER_SUCCESS,
                         para\<lparr>am_pkt := pkt'\<rparr>))
            else if video_codec_type para = VIDEO_DEC_FORMAT_WVC1 then
              (case wvc1_prefix pf pkt of
                 (ret, pkt') \<Rightarrow>
                   Some (if ret = PLAYER_FAILED then PLAYER_FAILED else PLAYER_SUCCESS,
                         para\<lparr>am_pkt := pkt'\<rparr>))
            else Some (PLAYER_SUCCESS, para))
         else if video_format para = VFORMAT_VP9 then
           (case vp9_update_frame_header pf pkt of
              None \<Rightarrow> None
            | Some (_, pkt') \<Rightarrow> Some (PLAYER_SUCCESS, para\<lparr>am_pkt := pkt'\<rparr>))
         else if vcodec_dec_mode para = STREAM_TYPE_FRAME \<and> video_format para = VFORMAT_AV1 then
           (case av1_add_frame_dec_info pf lib pkt of
              None \<Rightarrow> None
            | Some (_, pkt') \<Rightarrow> Some (PLAYER_SUCCESS, para\<lparr>am_pkt := pkt'\<rparr>))
         else if vcodec_dec_mode para = STREAM_TYPE_FRAME \<and> video_format para = VFORMAT_MPEG12 then
           (case mpeg12_add_frame_dec_info pf pkt of
              None \<Rightarrow> None
            | Some (_, pkt') \<Rightarrow> Some (PLAYER_SUCCESS, para\<lparr>am_pkt := pkt'\<rparr>))
         else Some (PLAYER_SUCCESS, para))"

subsection \<open>Reset\<close>

text \<open>
  \<open>CAMLCodec::Reset\<close>: the decoder is reset, the packet is released and initialised again,
  the header is fed again and the timestamps and the prebuffer latch are cleared. The
  last \<open>SetSpeed(m_speed)\<close> changes nothing, since the speed is the current one.
\<close>

definition Reset :: "platform \<Rightarrow> CAMLCodec \<Rightarrow> device \<Rightarrow> (CAMLCodec \<times> device) option" where
  "Reset pf s dev =
     (if \<not> m_opened s then Some (s, dev)
      else
        (case pre_header_feeding pf (am_private s) (am_packet_init\<lparr>codec := True\<rparr>)
                (dev\<lparr>resets := resets dev + 1\<rparr>) of
           None \<Rightarrow> None
         | Some (_, para, pkt, dev') \<Rightarrow>
             Some (s\<lparr>am_private := para\<lparr>am_pkt := pkt\<rparr>,
                     m_cur_pts := DVD_NOPTS_VALUE pf, m_last_pts := DVD_NOPTS_VALUE pf,
                     m_state := 0, m_buffer_level_ready := False\<rparr>, dev')))"

subsection \<open>The buffer level and AddData\<close>

definition calc_chunk_size :: "int \<Rightarrow> int" where
  "calc_chunk_size sz =
     (let need_padding_size =
        (if sz < 4096 then 64 + (4096 - ((sz + 64) AND (4096 - 1)))
         else if sz AND 0x3f \<noteq> 0 then 64 + (64 - (sz AND 0x3f))
         else 64)
      in sz + need_padding_size)"

text \<open>\<open>GetBufferLevel(new_chunk, data_len, free_len)\<close>: the level and the two outputs.\<close>

definition GetBufferLevel :: "platform \<Rightarrow> device \<Rightarrow> int \<Rightarrow> real \<times> int \<times> int" where
  "GetBufferLevel pf dev new_chunk =
     (let bs = vbuf_state dev;
          level =
            (if bs_free_len bs > 0 then
               (if bs_size bs \<noteq> 0
                then to_float pf (to_float pf (100 / to_float pf (real_of_int (bs_size bs)))
                                   * to_float pf (real_of_int (i32 (bs_data_len bs + new_chunk))))
                else 0)
             else 100)
      in (level, bs_data_len bs, bs_free_len bs))"

text \<open>
  The start of \<open>AddData\<close>: the prebuffer latch and the test that rejects the data. The
  result is whether the data are rejected, with the session.
\<close>

definition AddData_gate :: "platform \<Rightarrow> CAMLCodec \<Rightarrow> device \<Rightarrow> byte list option \<Rightarrow> nat
    \<Rightarrow> bool \<times> CAMLCodec" where
  "AddData_gate pf s dev pData iSize =
     (case GetBufferLevel pf dev (calc_chunk_size (i32 (int iSize))) of
        (new_buffer_level, data_len, free_len) \<Rightarrow>
          (let streambuffer = (gcodec_dec_mode (am_private s) = STREAM_TYPE_STREAM);
               s1 = (if \<not> m_buffer_level_ready s
                     then s\<lparr>m_buffer_level_ready :=
                              (if streambuffer then new_buffer_level > 90
                               else new_buffer_level > 5),
                            m_minimum_buffer_level := (if streambuffer then 10 else 5)\<rparr>
                     else s)
           in (\<not> m_opened s1 \<or> pData = None \<or> free_len = 0 \<or> new_buffer_level \<ge> 100, s1)))"

text \<open>
  The packet is filled: the pending extradata of \<open>hdr_buf\<close> go in front of the data. The
  result is \<open>Inl\<close> with the code where \<open>AddData\<close> returns that code at once (a failed
  \<open>av_grow_packet\<close>).
\<close>

definition AddData_data :: "platform \<Rightarrow> am_private_t \<Rightarrow> byte list option \<Rightarrow> nat
    \<Rightarrow> (int \<times> am_private_t + am_private_t) option" where
  "AddData_data pf para pData iSize =
     (if hdr_size (hdr_buf para) > 0 then
        (let pkt = (am_pkt para)\<lparr>data := pData, data_size := i32 (int iSize),
                                 avpkt_data := pData, avpkt_size := i32 (int iSize)\<rparr>
         in case av_grow_packet pf (avpkt_data pkt) (avpkt_size pkt) (hdr_size (hdr_buf para)) of
              None \<Rightarrow> None
            | Some (ret, d, sz) \<Rightarrow>
                if ret < 0 then Some (Inl (ret, para\<lparr>am_pkt := pkt\<rparr>))
                else
                  (case (d, hdr_data (hdr_buf para)) of
                     (Some grown, Some hbytes) \<Rightarrow>
                       (case memmove_at grown (hdr_size (hdr_buf para)) 0 (int iSize) of
                          None \<Rightarrow> None
                        | Some b1 \<Rightarrow>
                            if int (length hbytes) < hdr_size (hdr_buf para) then None
                            else
                              (case memcpy_at b1 0 (take (nat (hdr_size (hdr_buf para))) hbytes) of
                                 None \<Rightarrow> None
                               | Some b2 \<Rightarrow>
                                   Some (Inr (para\<lparr>am_pkt := pkt\<lparr>avpkt_data := Some b2,
                                                                 avpkt_size := sz,
                                                                 data := Some b2,
                                                                 data_size := sz\<rparr>,
                                                  hdr_buf := \<lparr>hdr_data = None, hdr_size = 0\<rparr>\<rparr>))))
                   | _ \<Rightarrow> None))
      else Some (Inr (para\<lparr>am_pkt := (am_pkt para)\<lparr>data := pData,
                                                    data_size := i32 (int iSize)\<rparr>\<rparr>)))"

definition AddData_pts :: "platform \<Rightarrow> CAMLCodec \<Rightarrow> real \<Rightarrow> real \<Rightarrow> CAMLCodec" where
  "AddData_pts pf s dts pts =
     (let nopts = to_double pf (real (unat (DVD_NOPTS_VALUE pf)));
          para = am_private s;
          pkt0 = (am_pkt para)\<lparr>newflag := 1, isvalid := 1, avduration := 0\<rparr>;
          no_pts = (m_hints_ptsinvalid s \<or> pts = nopts);
          pkt1 = (if no_pts then pkt0\<lparr>avpts := UINT64_0\<rparr>
                  else pkt0\<lparr>avpts := double_to_uint64 pf pts\<rparr>);
          st1 = (if no_pts then m_state s else m_state s OR STATE_HASPTS pf);
          pkt2 = (if dts = nopts then pkt1\<lparr>avdts := avpts pkt1\<rparr>
                  else
                    (let p = pkt1\<lparr>avdts := double_to_uint64 pf dts\<rparr>
                     in if avpts p = UINT64_0 \<and> gcodec_param_keyframe_pts_only para
                        then p\<lparr>avpts := avdts p\<rparr> else p));
          pkt3 = (if m_cur_pts s = DVD_NOPTS_VALUE pf \<and> st1 AND STATE_HASPTS pf = 0
                  then pkt2\<lparr>avpts := avdts pkt2\<rparr> else pkt2)
      in s\<lparr>am_private := para\<lparr>am_pkt := pkt3\<rparr>, m_state := st1\<rparr>)"

text \<open>
  The loop of \<open>AddData\<close>, from the value \<open>loop\<close> of its counter. The result holds the
  counter at the exit and the code of the last call of \<open>write_av_packet\<close> (\<open>ret\<close> when
  there was none).
\<close>

function feed_loop :: "am_private_t \<Rightarrow> am_packet_t \<Rightarrow> device \<Rightarrow> nat \<Rightarrow> int
    \<Rightarrow> (nat \<times> int \<times> am_packet_t \<times> device) option" where
  "feed_loop para pkt dev loop ret =
     (if isvalid pkt \<noteq> 0 \<and> loop < 100 then
        (case write_av_packet para pkt dev of
           None \<Rightarrow> None
         | Some (r, pkt', dev') \<Rightarrow>
             if r \<noteq> PLAYER_SUCCESS then Some (loop, r, pkt', dev')
             else feed_loop para pkt' dev' (loop + 1) r)
      else Some (loop, ret, pkt, dev))"
  by pat_completeness auto
termination
  by (relation "measure (\<lambda>(para, pkt, dev, loop, ret). 100 - loop)") auto

declare feed_loop.simps [simp del]

text \<open>
  \<open>AddData\<close> between the gate and the loop: \<open>Inl\<close> with the code where the function
  returns that code at once, \<open>Inr\<close> with the session whose packet is ready to be written.
\<close>

definition AddData_packet :: "platform \<Rightarrow> aom_lib \<Rightarrow> CAMLCodec \<Rightarrow> byte list option \<Rightarrow> nat
    \<Rightarrow> real \<Rightarrow> real \<Rightarrow> (int \<times> CAMLCodec + CAMLCodec) option" where
  "AddData_packet pf lib s pData iSize dts pts =
     (case AddData_data pf (am_private s) pData iSize of
        None \<Rightarrow> None
      | Some (Inl (ret, para)) \<Rightarrow> Some (Inl (ret, s\<lparr>am_private := para\<rparr>))
      | Some (Inr para) \<Rightarrow>
          (let s2 = AddData_pts pf (s\<lparr>am_private := para\<rparr>) dts pts
           in case set_header_info pf lib (am_private s2) of
                None \<Rightarrow> None
              | Some (_, para3) \<Rightarrow> Some (Inr (s2\<lparr>am_private := para3\<rparr>))))"

text \<open>The session after the loop, with the packet as the loop left it.\<close>

definition fed :: "CAMLCodec \<Rightarrow> am_packet_t \<Rightarrow> CAMLCodec" where
  "fed s pkt = s\<lparr>am_private := (am_private s)\<lparr>am_pkt := pkt\<rparr>\<rparr>"

definition AddData :: "platform \<Rightarrow> aom_lib \<Rightarrow> CAMLCodec \<Rightarrow> device \<Rightarrow> byte list option \<Rightarrow> nat
    \<Rightarrow> real \<Rightarrow> real \<Rightarrow> (bool \<times> CAMLCodec \<times> device) option" where
  "AddData pf lib s dev pData iSize dts pts =
     (case AddData_gate pf s dev pData iSize of
        (rejected, s1) \<Rightarrow>
          if rejected then Some (False, s1, dev)
          else
            (case AddData_packet pf lib s1 pData iSize dts pts of
               None \<Rightarrow> None
             | Some (Inl (ret, s')) \<Rightarrow> Some (ret \<noteq> 0, s', dev)
             | Some (Inr s2) \<Rightarrow>
                 (case feed_loop (am_private s2) (am_pkt (am_private s2)) dev 0 PLAYER_SUCCESS of
                    None \<Rightarrow> None
                  | Some (loop, _, pkt, dev') \<Rightarrow>
                      if loop = 100 then
                        (case Reset pf (fed s2 pkt) dev' of
                           None \<Rightarrow> None
                         | Some (s4, dev'') \<Rightarrow> Some (False, s4, dev''))
                      else Some (True, fed s2 pkt, dev'))))"

subsection \<open>Dequeuing pictures\<close>

datatype VCReturn = VC_ERROR | VC_PICTURE | VC_EOF | VC_NONE | VC_FLUSHED | VC_BUFFER

record VideoPicture =
  iFlags :: int
  iDuration :: real
  pic_dts :: real
  pic_pts :: real







text \<open>
  What \<open>OpenDecoder\<close> assigns, when it succeeds, to the members above that do not come
  from the stream hints.
\<close>

definition OpenDecoder_members :: "platform \<Rightarrow> CAMLCodec \<Rightarrow> CAMLCodec" where
  "OpenDecoder_members pf s =
     s\<lparr>m_drain := False, m_cur_pts := DVD_NOPTS_VALUE pf, m_state := 0,
       m_buffer_level_ready := False, m_opened := True\<rparr>"

text \<open>
  The end of \<open>OpenDecoder\<close>, from the statement that sets \<open>am_pkt.codec\<close>: the extradata
  kept in \<open>hdr_buf\<close> are dropped and \<open>pre_header_feeding\<close> is called, whose code is not
  looked at. The packet is still as \<open>am_packet_init\<close> left it at the start of the function.
\<close>

definition OpenDecoder_feed :: "platform \<Rightarrow> CAMLCodec \<Rightarrow> device \<Rightarrow> (CAMLCodec \<times> device) option" where
  "OpenDecoder_feed pf s dev =
     (let para = (am_private s)\<lparr>am_pkt := (am_pkt (am_private s))\<lparr>codec := True\<rparr>,
                                hdr_buf := \<lparr>hdr_data = None, hdr_size = 0\<rparr>\<rparr>
      in case pre_header_feeding pf para (am_pkt para) dev of
           None \<Rightarrow> None
         | Some (_, para', pkt', dev') \<Rightarrow>
             Some (OpenDecoder_members pf (s\<lparr>am_private := para'\<lparr>am_pkt := pkt'\<rparr>\<rparr>), dev'))"


subsection \<open>Example sessions\<close>

text \<open>
  An open session on an elementary stream that needs no header, and a device with an
  8 MB buffer that holds \<open>used\<close> bytes and answers the writes with \<open>rs\<close> and the dequeues
  with \<open>dq\<close>, and has taken no byte yet.
\<close>

definition example_session :: CAMLCodec where
  "example_session =
     \<lparr>am_private = example_para, m_opened = True, m_drain = False,
      m_cur_pts = 0xFFF0000000000000, m_last_pts = 0xFFF0000000000000, m_bufferIndex = 0,
      m_state = 0, m_buffer_level_ready = False, m_minimum_buffer_level = 0,
      m_hints_ptsinvalid = False, m_hints_aspect = 0\<rparr>"


definition example_device :: "int \<Rightarrow> (int \<times> int) list \<Rightarrow> dqbuf list \<Rightarrow> device" where
  "example_device used rs dq =
     \<lparr>wr_script = rs, written = [], checkin_pts = (\<lambda>_. 0),
      vbuf_state = \<lparr>bs_size = 8388608, bs_data_len = used, bs_free_len = 8388608 - used\<rparr>,
      dq_script = dq, vdec_ratio_control = 0, resets = 0\<rparr>"

text \<open>What a caller sees of \<open>AddData\<close>: the result and the number of decoder resets.\<close>

definition observed :: "(bool \<times> CAMLCodec \<times> device) option \<Rightarrow> (bool \<times> nat) option" where
  "observed r = map_option (\<lambda>(ok, s, dev). (ok, resets dev)) r"


text \<open>The last dequeued timestamp after a call of \<open>GetPicture\<close>.\<close>

definition timestamp_after :: "(VCReturn \<times> VideoPicture option \<times> CAMLCodec \<times> device) option
    \<Rightarrow> 64 word option" where
  "timestamp_after r = map_option (\<lambda>(_, _, s, _). m_cur_pts s) r"

text \<open>
  The example session as \<open>AddData\<close> has it before its loop, when it is given the four
  bytes 1, 2, 3, 4 with the timestamps 0.
\<close>

definition example_packet_session :: CAMLCodec where
  "example_packet_session =
     example_session
       \<lparr>am_private := example_para
          \<lparr>am_pkt := am_packet_init\<lparr>data := Some [1, 2, 3, 4], data_size := 4,
                                    newflag := 1, isvalid := 1\<rparr>\<rparr>,
        m_state := 1, m_minimum_buffer_level := 5\<rparr>"

text \<open>
  \<open>mjpeg_session s\<close>: an elementary stream of MJPEG pictures whose codec tag selects no
  other header. \<open>headers_done s\<close>: the session is open, the packet has no header and no
  extradata wait in \<open>hdr_buf\<close>.
\<close>

definition mjpeg_session :: "CAMLCodec \<Rightarrow> bool" where
  "mjpeg_session s \<longleftrightarrow>
     stream_type (am_private s) = AM_STREAM_ES \<and> video_format (am_private s) = VFORMAT_MJPEG
     \<and> video_codec_tag (am_private s) = CODEC_TAG_OTHER"

definition headers_done :: "CAMLCodec \<Rightarrow> bool" where
  "headers_done s \<longleftrightarrow>
     m_opened s \<and> hdr (am_pkt (am_private s)) = None \<and> hdr_size (hdr_buf (am_private s)) = 0"

text \<open>The example session on an MJPEG stream, as \<open>OpenDecoder\<close> has it before its end.\<close>

definition example_mjpeg_session :: CAMLCodec where
  "example_mjpeg_session =
     example_session\<lparr>am_private := example_para\<lparr>video_format := VFORMAT_MJPEG\<rparr>,
                      m_opened := False\<rparr>"

text \<open>The same session after the end of \<open>OpenDecoder\<close>.\<close>

definition example_mjpeg_opened :: CAMLCodec where
  "example_mjpeg_opened =
     example_session
       \<lparr>am_private := example_para\<lparr>video_format := VFORMAT_MJPEG,
                                    am_pkt := am_packet_init\<lparr>codec := True\<rparr>\<rparr>\<rparr>"


section \<open>Bytes and buffers\<close>

lemma unat_lo: "unat (ucast ((w::32 word) AND 0xff) :: byte) = unat w mod 256"
proof -
  have "(w AND 0xff) = take_bit 8 w" 
    by (simp add: take_bit_eq_mask mask_eq_exp_minus_1)
  then show ?thesis
    by (simp add: unsigned_ucast_eq unsigned_take_bit_eq take_bit_eq_mod unat_mod)
qed

lemma unat_hi: "unat (ucast (drop_bit 8 (w::32 word) AND 0xff) :: byte) = (unat w div 256) mod 256"
  using unat_lo[of "drop_bit 8 w"] by (simp add: unat_drop_bit_eq drop_bit_eq_div unat_div)

lemma split16: "((n::nat) div 256) mod 256 * 256 + n mod 256 = n mod 65536"
proof -
  have "n mod (256 * 256) = 256 * (n div 256 mod 256) + n mod 256"
    by (rule mod_mult2_eq)
  then show ?thesis by simp
qed

lemma be16_split: "be16 (ucast (drop_bit 8 (w::32 word) AND 0xff)) (ucast (w AND 0xff)) = unat w mod 65536"
proof -
  have "be16 (ucast (drop_bit 8 w AND 0xff)) (ucast (w AND 0xff))
          = (unat w div 256) mod 256 * 256 + unat w mod 256"
    unfolding be16_def by (simp only: unat_hi [of w] unat_lo [of w])
  then show ?thesis by (simp only: split16)
qed

lemma unat_byte_le: "unat (b::byte) \<le> 255"
proof -
  have "unat b < 2 ^ 8"
    using unsigned_less [of b, where 'a = nat] by simp
  then show ?thesis by simp
qed

lemma unat_ucast_byte: "unat (ucast (b::byte) :: 32 word) = unat b"
proof -
  have "unat b < 2 ^ 32" using unat_byte_le [of b] by simp
  then show ?thesis
    by (simp add: unsigned_ucast_eq take_bit_nat_eq_self)
qed

lemma checksum_unat:
  "unat s0 + 255 * length bs < 2 ^ 32 \<Longrightarrow>
   unat (foldl (\<lambda>s c. s + (ucast (c::byte) :: 32 word)) s0 bs) = unat s0 + sum_list (map unat bs)"
proof (induction bs arbitrary: s0)
  case Nil
  then show ?case by simp
next
  case (Cons b bs)
  note b = unat_byte_le [of b] and u = unat_ucast_byte [of b]
  have "unat s0 + unat (ucast b :: 32 word) < 2 ^ 32"
    using Cons.prems b u by simp
  then have s: "unat (s0 + ucast b) = unat s0 + unat b"
    using u unat_add_lem [of s0 "ucast b"] by simp
  have "unat (s0 + ucast b) + 255 * length bs < 2 ^ 32"
    using Cons.prems b s by simp
  from Cons.IH [OF this] show ?case
    using s by simp
qed

lemma length_mjpeg_addon_data: "length mjpeg_addon_data = 422"
  by (simp add: mjpeg_addon_data_def)

lemma memcpy_at_0: "length src \<le> length dst \<Longrightarrow> memcpy_at dst 0 src = Some (src @ drop (length src) dst)"
  by (simp add: memcpy_at_def)

lemma memcpy_at_end:
  "length a + length src \<le> length (a @ r) \<Longrightarrow>
   memcpy_at (a @ r) (length a) src = Some (a @ src @ drop (length src) r)"
  by (simp add: memcpy_at_def)

lemma length_wmv3_fixed_bytes: "length (wmv3_fixed_bytes pf para) = 26"
  by (simp add: wmv3_fixed_bytes_def Let_def)

lemma wmv3_fill_header_bytes:
  assumes "hdr pkt = Some h" and "hdr_data h = Some d"
      and "extrasize para = int (length (extradata para))"
      and "26 + length (extradata para) \<le> length d"
  shows "\<exists>pkt'. wmv3_fill_header pf para pkt = Some pkt'
           \<and> header_bytes pkt' = Some (wmv3_fixed_bytes pf para @ extradata para)"
proof -
  let ?F = "wmv3_fixed_bytes pf para"
  have 1: "memcpy_at d 0 ?F = Some (?F @ drop 26 d)"
    using assms(4) by (simp add: memcpy_at_0 length_wmv3_fixed_bytes)
  have 2: "memcpy_at (?F @ drop 26 d) 26 (extradata para)
             = Some (?F @ extradata para @ drop (length (extradata para)) (drop 26 d))"
    using assms(4) memcpy_at_end [of ?F "extradata para" "drop 26 d"]
    by (simp add: length_wmv3_fixed_bytes)
  show ?thesis
    using assms by (simp add: wmv3_fill_header_def 1 2 header_bytes_def length_wmv3_fixed_bytes)
qed

section \<open>The WMV3 sequence header\<close>

text \<open>
  C8 (amended). On a platform whose plain \<open>char\<close> is unsigned, with \<open>extrasize\<close> holding
  the number \<open>N\<close> of extradata bytes and a header buffer of at least \<open>26 + N\<close> bytes, the
  header that \<open>wmv3_write_header\<close> leaves for the device has \<open>26 + N\<close> bytes (not
  \<open>22 + N\<close>): the start code 00 00 01 10, twelve bytes, their additive sum modulo 65536
  stored twice as two big-endian bytes, each copy followed by 0x88, the 16-bit big-endian
  width and height, and the extradata.
\<close>


theorem wmv3_header_layout:
  assumes "\<not> char_is_signed pf"
      and "hdr pkt = Some h" and "hdr_data h = Some d"
      and "extrasize para = int (length (extradata para))"
      and "26 + length (extradata para) \<le> length d"
  shows "\<exists>pkt' hb. wmv3_fill_header pf para pkt = Some pkt' \<and> header_bytes pkt' = Some hb
           \<and> length hb = 26 + length (extradata para)
           \<and> take 4 hb = [0, 0, 1, 0x10]
           \<and> be16 (hb ! 16) (hb ! 17) = sum_list (map unat (take 12 (drop 4 hb))) mod 65536
           \<and> hb ! 18 = 0x88
           \<and> be16 (hb ! 19) (hb ! 20) = sum_list (map unat (take 12 (drop 4 hb))) mod 65536
           \<and> hb ! 21 = 0x88
           \<and> be16 (hb ! 22) (hb ! 23) = unat (video_width para) mod 65536
           \<and> be16 (hb ! 24) (hb ! 25) = unat (video_height para) mod 65536
           \<and> drop 26 hb = extradata para"
proof -
  let ?F = "wmv3_fixed_bytes pf para"
  let ?hb = "?F @ extradata para"
  obtain pkt' where fill: "wmv3_fill_header pf para pkt = Some pkt'"
      and hb: "header_bytes pkt' = Some ?hb"
    using wmv3_fill_header_bytes [OF assms(2-5)] by blast
  define data_len where "data_len = (word_of_int (extrasize para + 4) :: 32 word)"
  define b4_15 where "b4_15 = [0, ucast (drop_bit 16 data_len AND 0xff), 0x88,
                   ucast (drop_bit 8 data_len AND 0xff), ucast (data_len AND 0xff), 0x88,
                   0xff, 0xff, 0x88, 0xff, 0xff, 0x88 :: byte]"
  define check_sum where "check_sum = foldl (\<lambda>s c. s + (ucast c :: 32 word)) (0 :: 32 word) b4_15"
  have F: "?F = [0, 0, 1, 0x10] @ b4_15
             @ [ucast (drop_bit 8 check_sum AND 0xff), ucast (check_sum AND 0xff), 0x88,
                ucast (drop_bit 8 check_sum AND 0xff), ucast (check_sum AND 0xff), 0x88]
             @ [ucast (drop_bit 8 (video_width para) AND 0xff),
                ucast (video_width para AND 0xff),
                ucast (drop_bit 8 (video_height para) AND 0xff),
                ucast (video_height para AND 0xff)]"
    using assms(1)
    by (simp add: wmv3_fixed_bytes_def Let_def char_to_unsigned_def data_len_def b4_15_def check_sum_def)
  have len12: "length b4_15 = 12" by (simp add: b4_15_def)
  have "unat (0 :: 32 word) + 255 * length b4_15 < 2 ^ 32" by (simp add: len12)
  from checksum_unat [OF this]
  have cs: "unat check_sum = sum_list (map unat b4_15)" by (simp add: check_sum_def)
  have mid: "take 12 (drop 4 ?hb) = b4_15" by (simp add: F len12)
  have i16: "?hb ! 16 = ucast (drop_bit 8 check_sum AND 0xff)"
    and i17: "?hb ! 17 = ucast (check_sum AND 0xff)"
    and i18: "?hb ! 18 = 0x88"
    and i19: "?hb ! 19 = ucast (drop_bit 8 check_sum AND 0xff)"
    and i20: "?hb ! 20 = ucast (check_sum AND 0xff)"
    and i21: "?hb ! 21 = 0x88"
    and i22: "?hb ! 22 = ucast (drop_bit 8 (video_width para) AND 0xff)"
    and i23: "?hb ! 23 = ucast (video_width para AND 0xff)"
    and i24: "?hb ! 24 = ucast (drop_bit 8 (video_height para) AND 0xff)"
    and i25: "?hb ! 25 = ucast (video_height para AND 0xff)"
    by (simp_all add: F b4_15_def nth_append)
  have "length ?hb = 26 + length (extradata para)"
    by (simp add: length_wmv3_fixed_bytes)
  moreover have "take 4 ?hb = [0, 0, 1, 0x10]" by (simp add: F)
  moreover have "be16 (?hb ! 16) (?hb ! 17) = sum_list (map unat (take 12 (drop 4 ?hb))) mod 65536"
    by (simp only: i16 i17 be16_split cs mid)
  moreover have "be16 (?hb ! 19) (?hb ! 20) = sum_list (map unat (take 12 (drop 4 ?hb))) mod 65536"
    by (simp only: i19 i20 be16_split cs mid)
  moreover have "be16 (?hb ! 22) (?hb ! 23) = unat (video_width para) mod 65536"
    by (simp only: i22 i23 be16_split)
  moreover have "be16 (?hb ! 24) (?hb ! 25) = unat (video_height para) mod 65536"
    by (simp only: i24 i25 be16_split)
  moreover have "drop 26 ?hb = extradata para"
    by (simp add: length_wmv3_fixed_bytes)
  ultimately show ?thesis
    using fill hb i18 i21 by blast
qed

theorem wmv3_header_layout_witness:
  "\<not> char_is_signed example_platform
   \<and> hdr example_hdr_packet = Some \<lparr>hdr_data = Some (replicate 1024 0), hdr_size = 0\<rparr>
   \<and> extrasize example_wmv3_para = int (length (extradata example_wmv3_para))
   \<and> 26 + length (extradata example_wmv3_para) \<le> length (replicate 1024 (0 :: byte))
   \<and> (\<exists>pkt' hb. wmv3_fill_header example_platform example_wmv3_para example_hdr_packet = Some pkt'
           \<and> header_bytes pkt' = Some hb
           \<and> length hb = 26 + length (extradata example_wmv3_para)
           \<and> take 4 hb = [0, 0, 1, 0x10]
           \<and> be16 (hb ! 16) (hb ! 17) = sum_list (map unat (take 12 (drop 4 hb))) mod 65536
           \<and> hb ! 18 = 0x88
           \<and> be16 (hb ! 19) (hb ! 20) = sum_list (map unat (take 12 (drop 4 hb))) mod 65536
           \<and> hb ! 21 = 0x88
           \<and> be16 (hb ! 22) (hb ! 23) = unat (video_width example_wmv3_para) mod 65536
           \<and> be16 (hb ! 24) (hb ! 25) = unat (video_height example_wmv3_para) mod 65536
           \<and> drop 26 hb = extradata example_wmv3_para)"
proof -
  have 1: "\<not> char_is_signed example_platform"
    by (simp add: example_platform_def)
  have 2: "hdr example_hdr_packet = Some \<lparr>hdr_data = Some (replicate 1024 0), hdr_size = 0\<rparr>"
    by (simp add: example_hdr_packet_def)
  have 3: "hdr_data \<lparr>hdr_data = Some (replicate 1024 (0 :: byte)), hdr_size = 0\<rparr>
             = Some (replicate 1024 0)"
    by simp
  have 4: "extrasize example_wmv3_para = int (length (extradata example_wmv3_para))"
    by (simp add: example_wmv3_para_def example_para_def)
  have 5: "26 + length (extradata example_wmv3_para) \<le> length (replicate 1024 (0 :: byte))"
    by (simp add: example_wmv3_para_def example_para_def)
  show ?thesis
    by (intro conjI) (rule 1, rule 2, rule 4, rule 5, rule wmv3_header_layout [OF 1 2 3 4 5])
qed

text \<open>
  C8 as stated fails: without extradata (\<open>N = 0\<close>) the header has 26 bytes, not 22.
\<close>

theorem wmv3_header_22_counterexample:
  "Option.bind (wmv3_fill_header example_platform example_para example_hdr_packet) header_bytes
     = Some [0, 0, 1, 0x10, 0, 0, 0x88, 0, 4, 0x88, 0xff, 0xff, 0x88, 0xff, 0xff, 0x88,
             0x06, 0x20, 0x88, 0x06, 0x20, 0x88, 0x07, 0x80, 0x04, 0x38]
   \<and> length [0, 0, 1, 0x10, 0, 0, 0x88, 0, 4, 0x88, 0xff, 0xff, 0x88, 0xff, 0xff, 0x88,
             0x06, 0x20, 0x88, 0x06, 0x20, 0x88, 0x07, 0x80, 0x04, 0x38 :: byte]
       \<noteq> 22 + length (extradata example_para)"
  by (simp add: wmv3_fill_header_def wmv3_fixed_bytes_def Let_def char_to_unsigned_def
      memcpy_at_def header_bytes_def example_platform_def example_para_def
      example_hdr_packet_def am_packet_init_def)

section \<open>VP9 superframes: the rewriting loop\<close>

lemma i32_id: "- (2 ^ 31) \<le> x \<Longrightarrow> x < 2 ^ 31 \<Longrightarrow> i32 x = x"
  by (simp add: i32_def signed_of_int signed_take_bit_int_eq_self)

lemma rd_nth: "0 \<le> i \<Longrightarrow> nat i < length b \<Longrightarrow> rd b i = Some (b ! nat i)"
  by (auto simp: rd_def)

lemma store_at_eq:
  "0 \<le> off \<Longrightarrow> nat off + length src \<le> length b \<Longrightarrow>
   store_at b off src = Some (take (nat off) b @ src @ drop (nat off + length src) b)"
  by (simp add: store_at_def memcpy_at_def)

lemma memmove_at_eq:
  "0 \<le> n \<Longrightarrow> 0 \<le> src \<Longrightarrow> nat src + nat n \<le> length b \<Longrightarrow> 0 \<le> dst \<Longrightarrow>
   nat dst + nat n \<le> length b \<Longrightarrow>
   memmove_at b dst src n
     = Some (take (nat dst) b @ take (nat n) (drop (nat src) b) @ drop (nat dst + nat n) b)"
  by (simp add: memmove_at_def store_at_eq) 

lemma length_vp9_frame_marker: "length (vp9_frame_marker n) = 16"
  by (simp add: vp9_frame_marker_def Let_def)

lemma vp9_put_headers_one:
  assumes "16 \<le> length r"
  shows "vp9_put_headers (Suc 0) [int (length f)] [int (length f)] (f @ r) None
           = Some (vp9_frame_marker (int (length f)) @ f @ drop 16 r)"
proof -
  define t where "t = take 16 (f @ r)"
  have lt: "length t = 16" using assms by (simp add: t_def)
  have mm: "memmove_at (f @ r) 16 0 (int (length f)) = Some (t @ f @ drop 16 r)"
    using assms by (simp add: memmove_at_eq t_def)
  have st: "store_at (t @ f @ drop 16 r) 0 (vp9_frame_marker (int (length f)))
              = Some (vp9_frame_marker (int (length f)) @ f @ drop 16 r)"
    using lt by (simp add: store_at_eq length_vp9_frame_marker)
  show ?thesis
    by (simp add: mm st)
qed

lemma vp9_put_headers_two:
  assumes "32 \<le> length r"
  shows "vp9_put_headers (Suc (Suc 0)) [int (length f1), int (length f2)]
           [int (length f1), int (length f1) + int (length f2)] (f1 @ f2 @ r) None
           = Some (vp9_frame_marker (int (length f1)) @ f1
                   @ vp9_frame_marker (int (length f2)) @ f2 @ drop 32 r)"
proof -
  let ?M1 = "vp9_frame_marker (int (length f1))"
  let ?M2 = "vp9_frame_marker (int (length f2))"
  define t32 where "t32 = take 32 (f2 @ r)"
  define t16 where "t16 = take 16 t32"
  define r' where "r' = drop 32 r"
  define h where "h = take 16 (f1 @ t16)"
  have l32: "length t32 = 32" using assms by (simp add: t32_def)
  have l16: "length t16 = 16" using l32 by (simp add: t16_def)
  have lh: "length h = 16" using l16 by (simp add: h_def)
  have mm1: "memmove_at (f1 @ f2 @ r) (int (length f1) + 32) (int (length f1)) (int (length f2))
               = Some (f1 @ t32 @ f2 @ r')"
    using assms by (simp add: memmove_at_eq nat_add_distrib t32_def r'_def)
  have st1: "store_at (f1 @ t32 @ f2 @ r') (int (length f1) + 16) ?M2
               = Some (f1 @ t16 @ ?M2 @ f2 @ r')"
    using l32 by (simp add: store_at_eq length_vp9_frame_marker nat_add_distrib t16_def)
  have mm2: "memmove_at (f1 @ t16 @ ?M2 @ f2 @ r') 16 0 (int (length f1))
               = Some (h @ f1 @ ?M2 @ f2 @ r')"
    using l16 by (simp add: memmove_at_eq length_vp9_frame_marker h_def)
  have st2: "store_at (h @ f1 @ ?M2 @ f2 @ r') 0 ?M1 = Some (?M1 @ f1 @ ?M2 @ f2 @ r')"
    using lh by (simp add: store_at_eq length_vp9_frame_marker)
  show ?thesis
    unfolding r'_def [symmetric]
    by (simp add: Let_def mm1 st1 mm2 st2 add.commute [of 32] add.commute [of 16])
qed

lemma vp9_parse_single:
  assumes "0 < n" and "n \<le> length d" and "d ! (n - 1) AND 0xe0 \<noteq> 0xc0"
  shows "vp9_parse d (int n) = VP9_FRAMES 1 [int n] [int n] (int n)"
proof -
  have "rd d (int n - 1) = Some (d ! (n - 1))"
    using assms(1,2) by (simp add: rd_def nat_diff_distrib)
  then show ?thesis
    using assms(3) by (simp add: vp9_parse_def)
qed

lemma av_grow_packet_ok:
  assumes "0 < n" and "n \<le> length d" and "0 \<le> g"
      and "int n + g + 64 \<le> INT_MAX" and "malloc_ok pf (nat (int n + g + 64))"
  shows "av_grow_packet pf (Some d) (int n) g
           = Some (0, Some (take n d @ map (fresh pf) [n..<n + nat g] @ replicate 64 0),
                   int n + g)"
  using assms
  by (simp add: av_grow_packet_def AV_INPUT_BUFFER_PADDING_SIZE_def INT_MAX_def nat_add_distrib)

lemma vp9_single_general:
  assumes d: "data pkt = Some d" and n: "data_size pkt = int n" "0 < n" "n \<le> length d"
      and m: "d ! (n - 1) AND 0xe0 \<noteq> 0xc0"
      and sz: "int n + 80 \<le> INT_MAX"
      and al: "malloc_ok pf (n + 80)"
  shows "repackaged (vp9_update_frame_header pf pkt)
           = Some (PLAYER_SUCCESS, vp9_frame_marker (int n) @ take n d, int n + 16)"
proof -
  let ?r = "map (fresh pf) [n..<n + 16] @ replicate 64 (0 :: byte)"
  have parse: "vp9_parse d (int n) = VP9_FRAMES 1 [int n] [int n] (int n)"
    using n(2,3) m by (rule vp9_parse_single)
  have "nat (int n + 16 + 64) = n + 80" by simp
  then have "malloc_ok pf (nat (int n + 16 + 64))"
    using al by (simp only:)
  then have grow: "av_grow_packet pf (Some d) (int n) 16 = Some (0, Some (take n d @ ?r), int n + 16)"
    using av_grow_packet_ok [of n d 16 pf] n(2,3) sz by simp
  have lr: "16 \<le> length ?r" by simp
  have "vp9_put_headers (Suc 0) [int (length (take n d))] [int (length (take n d))]
          (take n d @ ?r) None
          = Some (vp9_frame_marker (int (length (take n d))) @ take n d @ drop 16 ?r)"
    using lr by (rule vp9_put_headers_one)
  then have put: "vp9_put_headers (Suc 0) [int n] [int n] (take n d @ ?r) None
          = Some (vp9_frame_marker (int n) @ take n d @ drop 16 ?r)"
    using n(3) by (simp add: min_absorb2)
  show ?thesis
    using d n(1) n(3)
    by (simp add: vp9_update_frame_header_def Let_def parse grow put repackaged_def
        packet_bytes_def length_vp9_frame_marker PLAYER_SUCCESS_def nat_add_distrib
        del: vp9_put_headers.simps)
qed

lemma uint_byte_less: "uint (x :: byte) < 256"
  using uint_bounded [of x] by simp

lemma i32_small: "0 \<le> x \<Longrightarrow> x < 512 \<Longrightarrow> i32 x = x"
  by (rule i32_id) simp_all

lemma i32_uint_byte: "i32 (uint (x :: byte)) = uint x"
  using uint_byte_less [of x] by (intro i32_small) simp_all

lemma i32_uint_byte2: "i32 (uint (x :: byte) + uint (y :: byte)) = uint x + uint y"
  using uint_byte_less [of x] uint_byte_less [of y] by (intro i32_small) simp_all

lemma vp9_read_size_one:
  assumes "0 \<le> i" and "nat i < length d"
  shows "vp9_read_size d i (Suc 0) = Some (uint (d ! nat i))"
proof -
  show ?thesis
    using assms by (simp add: vp9_read_size_def rd_def i32_uint_byte)
qed

lemma vp9_marker_c1:
  "(0xC1 :: byte) AND 0xe0 = 0xc0" "unat ((0xC1 :: byte) AND 0x7) = 1"
  "unat (drop_bit 3 (0xC1 :: byte) AND 0x3) = 0"
  by simp_all

lemma vp9_parse_two:
  assumes "4 \<le> n" and "n \<le> length d" and "d ! (n - 1) = 0xC1" and "d ! (n - 4) = 0xC1"
  shows "vp9_parse d (int n)
           = VP9_FRAMES (Suc (Suc 0)) [uint (d ! (n - 3)), uint (d ! (n - 2))]
               [uint (d ! (n - 3)), uint (d ! (n - 3)) + uint (d ! (n - 2))]
               (uint (d ! (n - 3)) + uint (d ! (n - 2)))"
proof -
  let ?a = "uint (d ! (n - 3))" and ?b = "uint (d ! (n - 2))"
  have r1: "rd d (int n - 1) = Some 0xC1"
    using assms(1-3) by (simp add: rd_def nat_diff_distrib)
  have r4: "rd d (int n - 4) = Some 0xC1"
    using assms(1,2,4) by (simp add: rd_def nat_diff_distrib)
  have s1: "vp9_read_size d (int n - 3) (Suc 0) = Some ?a"
    using vp9_read_size_one [of "int n - 3" d] assms(1,2) by (simp add: nat_diff_distrib)
  have s2: "vp9_read_size d (int n - 2) (Suc 0) = Some ?b"
    using vp9_read_size_one [of "int n - 2" d] assms(1,2) by (simp add: nat_diff_distrib)
  note ia = i32_uint_byte and iab = i32_uint_byte2
  show ?thesis
    by (simp add: vp9_parse_def r1 r4 vp9_marker_c1 Let_def s1 s2 ia iab)
qed

lemma vp9_two_general:
  assumes d: "data pkt = Some d" and n: "data_size pkt = int n" "4 \<le> n" "n \<le> length d"
      and m: "d ! (n - 1) = 0xC1" "d ! (n - 4) = 0xC1"
      and s: "s1 = unat (d ! (n - 3))" "s2 = unat (d ! (n - 2))"
      and fit: "s1 + s2 \<le> n" "n \<le> s1 + s2 + 32"
      and al: "malloc_ok pf (s1 + s2 + 96)"
  shows "repackaged (vp9_update_frame_header pf pkt)
           = Some (PLAYER_SUCCESS,
                   vp9_frame_marker (int s1) @ take s1 d
                     @ vp9_frame_marker (int s2) @ take s2 (drop s1 d),
                   int (s1 + s2) + 32)"
proof -
  define f1 where "f1 = take s1 d"
  define f2 where "f2 = take s2 (drop s1 d)"
  define g where "g = s1 + s2 + 32 - n"
  define r where "r = take (n - (s1 + s2)) (drop (s1 + s2) d)
                        @ map (fresh pf) [n..<n + g] @ replicate 64 (0 :: byte)"
  have u1: "uint (d ! (n - 3)) = int s1" and u2: "uint (d ! (n - 2)) = int s2"
    by (simp_all add: s)
  have small: "s1 < 256" "s2 < 256"
    using uint_byte_less [of "d ! (n - 3)"] uint_byte_less [of "d ! (n - 2)"] u1 u2 by simp_all
  have l1: "length f1 = s1" and l2: "length f2 = s2"
    using fit(1) n(3) by (simp_all add: f1_def f2_def)
  have split: "take n d = f1 @ f2 @ take (n - (s1 + s2)) (drop (s1 + s2) d)"
  proof -
    have "take n d = take (s1 + (s2 + (n - (s1 + s2)))) d"
      using fit(1) by simp
    then show ?thesis
      by (simp only: take_add f1_def f2_def drop_drop add.commute [of s1 s2])
  qed
  have parse: "vp9_parse d (int n)
                 = VP9_FRAMES (Suc (Suc 0)) [int s1, int s2] [int s1, int s1 + int s2]
                     (int s1 + int s2)"
    using vp9_parse_two [OF n(2,3) m] by (simp only: u1 u2)
  have "int n + int g + 64 \<le> INT_MAX"
    using small fit by (simp add: g_def INT_MAX_def)
  moreover have "nat (int n + int g + 64) = s1 + s2 + 96"
    using fit by (simp add: g_def)
  ultimately have "av_grow_packet pf (Some d) (int n) (int g)
           = Some (0, Some (take n d @ map (fresh pf) [n..<n + nat (int g)] @ replicate 64 0),
                   int n + int g)"
    using n(2,3) al by (intro av_grow_packet_ok) simp_all
  then have grow0: "av_grow_packet pf (Some d) (int n) (int g)
           = Some (0, Some (f1 @ f2 @ r), int n + int g)"
    by (simp add: split r_def)
  have e1: "int g = int s1 + int s2 + 32 - int n"
    using fit by (simp add: g_def)
  have e2: "int n + int g = int s1 + int s2 + 32"
    using fit by (simp add: g_def)
  have grow: "av_grow_packet pf (Some d) (int n) (int s1 + int s2 + 32 - int n)
           = Some (0, Some (f1 @ f2 @ r), int s1 + int s2 + 32)"
    using grow0 unfolding e2 by (simp only: e1)
  have lr: "32 \<le> length r"
    using fit n(3) by (simp add: r_def g_def)
  have put: "vp9_put_headers (Suc (Suc 0)) [int s1, int s2] [int s1, int s1 + int s2]
               (f1 @ f2 @ r) None
             = Some (vp9_frame_marker (int s1) @ f1 @ vp9_frame_marker (int s2) @ f2 @ drop 32 r)"
    using vp9_put_headers_two [OF lr, of f1 f2] by (simp only: l1 l2)
  have tot: "\<not> int n < int s1 + int s2"
    using fit(1) by simp
  show ?thesis
    using d n(1) fit
    by (simp add: vp9_update_frame_header_def Let_def parse grow put repackaged_def tot
        packet_bytes_def length_vp9_frame_marker PLAYER_SUCCESS_def l1 l2
        flip: f1_def f2_def del: vp9_put_headers.simps)
qed

section \<open>VP9 superframes: properties\<close>

text \<open>
  C3 (amended). A packet of \<open>n > 0\<close> bytes whose last byte's top 3 bits are not 110 is
  not passed through: when the allocation succeeds, \<open>vp9_update_frame_header\<close> returns
  success and the packet becomes one 16-byte marker (the length \<open>n + 4\<close> in 4 big-endian
  bytes, their complements, 00 00 00 01 and "AMLV") followed by the \<open>n\<close> input bytes; its
  size is \<open>n + 16\<close>.
\<close>

theorem vp9_single_frame_gets_marker:
  assumes "data pkt = Some d" and "data_size pkt = int n" and "0 < n" and "n \<le> length d"
      and "d ! (n - 1) AND 0xe0 \<noteq> 0xc0"
      and "int n + 80 \<le> INT_MAX"
      and "malloc_ok pf (n + 80)"
  shows "repackaged (vp9_update_frame_header pf pkt)
           = Some (PLAYER_SUCCESS, vp9_frame_marker (int n) @ take n d, int n + 16)"
  using assms by (rule vp9_single_general)

theorem vp9_single_frame_gets_marker_witness:
  "data example_vp9_frame = Some [0] \<and> data_size example_vp9_frame = int 1
   \<and> [0 :: byte] ! (1 - 1) AND 0xe0 \<noteq> 0xc0
   \<and> int 1 + 80 \<le> INT_MAX \<and> malloc_ok example_platform (1 + 80)
   \<and> repackaged (vp9_update_frame_header example_platform example_vp9_frame)
         = Some (PLAYER_SUCCESS, vp9_frame_marker (int 1) @ take 1 [0], int 1 + 16)"
proof -
  have 1: "data example_vp9_frame = Some [0]" and 2: "data_size example_vp9_frame = int 1"
    by (simp_all add: example_vp9_frame_def)
  have 3: "0 < (1 :: nat)" and 4: "1 \<le> length [0 :: byte]" by simp_all
  have 5: "[0 :: byte] ! (1 - 1) AND 0xe0 \<noteq> 0xc0" by simp
  have 6: "int 1 + 80 \<le> INT_MAX" by (simp add: INT_MAX_def)
  have 7: "malloc_ok example_platform (1 + 80)" by (simp add: example_platform_def)
  show ?thesis
    by (intro conjI)
       (rule 1, rule 2, rule 5, rule 6, rule 7,
        rule vp9_single_frame_gets_marker [OF 1 2 3 4 5 6 7])
qed

text \<open>
  C3 as stated fails: the one-byte packet 00, which is no superframe, comes back as 17
  bytes.
\<close>

theorem vp9_passthrough_counterexample:
  "(0 :: byte) AND 0xe0 \<noteq> 0xc0
   \<and> repackaged (vp9_update_frame_header example_platform example_vp9_frame)
       = Some (PLAYER_SUCCESS,
               [0, 0, 0, 5, 0xff, 0xff, 0xff, 0xfa, 0, 0, 0, 1, 0x41, 0x4D, 0x4C, 0x56, 0], 17)
   \<and> repackaged (vp9_update_frame_header example_platform example_vp9_frame)
       \<noteq> Some (PLAYER_SUCCESS, [0], 1)"
proof -
  have "repackaged (vp9_update_frame_header example_platform example_vp9_frame)
          = Some (PLAYER_SUCCESS, vp9_frame_marker (int 1) @ take 1 [0], int 1 + 16)"
    by (rule vp9_single_general [where d = "[0]"])
       (simp_all add: example_vp9_frame_def am_packet_init_def INT_MAX_def example_platform_def)
  then show ?thesis
    by (simp add: vp9_frame_marker_def)
qed

text \<open>
  C4 (amended). A packet of \<open>n\<close> bytes that ends with the index C1, \<open>s1\<close>, \<open>s2\<close>, C1 (two
  frames, one size byte each) with \<open>s1 + s2 \<le> n \<le> s1 + s2 + 32\<close> becomes, when the
  allocation succeeds, the marker of the first frame, the first \<open>s1\<close> bytes, the marker
  of the second frame and the next \<open>s2\<close> bytes: the two sub-frames in their order, each
  behind its 16-byte marker. The index is dropped, so the size is \<open>s1 + s2 + 32\<close>: the
  input size plus 28 (not 32) for a superframe made of its two frames and the 4-byte
  index.
\<close>

theorem vp9_superframe_two_frames:
  assumes "data pkt = Some d" and "data_size pkt = int n" and "4 \<le> n" and "n \<le> length d"
      and "d ! (n - 1) = 0xC1" and "d ! (n - 4) = 0xC1"
      and "s1 = unat (d ! (n - 3))" and "s2 = unat (d ! (n - 2))"
      and "s1 + s2 \<le> n" and "n \<le> s1 + s2 + 32"
      and "malloc_ok pf (s1 + s2 + 96)"
  shows "repackaged (vp9_update_frame_header pf pkt)
           = Some (PLAYER_SUCCESS,
                   vp9_frame_marker (int s1) @ take s1 d
                     @ vp9_frame_marker (int s2) @ take s2 (drop s1 d),
                   int (s1 + s2) + 32)"
  using assms by (rule vp9_two_general)

theorem vp9_superframe_two_frames_witness:
  "data example_vp9_superframe = Some [1, 2, 3, 4, 5, 0xC1, 2, 3, 0xC1]
   \<and> data_size example_vp9_superframe = int 9
   \<and> [1, 2, 3, 4, 5, 0xC1, 2, 3, 0xC1 :: byte] ! (9 - 1) = 0xC1
   \<and> [1, 2, 3, 4, 5, 0xC1, 2, 3, 0xC1 :: byte] ! (9 - 4) = 0xC1
   \<and> (2 :: nat) = unat ([1, 2, 3, 4, 5, 0xC1, 2, 3, 0xC1 :: byte] ! (9 - 3))
   \<and> (3 :: nat) = unat ([1, 2, 3, 4, 5, 0xC1, 2, 3, 0xC1 :: byte] ! (9 - 2))
   \<and> malloc_ok example_platform (2 + 3 + 96)
   \<and> repackaged (vp9_update_frame_header example_platform example_vp9_superframe)
         = Some (PLAYER_SUCCESS,
                 vp9_frame_marker (int 2) @ take 2 [1, 2, 3, 4, 5, 0xC1, 2, 3, 0xC1]
                   @ vp9_frame_marker (int 3) @ take 3 (drop 2 [1, 2, 3, 4, 5, 0xC1, 2, 3, 0xC1]),
                 int (2 + 3) + 32)"
proof -
  let ?d = "[1, 2, 3, 4, 5, 0xC1, 2, 3, 0xC1 :: byte]"
  have 1: "data example_vp9_superframe = Some ?d"
    and 2: "data_size example_vp9_superframe = int 9"
    by (simp_all add: example_vp9_superframe_def)
  have 3: "4 \<le> (9 :: nat)" and 4: "9 \<le> length ?d" by simp_all
  have 5: "?d ! (9 - 1) = 0xC1" and 6: "?d ! (9 - 4) = 0xC1" by simp_all
  have 7: "(2 :: nat) = unat (?d ! (9 - 3))" and 8: "(3 :: nat) = unat (?d ! (9 - 2))"
    by simp_all
  have 9: "(2 :: nat) + 3 \<le> 9" and 10: "(9 :: nat) \<le> 2 + 3 + 32" by simp_all
  have 11: "malloc_ok example_platform (2 + 3 + 96)" by (simp add: example_platform_def)
  show ?thesis
    by (intro conjI)
       (rule 1, rule 2, rule 5, rule 6, rule 7, rule 8, rule 11,
        rule vp9_superframe_two_frames [OF 1 2 3 4 5 6 7 8 9 10 11])
qed

text \<open>
  C4 as stated fails: the 9-byte superframe of a 2-byte and a 3-byte frame comes back as
  37 bytes, which is 9 + 28 and not 9 + 32.
\<close>

theorem vp9_superframe_plus_32_counterexample:
  "repackaged (vp9_update_frame_header example_platform example_vp9_superframe)
     = Some (PLAYER_SUCCESS,
             [0, 0, 0, 6, 0xff, 0xff, 0xff, 0xf9, 0, 0, 0, 1, 0x41, 0x4D, 0x4C, 0x56, 1, 2,
              0, 0, 0, 7, 0xff, 0xff, 0xff, 0xf8, 0, 0, 0, 1, 0x41, 0x4D, 0x4C, 0x56, 3, 4, 5],
             37)
   \<and> (37 :: int) \<noteq> data_size example_vp9_superframe + 32"
proof -
  have "repackaged (vp9_update_frame_header example_platform example_vp9_superframe)
          = Some (PLAYER_SUCCESS,
                  vp9_frame_marker (int 2) @ take 2 [1, 2, 3, 4, 5, 0xC1, 2, 3, 0xC1]
                    @ vp9_frame_marker (int 3)
                    @ take 3 (drop 2 [1, 2, 3, 4, 5, 0xC1, 2, 3, 0xC1]),
                  int (2 + 3) + 32)"
    by (rule vp9_two_general [where n = 9])
       (simp_all add: example_vp9_superframe_def am_packet_init_def example_platform_def)
  then show ?thesis
    by (simp add: vp9_frame_marker_def example_vp9_superframe_def)
qed

subsection \<open>The test of the total size\<close>

lemma foldl_i32_sum:
  "\<forall>s \<in> set szs. 0 \<le> s \<Longrightarrow> 0 \<le> acc \<Longrightarrow> acc + sum_list szs < 2 ^ 31
     \<Longrightarrow> foldl (\<lambda>t s. i32 (t + s)) acc szs = acc + sum_list szs"
proof (induction szs arbitrary: acc)
  case Nil
  then show ?case by simp
next
  case (Cons s szs)
  have s0: "0 \<le> s" and rest: "\<forall>s \<in> set szs. 0 \<le> s" using Cons.prems(1) by simp_all
  have "0 \<le> sum_list szs" using rest by (simp add: sum_list_nonneg)
  then have b: "acc + s < 2 ^ 31" using Cons.prems(3) by simp
  have "- (2 ^ 31) \<le> acc + s" using s0 Cons.prems(2) by simp
  then have e: "i32 (acc + s) = acc + s" using b by (rule i32_id)
  have "foldl (\<lambda>t s. i32 (t + s)) (acc + s) szs = acc + s + sum_list szs"
    using rest s0 Cons.prems(2,3) by (intro Cons.IH) simp_all
  then show ?case by (simp add: e)
qed

lemma vp9_parse_total:
  assumes "vp9_parse d dsize = VP9_FRAMES n szs tfs tot"
  shows "tot = foldl (\<lambda>t s. i32 (t + s)) 0 szs \<or> (szs = [dsize] \<and> tot = dsize)"
  using assms unfolding vp9_parse_def
  by (auto simp add: Let_def split: option.splits if_splits)

text \<open>
  When the sizes are not negative and add up to less than \<open>2^31\<close>, the test of the total
  against the size of the packet is a test of their sum.
\<close>

lemma vp9_sum_passthrough:
  assumes "data pkt = Some d"
      and "vp9_parse d (data_size pkt) = VP9_FRAMES frame_number szs tfs total_datasize"
      and "\<forall>s \<in> set szs. 0 \<le> s" and "sum_list szs < 2 ^ 31"
      and "data_size pkt < sum_list szs"
  shows "vp9_update_frame_header pf pkt
           = Some (PLAYER_SUCCESS, pkt\<lparr>avpkt_data := data pkt, avpkt_size := data_size pkt\<rparr>)"
proof -
  have "total_datasize = sum_list szs"
    using vp9_parse_total [OF assms(2)] foldl_i32_sum [OF assms(3), of 0] assms(4,5) by auto
  then show ?thesis
    using assms(1,2,5) by (simp add: vp9_update_frame_header_def Let_def)
qed

text \<open>The example index of two frames of 5 bytes in a packet of 4 bytes is passed through.\<close>

lemma example_overflow_passthrough:
  "vp9_update_frame_header example_platform example_vp9_overflow
     = Some (PLAYER_SUCCESS,
             example_vp9_overflow\<lparr>avpkt_data := data example_vp9_overflow,
                                   avpkt_size := data_size example_vp9_overflow\<rparr>)"
proof -
  have 1: "data example_vp9_overflow = Some [0xC1, 5, 5, 0xC1]"
    by (simp add: example_vp9_overflow_def)
  have "vp9_parse [0xC1, 5, 5, 0xC1] (int 4)
          = VP9_FRAMES (Suc (Suc 0))
              [uint ([0xC1, 5, 5, 0xC1 :: byte] ! (4 - 3)), uint ([0xC1, 5, 5, 0xC1 :: byte] ! (4 - 2))]
              [uint ([0xC1, 5, 5, 0xC1 :: byte] ! (4 - 3)),
               uint ([0xC1, 5, 5, 0xC1 :: byte] ! (4 - 3)) + uint ([0xC1, 5, 5, 0xC1 :: byte] ! (4 - 2))]
              (uint ([0xC1, 5, 5, 0xC1 :: byte] ! (4 - 3)) + uint ([0xC1, 5, 5, 0xC1 :: byte] ! (4 - 2)))"
    by (rule vp9_parse_two) simp_all
  then have 2: "vp9_parse [0xC1, 5, 5, 0xC1] (data_size example_vp9_overflow)
                  = VP9_FRAMES (Suc (Suc 0)) [5, 5] [5, 10] 10"
    by (simp add: example_vp9_overflow_def)
  show ?thesis
    by (rule vp9_sum_passthrough [OF 1 2]) (simp_all add: example_vp9_overflow_def)
qed

lemma vp9_marker_d9:
  "(0xD9 :: byte) AND 0xe0 = 0xc0" "unat ((0xD9 :: byte) AND 0x7) = 1"
  "unat (drop_bit 3 (0xD9 :: byte) AND 0x3) = 3"
  by simp_all

lemma upt_0_4: "[0..<4] = [0, 1, 2, 3]"
  by (simp add: eval_nat_numeral)

lemma vp9_read_size_four:
  assumes "rd b i = Some x0" "rd b (i + 1) = Some x1" "rd b (i + 2) = Some x2"
      and "rd b (i + 3) = Some x3"
  shows "vp9_read_size b i 4
           = Some (i32 (uint x0) OR i32 (uint x1 * 256) OR i32 (uint x2 * 65536)
                   OR i32 (uint x3 * 16777216))"
  using assms by (simp add: vp9_read_size_def upt_0_4 or.assoc)

lemma vp9_read_sizes_two:
  "vp9_read_sizes b p m 2
     = (case vp9_read_size b p m of
          None \<Rightarrow> None
        | Some s1 \<Rightarrow>
            (case vp9_read_size b (p + int m) m of None \<Rightarrow> None | Some s2 \<Rightarrow> Some [s1, s2]))"
  by (simp add: numeral_2_eq_2 split: option.splits)

lemma example_wrap_size:
  "i32 255 OR i32 65280 OR i32 16711680 OR i32 2130706432 = 2147483647"
  by (simp add: i32_def)

lemma example_wrap_parse:
  "vp9_parse [0xD9, 0xff, 0xff, 0xff, 0x7f, 0xff, 0xff, 0xff, 0x7f, 0xD9] 10
     = VP9_FRAMES 2 [2147483647, 2147483647] [2147483647, - 2] (- 2)"
proof -
  let ?b = "[0xD9, 0xff, 0xff, 0xff, 0x7f, 0xff, 0xff, 0xff, 0x7f, 0xD9] :: byte list"
  have r9: "rd ?b 9 = Some 0xD9" and r0: "rd ?b 0 = Some 0xD9" by (simp_all add: rd_def)
  have s1: "vp9_read_size ?b 1 4 = Some 2147483647"
    using vp9_read_size_four [where b = ?b and i = 1 and ?x0.0 = "0xff" and ?x1.0 = "0xff"
            and ?x2.0 = "0xff" and ?x3.0 = "0x7f"]
    by (simp add: rd_def example_wrap_size)
  have s2: "vp9_read_size ?b 5 4 = Some 2147483647"
    using vp9_read_size_four [where b = ?b and i = 5 and ?x0.0 = "0xff" and ?x1.0 = "0xff"
            and ?x2.0 = "0xff" and ?x3.0 = "0x7f"]
    by (simp add: rd_def example_wrap_size)
  have t: "i32 4294967294 = - 2" "i32 2147483647 = 2147483647" by (simp_all add: i32_def)
  show ?thesis
    by (simp add: vp9_parse_def r9 r0 vp9_marker_d9 Let_def vp9_read_sizes_two s1 s2 t)
qed

text \<open>The frame that \<open>vp9_put_headers\<close> moves first lies outside the grown block.\<close>

lemma example_wrap_result:
  "vp9_update_frame_header example_platform example_vp9_wrap = None"
proof -
  have g: "av_grow_packet example_platform
             (Some [0xD9, 0xff, 0xff, 0xff, 0x7f, 0xff, 0xff, 0xff, 0x7f, 0xD9]) 10 20
           = Some (0, Some grown, 30)" if "grown = take 10 [0xD9, 0xff, 0xff, 0xff, 0x7f, 0xff, 0xff, 0xff, 0x7f, 0xD9 :: byte] @ map (fresh example_platform) [10..<30] @ replicate 64 0" for grown
    unfolding that
    by (simp add: av_grow_packet_def INT_MAX_def AV_INPUT_BUFFER_PADDING_SIZE_def
          example_platform_def)
  define grown where "grown = take 10 [0xD9, 0xff, 0xff, 0xff, 0x7f, 0xff, 0xff, 0xff, 0x7f, 0xD9 :: byte] @ map (fresh example_platform) [10..<30] @ replicate 64 0"
  have p: "vp9_put_headers 2 [2147483647, 2147483647] [2147483647, - 2] grown None = None"
    by (simp add: numeral_2_eq_2 memmove_at_def Let_def)
  show ?thesis
    using g [OF grown_def] p
    by (simp add: vp9_update_frame_header_def example_vp9_wrap_def am_packet_init_def
          example_wrap_parse Let_def del: vp9_put_headers.simps)
qed

text \<open>
  Claim C7. The total that \<open>vp9_update_frame_header\<close> tests against the size of the packet
  is added up in a 32-bit \<open>int\<close>. The example packet is a superframe index of two frames
  of 0x7fffffff bytes each: the sizes add up to 4294967294, more than the 10 bytes of the
  packet, but the total is -2, which is not above 10. The packet is not passed through:
  it is grown by 20 bytes, and the first frame that is moved lies outside the block, so
  the function has no defined result.
\<close>

theorem vp9_size_sum_wraps:
  "vp9_parse [0xD9, 0xff, 0xff, 0xff, 0x7f, 0xff, 0xff, 0xff, 0x7f, 0xD9]
       (data_size example_vp9_wrap)
     = VP9_FRAMES 2 [2147483647, 2147483647] [2147483647, - 2] (- 2)
   \<and> data_size example_vp9_wrap < sum_list [2147483647, 2147483647]
   \<and> \<not> data_size example_vp9_wrap < - 2
   \<and> vp9_update_frame_header example_platform example_vp9_wrap = None"
  using example_wrap_parse example_wrap_result by (simp add: example_vp9_wrap_def)

section \<open>AV1: the parser loop\<close>

lemma unat_byte8: "unat (ucast (drop_bit 8 (w::32 word) AND 0xff) :: byte) = unat w div 2 ^ 8 mod 256"
  using unat_lo [of "drop_bit 8 w"] by (simp add: unat_drop_bit_eq drop_bit_eq_div unat_div)

lemma unat_byte16: "unat (ucast (drop_bit 16 (w::32 word) AND 0xff) :: byte) = unat w div 2 ^ 16 mod 256"
  using unat_lo [of "drop_bit 16 w"] by (simp add: unat_drop_bit_eq drop_bit_eq_div unat_div)

lemma unat_byte24: "unat (ucast (drop_bit 24 (w::32 word) AND 0xff) :: byte) = unat w div 2 ^ 24 mod 256"
  using unat_lo [of "drop_bit 24 w"] by (simp add: unat_drop_bit_eq drop_bit_eq_div unat_div)

lemma be32_digits:
  fixes w :: nat
  assumes "w < 2 ^ 32"
  shows "((w div 2 ^ 24 mod 256 * 256 + w div 2 ^ 16 mod 256) * 256 + w div 2 ^ 8 mod 256) * 256
           + w mod 256 = w"
proof -
  define q1 where "q1 = w div 256"
  define q2 where "q2 = q1 div 256"
  define q3 where "q3 = q2 div 256"
  have d8: "w div 2 ^ 8 = q1" by (simp add: q1_def)
  have d16: "w div 2 ^ 16 = q2"
    by (simp add: q2_def q1_def div_mult2_eq)
  have d24: "w div 2 ^ 24 = q3"
    by (simp add: q3_def q2_def q1_def div_mult2_eq)
  have "q3 < 256" using assms by (simp add: d24 [symmetric])
  then have m3: "q3 mod 256 = q3" by simp
  have e1: "w = q1 * 256 + w mod 256" by (simp add: q1_def)
  have e2: "q1 = q2 * 256 + q1 mod 256" by (simp add: q2_def)
  have e3: "q2 = q3 * 256 + q2 mod 256" by (simp add: q3_def)
  have "((q3 * 256 + q2 mod 256) * 256 + q1 mod 256) * 256 + w mod 256 = w"
    using e1 e2 e3 by simp
  then show ?thesis
    by (simp only: d8 d16 d24 m3)
qed

lemma be32_of_word:
  "be32 ([ucast (drop_bit 24 (w::32 word) AND 0xff), ucast (drop_bit 16 w AND 0xff),
          ucast (drop_bit 8 w AND 0xff), ucast (w AND 0xff)] @ rest) = unat w"
proof -
  have "unat w < 2 ^ 32" using unsigned_less [of w, where 'a = nat] by simp
  then have top: "unat w div 2 ^ 24 mod 256 = unat w div 2 ^ 24" by simp
  have "be32 ([ucast (drop_bit 24 w AND 0xff), ucast (drop_bit 16 w AND 0xff),
          ucast (drop_bit 8 w AND 0xff), ucast (w AND 0xff)] @ rest)
        = ((unat (ucast (drop_bit 24 w AND 0xff) :: byte) * 256
            + unat (ucast (drop_bit 16 w AND 0xff) :: byte)) * 256
            + unat (ucast (drop_bit 8 w AND 0xff) :: byte)) * 256
            + unat (ucast (w AND 0xff) :: byte)"
    unfolding be32_def by (simp del: unsigned_ucast_eq)
  also have "\<dots> = ((unat w div 2 ^ 24 mod 256 * 256 + unat w div 2 ^ 16 mod 256) * 256
                      + unat w div 2 ^ 8 mod 256) * 256 + unat w mod 256"
    by (simp only: unat_byte24 [of w] unat_byte16 [of w] unat_byte8 [of w] unat_lo [of w])
  also have "\<dots> = unat w"
    using \<open>unat w < 2 ^ 32\<close> by (rule be32_digits)
  finally show ?thesis .
qed

lemma av1_unit_header_props:
  assumes "n + 8 < 2 ^ 32" and "length hdr0 = 20" and "take 8 (drop 8 hdr0) = AMLV_tag"
  shows "length (av1_unit_header lib False hdr0 n) = 20"
    and "take 8 (drop 8 (av1_unit_header lib False hdr0 n)) = AMLV_tag"
    and "av1_unit_ok obu (av1_unit_header lib False hdr0 n @ obu) \<longleftrightarrow> length obu = n"
proof -
  define w where "w = (word_of_nat n + 4 + 4 :: 32 word)"
  define h1 where "h1 = (case aom_uleb_encode_fixed_size lib (word_of_nat n + 4) of
                    None \<Rightarrow> hdr0
                  | Some (c0, c1, c2, c3) \<Rightarrow> take 16 hdr0 @ [c0, c1, c2, c3])"
  have lh1: "length h1 = 20"
    using assms(2) by (simp add: h1_def split: option.splits)
  have th1: "take 8 (drop 8 h1) = AMLV_tag"
    using assms(2,3) by (auto simp: h1_def drop_take AMLV_tag_def split: option.splits)
  have H: "av1_unit_header lib False hdr0 n
             = [ucast (drop_bit 24 w AND 0xff), ucast (drop_bit 16 w AND 0xff),
                ucast (drop_bit 8 w AND 0xff), ucast (w AND 0xff)]
               @ ([ucast (drop_bit 24 w AND 0xff) XOR 0xff, ucast (drop_bit 16 w AND 0xff) XOR 0xff,
                   ucast (drop_bit 8 w AND 0xff) XOR 0xff, ucast (w AND 0xff) XOR 0xff]
                  @ drop 8 h1)"
    by (simp add: av1_unit_header_def Let_def w_def h1_def)
  have e: "w = word_of_nat (n + 8)" by (simp add: w_def)
  have "unat w = (n + 8) mod 2 ^ LENGTH(32)"
    unfolding e by (rule unat_of_nat)
  then have uw: "unat w = n + 8"
    using assms(1) by simp
  show l: "length (av1_unit_header lib False hdr0 n) = 20"
    using lh1 by (simp add: H)
  show "take 8 (drop 8 (av1_unit_header lib False hdr0 n)) = AMLV_tag"
    using th1 lh1 by (simp add: H)
  have be: "be32 (av1_unit_header lib False hdr0 n @ obu) = n + 8"
    unfolding H append_assoc by (simp only: be32_of_word uw)
  show "av1_unit_ok obu (av1_unit_header lib False hdr0 n @ obu) \<longleftrightarrow> length obu = n"
    using th1 lh1 unfolding av1_unit_ok_def be
    by (auto simp: H AMLV_tag_def)
qed

lemma length_av1_unit_header:
  "length hdr0 = 20 \<Longrightarrow> length (av1_unit_header lib False hdr0 n) = 20"
  by (simp add: av1_unit_header_def Let_def split: option.splits)

lemma av1_loop_step:
  assumes rd: "aom_read_obu_header_and_size lib d False = Some (ty, ps, br)"
      and br: "0 < br" and fit: "br + ps \<le> length d" and small: "length d < 2 ^ 32"
      and cap: "length dst + 20 + br + ps \<le> cap" and lh: "length hdr0 = 20"
  shows "av1_parser_loop lib False cap d slack dst fl seen hdr0 =
           (case av1_obu_switch lib ty seen (length d = br + ps) (drop br d @ slack) br of
              OBU_UNDEFINED \<Rightarrow> None
            | OBU_ERROR \<Rightarrow>
                Some (- 1, dst @ av1_unit_header lib False hdr0 (br + ps) @ take (br + ps) d,
                      fl + word_of_nat (20 + br + ps))
            | OBU_NEXT fin seen' \<Rightarrow>
                if fin
                then Some (0, dst @ av1_unit_header lib False hdr0 (br + ps) @ take (br + ps) d,
                           fl + word_of_nat (20 + br + ps))
                else av1_parser_loop lib False cap (drop (br + ps) d) slack
                       (dst @ av1_unit_header lib False hdr0 (br + ps) @ take (br + ps) d)
                       (fl + word_of_nat (20 + br + ps)) seen'
                       (av1_unit_header lib False hdr0 (br + ps)))"
proof -
  have ne: "d \<noteq> []" using br fit by auto
  have "int (length d) - int br < 2 ^ 64"
  proof -
    from small have "int (length d) < int (2 ^ 32)" by (simp only: of_nat_less_iff)
    then show ?thesis by simp
  qed
  moreover have "0 \<le> int (length d) - int br" using fit by simp
  ultimately have m: "(int (length d) - int br) mod 2 ^ 64 = int (length d) - int br"
    by simp
  have nl: "\<not> int (length d) - int br < int ps" using fit by simp
  have e: "(length d - br = ps) = (length d = br + ps)" using fit by auto
  note lh' = length_av1_unit_header [OF lh, of lib "br + ps"]
  have c: "\<not> cap < length dst + (20 + (br + ps))" using cap by simp
  have mn: "min (length d) (br + ps) = br + ps" using fit by simp
  have m': "\<not> (int (length d) - int br) mod 2 ^ 64 < int ps"
    using m nl by simp
  have nf: "\<not> length d < br + ps" using fit by simp
  show ?thesis
  proof (cases "av1_obu_switch lib ty seen (length d = br + ps) (drop br d @ slack) br")
    case OBU_UNDEFINED
    show ?thesis
      apply (subst av1_parser_loop.simps)
      using m' nf c
      apply (simp add: rd ne Let_def lh' mn e OBU_UNDEFINED add.assoc)
      done
  next
    case OBU_ERROR
    show ?thesis
      apply (subst av1_parser_loop.simps)
      using m' nf c
      apply (simp add: rd ne Let_def lh' mn e OBU_ERROR add.assoc)
      done
  next
    case (OBU_NEXT fin seen')
    show ?thesis
      apply (subst av1_parser_loop.simps)
      using m' nf c
      apply (simp add: rd ne Let_def lh' mn e OBU_NEXT add.assoc add.commute [of ps br])
      done
  qed
qed

lemma av1_switch_order:
  assumes "obu_order_ok seen ((ty, ps, br) # us)"
      and "ty = OBU_METADATA \<longrightarrow> av1_metadata_reads lib rest br"
  shows "\<exists>fin seen'. av1_obu_switch lib ty seen (us = []) rest br = OBU_NEXT fin seen'
           \<and> (fin \<longrightarrow> us = []) \<and> (\<not> fin \<longrightarrow> obu_order_ok seen' us)"
  using assms by (cases ty) auto

lemma obu_stream_at_end:
  assumes "obu_stream lib d slack ((ty, ps, br) # us)"
  shows "(length d = br + ps) = (us = [])"
proof (cases us)
  case Nil
  then show ?thesis using assms by simp
next
  case (Cons u us')
  obtain ty' ps' br' where u: "u = (ty', ps', br')" by (cases u)
  have "0 < br'" and "br' + ps' \<le> length (drop (br + ps) d)"
    using assms by (simp_all add: Cons u)
  then have "br + ps < length d" by simp
  then show ?thesis by (simp add: Cons)
qed

lemma av1_loop_units:
  assumes "obu_stream lib d slack us" and "obu_order_ok seen us"
      and "length dst + length d + 20 * length us \<le> cap" and "length d + 8 < 2 ^ 32"
      and "length hdr0 = 20" and "take 8 (drop 8 hdr0) = AMLV_tag"
  shows "\<exists>units. av1_parser_loop lib False cap d slack dst fl seen hdr0
             = Some (0, dst @ concat units, fl + word_of_nat (length d + 20 * length us))
           \<and> list_all2 av1_unit_ok (obu_split d us) units
           \<and> length (concat units) = length d + 20 * length us"
  using assms
proof (induction us arbitrary: d dst fl seen hdr0)
  case Nil
  then have "d = []" and "\<not> seen" by simp_all
  then have "av1_parser_loop lib False cap d slack dst fl seen hdr0 = Some (0, dst, fl)"
    by (subst av1_parser_loop.simps) simp
  then show ?case
    using \<open>d = []\<close> by (intro exI [of _ "[]"]) simp
next
  case (Cons u us)
  obtain ty ps br where u: "u = (ty, ps, br)" by (cases u)
  let ?H = "av1_unit_header lib False hdr0 (br + ps)"
  let ?O = "take (br + ps) d"
  let ?fl = "fl + word_of_nat (20 + br + ps)"
  let ?rest = "drop (br + ps) d"
  from Cons.prems(1) have rd: "aom_read_obu_header_and_size lib d False = Some (ty, ps, br)"
    and br: "0 < br" and fit: "br + ps \<le> length d" and rest: "obu_stream lib ?rest slack us"
    and meta: "ty = OBU_METADATA \<longrightarrow> av1_metadata_reads lib (drop br d @ slack) br"
    by (simp_all add: u)
  have small: "length d < 2 ^ 32" and small': "br + ps + 8 < 2 ^ 32"
    using Cons.prems(4) fit by simp_all
  have cap: "length dst + 20 + br + ps \<le> cap"
    using Cons.prems(3) fit by simp
  note lh = Cons.prems(5)
  have lH: "length ?H = 20" and tH: "take 8 (drop 8 ?H) = AMLV_tag"
    using av1_unit_header_props(1,2) [OF small' lh Cons.prems(6)] by simp_all
  have lO: "length ?O = br + ps" using fit by simp
  have ok: "av1_unit_ok ?O (?H @ ?O)"
    using av1_unit_header_props(3) [OF small' lh Cons.prems(6), of ?O lib] lO by simp
  have at_end: "(length d = br + ps) = (us = [])"
    using Cons.prems(1) unfolding u by (rule obu_stream_at_end)
  obtain fin seen' where
    sw: "av1_obu_switch lib ty seen (us = []) (drop br d @ slack) br = OBU_NEXT fin seen'"
    and fin: "fin \<Longrightarrow> us = []" and nfin: "\<not> fin \<Longrightarrow> obu_order_ok seen' us"
    using av1_switch_order [of seen ty ps br us lib "drop br d @ slack"] Cons.prems(2) meta
    unfolding u by blast
  note step = av1_loop_step [OF rd br fit small cap lh, of slack fl seen]
  show ?case
  proof (cases fin)
    case True
    then have e: "us = []" by (rule fin)
    then have ld: "length d = br + ps" using at_end by simp
    have "av1_parser_loop lib False cap d slack dst fl seen hdr0 = Some (0, dst @ ?H @ ?O, ?fl)"
      using step sw True by (simp add: at_end)
    then have "av1_parser_loop lib False cap d slack dst fl seen hdr0
                 = Some (0, dst @ concat [?H @ ?O], fl + word_of_nat (length d + 20 * length (u # us)))"
      by (simp add: e ld add.commute add.left_commute)
    moreover have "list_all2 av1_unit_ok (obu_split d (u # us)) [?H @ ?O]"
      using ok by (simp add: u e)
    moreover have "length (concat [?H @ ?O]) = length d + 20 * length (u # us)"
      using lH ld by (simp add: e)
    ultimately show ?thesis by blast
  next
    case False
    have c': "length (dst @ ?H @ ?O) + length ?rest + 20 * length us \<le> cap"
      using Cons.prems(3) fit lH by simp
    have s': "length ?rest + 8 < 2 ^ 32" using Cons.prems(4) by simp
    from Cons.IH [OF rest nfin [OF False] c' s' lH tH, of ?fl]
    obtain units where
      r: "av1_parser_loop lib False cap ?rest slack (dst @ ?H @ ?O) ?fl seen' ?H
            = Some (0, (dst @ ?H @ ?O) @ concat units,
                    ?fl + word_of_nat (length ?rest + 20 * length us))"
      and a: "list_all2 av1_unit_ok (obu_split ?rest us) units"
      and l: "length (concat units) = length ?rest + 20 * length us"
      by blast
    have "av1_parser_loop lib False cap d slack dst fl seen hdr0
            = Some (0, (dst @ ?H @ ?O) @ concat units,
                    ?fl + word_of_nat (length ?rest + 20 * length us))"
      using step sw False r by (simp add: at_end)
    moreover have "?fl + word_of_nat (length ?rest + 20 * length us)
                     = fl + word_of_nat (length d + 20 * length (u # us))"
    proof -
      have "20 + br + ps + (length ?rest + 20 * length us) = length d + 20 * length (u # us)"
        using fit by simp
      then have "(word_of_nat (20 + br + ps) + word_of_nat (length ?rest + 20 * length us) :: 32 word)
                   = word_of_nat (length d + 20 * length (u # us))"
        by (simp only: of_nat_add [symmetric])
      then show ?thesis by (simp only: add.assoc)
    qed
    moreover have "list_all2 av1_unit_ok (obu_split d (u # us)) ((?H @ ?O) # units)"
      using ok a by (simp add: u)
    moreover have "length (concat ((?H @ ?O) # units)) = length d + 20 * length (u # us)"
      using l lH fit by simp
    ultimately show ?thesis
      by (intro exI [of _ "(?H @ ?O) # units"]) simp
  qed
qed

lemma int_less_power: "x < 2 ^ k \<Longrightarrow> int x < 2 ^ k"
proof -
  assume "x < 2 ^ k"
  then have "int x < int (2 ^ k)" by (simp only: of_nat_less_iff)
  then show ?thesis by simp
qed

lemma less_power_int: "int x < 2 ^ k \<Longrightarrow> x < 2 ^ k"
proof -
  assume "int x < 2 ^ k"
  then have "int x < int (2 ^ k)" by simp
  then show ?thesis by (simp only: of_nat_less_iff)
qed

lemma sint_word_of_nat_small: "x < 2 ^ 31 \<Longrightarrow> sint (word_of_nat x :: 32 word) = int x"
proof -
  assume a: "x < 2 ^ 31"
  have "int x < 2 ^ 31" using a by (rule int_less_power)
  then have "signed_take_bit 31 (int x) = int x"
    by (intro signed_take_bit_int_eq_self) simp_all
  moreover have "(word_of_nat x :: 32 word) = word_of_int (int x)" by simp
  ultimately show ?thesis
    by (simp only: signed_of_int) simp
qed

lemma unat_word_of_nat_small: "x < 2 ^ 32 \<Longrightarrow> unat (word_of_nat x :: 32 word) = x"
  by (simp add: unat_of_nat)

lemma av1_add_frame_from_parser:
  assumes d: "data pkt = Some d" and n: "data_size pkt = int n" "0 < n" "n \<le> length d"
      and p: "av1_parser_frame lib False (n + 4096) (take n d) (drop n d) 0
                = Some (rc, out, word_of_nat (length out))"
      and lo: "length out = n + g" "0 < g" "g \<le> 4096"
      and sz: "int n + int g + 64 \<le> INT_MAX"
      and al: "malloc_ok pf (n + 4096)" "malloc_ok pf (n + g + 64)"
  shows "repackaged (av1_add_frame_dec_info pf lib pkt) = Some (PLAYER_SUCCESS, out, int (n + g))"
proof -
  have small: "n + g + 64 < 2 ^ 31"
  proof -
    have "int (n + g + 64) \<le> INT_MAX" using sz by simp
    then have "int (n + g + 64) < 2 ^ 31" by (simp add: INT_MAX_def)
    then show ?thesis by (rule less_power_int)
  qed
  have p': "av1_parser_frame lib False (n + 4096) (take n d) (drop n d) 0
                = Some (rc, out, word_of_nat (n + g))"
    using p by (simp only: lo(1))
  have diff: "(word_of_nat (n + g) :: 32 word) - word_of_int (int n) = word_of_nat g"
    by simp
  have ug: "unat (word_of_nat g :: 32 word) = g"
    using lo(3) by (intro unat_word_of_nat_small) simp
  have nz: "(word_of_nat g :: 32 word) \<noteq> 0"
  proof
    assume "(word_of_nat g :: 32 word) = 0"
    then have "unat (word_of_nat g :: 32 word) = 0" by simp
    then show False using ug lo(2) by simp
  qed
  have sg: "sint (word_of_nat g :: 32 word) = int g"
    using lo(3) by (intro sint_word_of_nat_small) simp
  have sfl: "sint (word_of_nat (n + g) :: 32 word) = int (n + g)"
    using small by (intro sint_word_of_nat_small) simp
  have ufl: "unat (word_of_nat (n + g) :: 32 word) = n + g"
    using small by (intro unat_word_of_nat_small) simp
  have "int n + int g + 64 = int (n + g + 64)" by simp
  then have "nat (int n + int g + 64) = n + g + 64"
    by (simp only: nat_int)
  then have "malloc_ok pf (nat (int n + int g + 64))"
    using al(2) by (simp only:)
  then have grow: "av_grow_packet pf (Some d) (int n) (int g)
           = Some (0, Some (take n d @ map (fresh pf) [n..<n + nat (int g)]
                            @ replicate 64 0), int n + int g)"
    using n(2,3) sz by (intro av_grow_packet_ok) simp_all
  define grown where "grown = take n d @ map (fresh pf) [n..<n + nat (int g)] @ replicate 64 (0 :: byte)"
  have lg: "length grown = n + g + 64" using n(3) by (simp add: grown_def)
  have cp: "memcpy_at grown 0 out = Some (out @ drop (n + g) grown)"
    using memcpy_at_0 [of out grown] lo(1) lg by simp
  have tk: "take (n + g) (out @ replicate ((n + 4096) - length out) 0) = out"
    using lo(1) by simp
  have al': "malloc_ok pf (nat (int n + 4096))" using al(1) by (simp add: nat_add_distrib)
  have cap: "nat (int n + 4096) = n + 4096" by simp
  have res: "av1_add_frame_dec_info pf lib pkt
               = Some (PLAYER_SUCCESS,
                   pkt\<lparr>avpkt_data := Some (out @ drop (n + g) grown),
                       avpkt_size := int n + int g,
                       data := Some (out @ drop (n + g) grown),
                       data_size := int (n + g)\<rparr>)"
    using d n(1,3) nz lo(3) al' cap p' diff sg grow [folded grown_def] ufl tk cp sfl
    by (simp add: av1_add_frame_dec_info_def Let_def)
  show ?thesis
    using lo(1) by (simp add: res repackaged_def packet_bytes_def)
qed

lemma av1_packet_units:
  assumes d: "data pkt = Some d" and n: "data_size pkt = int n" "n \<le> length d"
      and st: "obu_stream lib (take n d) (drop n d) us" and ord: "obu_order_ok False us"
      and ne: "us \<noteq> []" and few: "20 * length us \<le> 4096"
      and sz: "int n + 20 * int (length us) + 64 \<le> INT_MAX"
      and al: "malloc_ok pf (n + 4096)" "malloc_ok pf (n + 20 * length us + 64)"
  shows "\<exists>units. repackaged (av1_add_frame_dec_info pf lib pkt)
             = Some (PLAYER_SUCCESS, concat units, int n + 20 * int (length us))
           \<and> list_all2 av1_unit_ok (obu_split (take n d) us) units"
proof -
  let ?N = "length us"
  have ln: "length (take n d) = n" using n(2) by simp
  have npos: "0 < n"
  proof -
    obtain u us' where "us = u # us'" using ne by (cases us) auto
    then show ?thesis using st ln by (cases u) auto
  qed
  have small: "n + 20 * ?N + 64 < 2 ^ 31"
  proof -
    have "int (n + 20 * ?N + 64) \<le> INT_MAX" using sz by simp
    then have "int (n + 20 * ?N + 64) < 2 ^ 31" by (simp add: INT_MAX_def)
    then show ?thesis by (rule less_power_int)
  qed
  define t where "t = take n d"
  have lt: "length t = n" using ln by (simp add: t_def)
  have "obu_stream lib t (drop n d) us" using st by (simp add: t_def)
  moreover have "length ([] :: byte list) + length t + 20 * ?N \<le> n + 4096"
    using few lt by simp
  moreover have "length t + 8 < 2 ^ 32" using small lt by simp
  moreover have "length av1_header_init = 20" "take 8 (drop 8 av1_header_init) = AMLV_tag"
    by (simp_all add: av1_header_init_def AMLV_tag_def)
  ultimately obtain units where
    p0: "av1_parser_loop lib False (n + 4096) t (drop n d) [] 0 False av1_header_init
          = Some (0, [] @ concat units, 0 + word_of_nat (length t + 20 * ?N))"
    and a0: "list_all2 av1_unit_ok (obu_split t us) units"
    and l0: "length (concat units) = length t + 20 * ?N"
    using av1_loop_units [of lib t "drop n d" us False "[]" "n + 4096" av1_header_init 0] ord
    by blast
  have l: "length (concat units) = n + 20 * ?N"
    using l0 by (simp only: lt)
  have p: "av1_parser_frame lib False (n + 4096) (take n d) (drop n d) 0
          = Some (0, concat units, word_of_nat (length (concat units)))"
    using p0 unfolding av1_parser_frame_def t_def [symmetric] lt l by (simp only: append_Nil add_0)
  have a: "list_all2 av1_unit_ok (obu_split (take n d) us) units"
    using a0 by (simp only: t_def)
  have g: "0 < 20 * ?N" using ne by simp
  have sz': "int n + int (20 * ?N) + 64 \<le> INT_MAX" using sz by simp
  have "repackaged (av1_add_frame_dec_info pf lib pkt)
          = Some (PLAYER_SUCCESS, concat units, int (n + 20 * ?N))"
    using d n(1) npos n(2) p l g few sz' al by (rule av1_add_frame_from_parser)
  then show ?thesis
    using a by (intro exI [of _ units]) simp
qed

lemma example_av1_parse:
  "av1_parser_frame example_aom_lib False (6 + 4096) (take 6 [0x12, 0x00, 0x32, 0x02, 0xAA, 0xBB])
     (drop 6 [0x12, 0x00, 0x32, 0x02, 0xAA, 0xBB]) 0
     = Some (0, [0, 0, 0, 10, 0xff, 0xff, 0xff, 0xf5, 0, 0, 0, 1, 0x41, 0x4d, 0x4c, 0x56,
                 0x86, 0x80, 0x80, 0, 0x12, 0,
                 0, 0, 0, 12, 0xff, 0xff, 0xff, 0xf3, 0, 0, 0, 1, 0x41, 0x4d, 0x4c, 0x56,
                 0x88, 0x80, 0x80, 0, 0x32, 2, 0xAA, 0xBB], 46)"
  by (simp add: av1_parser_frame_def av1_parser_loop.simps av1_header_init_def example_aom_lib_def
      example_obu_type_def av1_unit_header_def Let_def)

section \<open>AV1: the repackaged packet\<close>

lemma example_uleb_one:
  "b AND 0x80 = 0 \<Longrightarrow> 0 < k
     \<Longrightarrow> example_uleb_decode k 0 0 (b # bs) len0 = Some (ucast (b AND 0x7f), 1)"
  by (cases k) simp_all

lemma example_metadata_reads:
  "av1_metadata_reads example_aom_lib [0x01, 0x03, 0xE8, 0x01, 0x90, 0x32, 0x02, 0xAA, 0xBB] 2"
  by (simp add: av1_metadata_reads_def example_aom_lib_def example_uleb_one)

text \<open>
  A metadata unit whose payload is the type byte alone: the four bytes of the content
  light level are read behind the packet, and the repackager has no defined result.
\<close>

lemma example_metadata_outside:
  "av1_add_frame_dec_info example_platform example_aom_lib
     (am_packet_init\<lparr>data := Some [0x2A, 0x01, 0x01], data_size := 3\<rparr>) = None"
proof -
  have m: "\<not> av1_metadata_reads example_aom_lib [0x01] 2"
    by (simp add: av1_metadata_reads_def example_aom_lib_def example_uleb_one)
  have "av1_parser_frame example_aom_lib False (3 + 4096) [0x2A, 0x01, 0x01] [] 0 = None"
    using m
    by (simp add: av1_parser_frame_def av1_parser_loop.simps av1_header_init_def
        example_aom_lib_def example_obu_type_def av1_unit_header_def Let_def)
  then show ?thesis
    by (simp add: av1_add_frame_dec_info_def example_platform_def am_packet_init_def)
qed

text \<open>
  C1 (amended). Let the \<open>n\<close> bytes of an AV1 packet be, for the reader, exactly the units
  \<open>us\<close> in an order the parser accepts, with at least one and at most 204 units (so that
  the \<open>20 * N\<close> bytes of markers fit the 4096 spare bytes of the destination block); let
  what the parser reads of every metadata unit lie in the block of the packet (the
  metadata type is below 6, and the 4 bytes of a content light level or the 24 bytes of a
  mastering display colour volume that it reads are there); and let the allocations
  succeed. Then \<open>av1_add_frame_dec_info\<close> (not Annex-B) returns success and the packet
  becomes exactly \<open>N\<close> length-prefixed units, \<open>n + 20 * N\<close> bytes in all. Unit \<open>i\<close> is a
  20-byte marker followed by the bytes of OBU \<open>i\<close>; the 4-byte big-endian length field of
  the marker is \<open>bytes_read + payload_size + 8\<close> (not \<open>bytes_read + payload_size\<close>), and
  each of its next four bytes is the length byte at the same place XOR 0xFF.
\<close>

theorem av1_repackaged_units:
  assumes "data pkt = Some d" and "data_size pkt = int n" and "n \<le> length d"
      and "obu_stream lib (take n d) (drop n d) us" and "obu_order_ok False us"
      and "us \<noteq> []" and "20 * length us \<le> 4096"
      and "int n + 20 * int (length us) + 64 \<le> INT_MAX"
      and "malloc_ok pf (n + 4096)" and "malloc_ok pf (n + 20 * length us + 64)"
  shows "\<exists>units. repackaged (av1_add_frame_dec_info pf lib pkt)
             = Some (PLAYER_SUCCESS, concat units, int n + 20 * int (length us))
           \<and> list_all2 av1_unit_ok (obu_split (take n d) us) units"
  using assms by (rule av1_packet_units)

theorem av1_repackaged_units_witness:
  "data example_av1_meta_packet = Some example_av1_meta_bytes
   \<and> data_size example_av1_meta_packet = int 13
   \<and> obu_stream example_aom_lib (take 13 example_av1_meta_bytes)
         (drop 13 example_av1_meta_bytes) example_av1_meta_units
   \<and> obu_order_ok False example_av1_meta_units
   \<and> 20 * length example_av1_meta_units \<le> 4096
   \<and> int 13 + 20 * int (length example_av1_meta_units) + 64 \<le> INT_MAX
   \<and> malloc_ok example_platform (13 + 4096)
   \<and> malloc_ok example_platform (13 + 20 * length example_av1_meta_units + 64)
   \<and> (\<exists>units. repackaged (av1_add_frame_dec_info example_platform example_aom_lib
                        example_av1_meta_packet)
             = Some (PLAYER_SUCCESS, concat units,
                     int 13 + 20 * int (length example_av1_meta_units))
           \<and> list_all2 av1_unit_ok
                 (obu_split (take 13 example_av1_meta_bytes) example_av1_meta_units) units)"
proof -
  let ?d = "example_av1_meta_bytes"
  let ?us = "example_av1_meta_units"
  have 1: "data example_av1_meta_packet = Some ?d"
    and 2: "data_size example_av1_meta_packet = int 13"
    by (simp_all add: example_av1_meta_packet_def)
  have 3: "13 \<le> length ?d" by (simp add: example_av1_meta_bytes_def)
  have 4: "obu_stream example_aom_lib (take 13 ?d) (drop 13 ?d) ?us"
    using example_metadata_reads
    by (simp add: example_aom_lib_def example_obu_type_def example_av1_meta_bytes_def
        example_av1_meta_units_def)
  have 5: "obu_order_ok False ?us" by (simp add: example_av1_meta_units_def)
  have 6: "?us \<noteq> []" by (simp add: example_av1_meta_units_def)
  have 7: "20 * length ?us \<le> 4096" by (simp add: example_av1_meta_units_def)
  have 8: "int 13 + 20 * int (length ?us) + 64 \<le> INT_MAX"
    by (simp add: INT_MAX_def example_av1_meta_units_def)
  have 9: "malloc_ok example_platform (13 + 4096)"
    and 10: "malloc_ok example_platform (13 + 20 * length ?us + 64)"
    by (simp_all add: example_platform_def)
  show ?thesis
    by (intro conjI)
       (rule 1, rule 2, rule 4, rule 5, rule 7, rule 8, rule 9, rule 10,
        rule av1_repackaged_units [OF 1 2 3 4 5 6 7 8 9 10])
qed

text \<open>
  C1 as stated fails: the first unit of the example packet has \<open>bytes_read = 2\<close> and
  \<open>payload_size = 0\<close>, and the length field of its marker is 10.
\<close>

theorem av1_length_field_counterexample:
  "repackaged (av1_add_frame_dec_info example_platform example_aom_lib example_av1_packet)
     = Some (PLAYER_SUCCESS,
             [0, 0, 0, 10, 0xff, 0xff, 0xff, 0xf5, 0, 0, 0, 1, 0x41, 0x4d, 0x4c, 0x56,
              0x86, 0x80, 0x80, 0, 0x12, 0,
              0, 0, 0, 12, 0xff, 0xff, 0xff, 0xf3, 0, 0, 0, 1, 0x41, 0x4d, 0x4c, 0x56,
              0x88, 0x80, 0x80, 0, 0x32, 2, 0xAA, 0xBB],
             46)
   \<and> aom_read_obu_header_and_size example_aom_lib example_av1_bytes False
       = Some (OBU_TEMPORAL_DELIMITER, 0, 2)
   \<and> be32 [0, 0, 0, 10] \<noteq> 2 + 0"
proof -
  let ?out = "[0, 0, 0, 10, 0xff, 0xff, 0xff, 0xf5, 0, 0, 0, 1, 0x41, 0x4d, 0x4c, 0x56,
              0x86, 0x80, 0x80, 0, 0x12, 0,
              0, 0, 0, 12, 0xff, 0xff, 0xff, 0xf3, 0, 0, 0, 1, 0x41, 0x4d, 0x4c, 0x56,
              0x88, 0x80, 0x80, 0, 0x32, 2, 0xAA, 0xBB] :: byte list"
  have p: "av1_parser_frame example_aom_lib False (6 + 4096) (take 6 example_av1_bytes)
             (drop 6 example_av1_bytes) 0
             = Some (0, ?out, word_of_nat (length ?out))"
    using example_av1_parse by (simp add: example_av1_bytes_def)
  have "repackaged (av1_add_frame_dec_info example_platform example_aom_lib example_av1_packet)
          = Some (PLAYER_SUCCESS, ?out, int (6 + 40))"
    by (rule av1_add_frame_from_parser [OF _ _ _ _ p])
       (simp_all add: example_av1_packet_def INT_MAX_def example_platform_def
          example_av1_bytes_def)
  then show ?thesis
    by (simp add: example_aom_lib_def example_obu_type_def be32_def example_av1_bytes_def)
qed

section \<open>The buffer-level gate\<close>

lemma GetBufferLevel_full:
  "bs_free_len (vbuf_state dev) \<le> 0 \<Longrightarrow> fst (GetBufferLevel pf dev c) = 100"
  by (simp add: GetBufferLevel_def Let_def)

lemma AddData_gate_fst:
  "fst (AddData_gate pf s dev pData iSize) =
     (\<not> m_opened s \<or> pData = None \<or> bs_free_len (vbuf_state dev) = 0
      \<or> fst (GetBufferLevel pf dev (calc_chunk_size (i32 (int iSize)))) \<ge> 100)"
  by (cases "GetBufferLevel pf dev (calc_chunk_size (i32 (int iSize)))")
     (auto simp add: AddData_gate_def Let_def GetBufferLevel_def split: if_splits)

lemma AddData_rejected:
  "fst (AddData_gate pf s dev pData iSize) \<Longrightarrow>
   AddData pf lib s dev pData iSize dts pts
     = Some (False, snd (AddData_gate pf s dev pData iSize), dev)"
  by (cases "AddData_gate pf s dev pData iSize") (simp add: AddData_def)

text \<open>
  Claim C5. \<open>GetBufferLevel\<close> gives 100 whenever the device reports zero free bytes,
  whatever the used bytes and the new chunk are. \<open>AddData\<close> returns \<open>false\<close>, before
  anything is written to the device, whenever the decoder is not open, the data pointer
  is null, the free bytes are zero or the level computed for the new chunk is at least
  100. The session returned is the one the gate leaves: only the prebuffer latch and the
  minimum level may have been set.
\<close>

theorem buffer_gate_rejects:
  "(bs_free_len (vbuf_state dev) = 0 \<longrightarrow> fst (GetBufferLevel pf dev new_chunk) = 100) \<and>
   (\<not> m_opened s \<or> pData = None \<or> bs_free_len (vbuf_state dev) = 0
      \<or> fst (GetBufferLevel pf dev (calc_chunk_size (i32 (int iSize)))) \<ge> 100
    \<longrightarrow> AddData pf lib s dev pData iSize dts pts
          = Some (False, snd (AddData_gate pf s dev pData iSize), dev))"
  using GetBufferLevel_full [of dev pf new_chunk] AddData_gate_fst [of pf s dev pData iSize]
        AddData_rejected [of pf s dev pData iSize lib dts pts]
  by simp

theorem buffer_gate_rejects_witness:
  "bs_free_len (vbuf_state (example_device 8388608 [] [])) = 0
   \<and> fst (GetBufferLevel example_platform (example_device 8388608 [] []) 4096) = 100
   \<and> AddData example_platform example_aom_lib example_session (example_device 8388608 [] [])
        (Some [1, 2, 3, 4]) 4 0 0
      = Some (False, snd (AddData_gate example_platform example_session
                            (example_device 8388608 [] []) (Some [1, 2, 3, 4]) 4),
              example_device 8388608 [] [])"
proof -
  have 1: "bs_free_len (vbuf_state (example_device 8388608 [] [])) = 0"
    by (simp add: example_device_def)
  note t = buffer_gate_rejects [of "example_device 8388608 [] []" example_platform 4096
             example_session "Some [1, 2, 3, 4]" 4 example_aom_lib 0 0]
  from t 1 show ?thesis by simp
qed

section \<open>Picture durations\<close>





text \<open>
  \<open>AddData\<close> leaves \<open>m_cur_pts\<close> at the value that means no timestamp, where
  \<open>OpenDecoder\<close> and \<open>Reset\<close> put it.
\<close>

lemma AddData_gate_cur_pts: "m_cur_pts (snd (AddData_gate pf s dev pData iSize)) = m_cur_pts s"
  by (cases "GetBufferLevel pf dev (calc_chunk_size (i32 (int iSize)))")
     (simp add: AddData_gate_def Let_def)

lemma AddData_pts_cur_pts: "m_cur_pts (AddData_pts pf s dts pts) = m_cur_pts s"
  by (simp add: AddData_pts_def Let_def)

lemma AddData_packet_cur_pts:
  "AddData_packet pf lib s pData iSize dts pts = Some (Inr s2) \<Longrightarrow> m_cur_pts s2 = m_cur_pts s"
  "AddData_packet pf lib s pData iSize dts pts = Some (Inl (ret, s')) \<Longrightarrow> m_cur_pts s' = m_cur_pts s"
  unfolding AddData_packet_def
  by (auto simp add: Let_def AddData_pts_cur_pts split: option.splits sum.splits prod.splits)

lemma Reset_cur_pts:
  "Reset pf s dev = Some (s', dev') \<Longrightarrow> m_cur_pts s = DVD_NOPTS_VALUE pf
     \<Longrightarrow> m_cur_pts s' = DVD_NOPTS_VALUE pf"
  unfolding Reset_def by (auto split: if_splits option.splits prod.splits)

lemma AddData_keeps_no_pts:
  assumes "AddData pf lib s dev pData iSize dts pts = Some (ok, s', dev')"
      and "m_cur_pts s = DVD_NOPTS_VALUE pf"
  shows "m_cur_pts s' = DVD_NOPTS_VALUE pf"
proof (cases "AddData_gate pf s dev pData iSize")
  case (Pair rejected s1)
  have c1: "m_cur_pts s1 = DVD_NOPTS_VALUE pf"
    using AddData_gate_cur_pts [of pf s dev pData iSize] Pair assms(2) by simp
  show ?thesis
  proof (cases rejected)
    case True
    with assms(1) Pair c1 show ?thesis by (simp add: AddData_def)
  next
    case False
    show ?thesis
    proof (cases "AddData_packet pf lib s1 pData iSize dts pts")
      case None
      with assms(1) Pair False show ?thesis by (simp add: AddData_def)
    next
      case (Some a)
      show ?thesis
      proof (cases a)
        case (Inl b)
        obtain ret s'' where b: "b = (ret, s'')" by (cases b)
        from AddData_packet_cur_pts(2) [of pf lib s1 pData iSize dts pts ret s''] Some Inl b c1
        have "m_cur_pts s'' = DVD_NOPTS_VALUE pf" by simp
        with assms(1) Pair False Some Inl b show ?thesis by (simp add: AddData_def)
      next
        case (Inr s2)
        from AddData_packet_cur_pts(1) [of pf lib s1 pData iSize dts pts s2] Some Inr c1
        have c2: "m_cur_pts s2 = DVD_NOPTS_VALUE pf" by simp
        have c3: "m_cur_pts (fed s2 pkt) = DVD_NOPTS_VALUE pf" for pkt
          using c2 by (simp add: fed_def)
        from assms(1) Pair False Some Inr
        show ?thesis
          using c3 Reset_cur_pts
          by (auto simp add: AddData_def split: option.splits prod.splits if_splits)
      qed
    qed
  qed
qed










section \<open>The loop of AddData\<close>

lemma PLAYER_WR_FAILED_value: "PLAYER_WR_FAILED = - 33554465"
  by (simp add: PLAYER_WR_FAILED_def P_PRE_def)

lemma write_failed_no_success [simp]:
  "PLAYER_WR_FAILED \<noteq> PLAYER_SUCCESS" "PLAYER_SUCCESS \<noteq> PLAYER_WR_FAILED"
  by (simp_all add: PLAYER_WR_FAILED_value PLAYER_SUCCESS_def)

lemma map_option_drop_0: "map_option (drop 0) d = d"
  by (cases d) simp_all

lemma written_same: "dev\<lparr>wr_script := rs, written := written dev\<rparr> = dev\<lparr>wr_script := rs\<rparr>"
  by (cases dev) simp

text \<open>One call of \<open>write_av_packet\<close> whose first write would block.\<close>

lemma write_av_packet_would_block:
  assumes "isvalid pkt \<noteq> 0" "0 < data_size pkt" "hdr pkt = None"
      and "check_in_pts para dev pkt = PLAYER_SUCCESS"
      and "wr_script dev = (w, EAGAIN) # rs" "w < 0 \<or> data_size pkt < w"
  shows "write_av_packet para pkt dev
           = Some (PLAYER_SUCCESS, pkt\<lparr>newflag := 0\<rparr>, dev\<lparr>wr_script := rs\<rparr>)"
proof (cases "newflag pkt = 0")
  case True
  have e: "pkt\<lparr>newflag := 0\<rparr> = pkt" using True by (cases pkt) simp
  show ?thesis
    using assms True
    by (simp add: e write_av_packet_def write_header_def write_data_loop.simps
          map_option_drop_0 option.map_ident written_same)
next
  case False
  show ?thesis
    using assms False
    by (simp add: write_av_packet_def write_header_def write_data_loop.simps
          map_option_drop_0 option.map_ident written_same)
qed

text \<open>One call whose first write takes the whole packet.\<close>

lemma write_av_packet_all:
  assumes "isvalid pkt \<noteq> 0" "0 < data_size pkt" "hdr pkt = None"
      and "check_in_pts para dev pkt = PLAYER_SUCCESS"
      and "wr_script dev = (data_size pkt, e) # rs"
  shows "write_av_packet para pkt dev
           = Some (PLAYER_SUCCESS, pkt\<lparr>newflag := 0, isvalid := 0, data_size := 0\<rparr>,
                   dev\<lparr>wr_script := rs,
                       written := written dev @ taken (data pkt) 0 (data_size pkt)\<rparr>)"
proof (cases "newflag pkt = 0")
  case True
  have e: "pkt\<lparr>newflag := 0, isvalid := 0, data_size := 0\<rparr> = pkt\<lparr>isvalid := 0, data_size := 0\<rparr>"
    using True by (cases pkt) simp
  show ?thesis
    using assms True
    by (simp add: e write_av_packet_def write_header_def write_data_loop.simps)
next
  case False
  show ?thesis
    using assms False
    by (simp add: write_av_packet_def write_header_def write_data_loop.simps)
qed

text \<open>One call whose first write fails with an error other than \<open>EAGAIN\<close>.\<close>

lemma write_av_packet_fatal:
  assumes "isvalid pkt \<noteq> 0" "0 < data_size pkt" "hdr pkt = None"
      and "check_in_pts para dev pkt = PLAYER_SUCCESS"
      and "wr_script dev = (w, e) # rs" "w < 0 \<or> data_size pkt < w" "e \<noteq> EAGAIN"
  shows "write_av_packet para pkt dev
           = Some (PLAYER_WR_FAILED, pkt\<lparr>newflag := 0\<rparr>, dev\<lparr>wr_script := rs\<rparr>)"
proof (cases "newflag pkt = 0")
  case True
  have e: "pkt\<lparr>newflag := 0\<rparr> = pkt" using True by (cases pkt) simp
  show ?thesis
    using assms True
    by (simp add: e write_av_packet_def write_header_def write_data_loop.simps written_same)
next
  case False
  show ?thesis
    using assms False
    by (simp add: write_av_packet_def write_header_def write_data_loop.simps written_same)
qed

text \<open>\<open>k\<close> writes that would block take \<open>k\<close> iterations of the loop of \<open>AddData\<close>.\<close>

lemma feed_loop_would_block:
  assumes "isvalid pkt \<noteq> 0" "0 < data_size pkt" "hdr pkt = None"
      and "check_in_pts para dev pkt = PLAYER_SUCCESS"
      and "loop + k \<le> 100" "0 < k"
  shows "feed_loop para pkt (dev\<lparr>wr_script := replicate k (- 1, EAGAIN) @ rs\<rparr>) loop ret
           = feed_loop para (pkt\<lparr>newflag := 0\<rparr>) (dev\<lparr>wr_script := rs\<rparr>) (loop + k) PLAYER_SUCCESS"
  using assms
proof (induction k arbitrary: pkt loop ret)
  case 0
  then show ?case by simp
next
  case (Suc k)
  let ?dev = "dev\<lparr>wr_script := replicate (Suc k) (- 1, EAGAIN) @ rs\<rparr>"
  have c: "check_in_pts para ?dev pkt = PLAYER_SUCCESS"
    using Suc.prems(4) by (simp add: check_in_pts_def)
  have s: "wr_script ?dev = (- 1, EAGAIN) # (replicate k (- 1, EAGAIN) @ rs)" by simp
  have w: "write_av_packet para pkt ?dev
             = Some (PLAYER_SUCCESS, pkt\<lparr>newflag := 0\<rparr>,
                     ?dev\<lparr>wr_script := replicate k (- 1, EAGAIN) @ rs\<rparr>)"
    by (rule write_av_packet_would_block [OF Suc.prems(1,2,3) c s]) simp
  have l: "loop < 100" using Suc.prems(5) by simp
  have step: "feed_loop para pkt ?dev loop ret
          = feed_loop para (pkt\<lparr>newflag := 0\<rparr>)
              (dev\<lparr>wr_script := replicate k (- 1, EAGAIN) @ rs\<rparr>) (Suc loop) PLAYER_SUCCESS"
    using Suc.prems(1) l w by (subst feed_loop.simps) simp
  show ?case
  proof (cases "k = 0")
    case True
    then show ?thesis using step by simp
  next
    case False
    have c': "check_in_pts para dev (pkt\<lparr>newflag := 0\<rparr>) = PLAYER_SUCCESS"
      using Suc.prems(4) by (simp add: check_in_pts_def)
    have "feed_loop para (pkt\<lparr>newflag := 0\<rparr>)
              (dev\<lparr>wr_script := replicate k (- 1, EAGAIN) @ rs\<rparr>) (Suc loop) PLAYER_SUCCESS
          = feed_loop para (pkt\<lparr>newflag := 0, newflag := 0\<rparr>) (dev\<lparr>wr_script := rs\<rparr>)
              (Suc loop + k) PLAYER_SUCCESS"
      using Suc.prems False
      by (intro Suc.IH [of "pkt\<lparr>newflag := 0\<rparr>" "Suc loop" PLAYER_SUCCESS] c') simp_all
    then show ?thesis using step by simp
  qed
qed

text \<open>
  99 writes that would block and one write that takes the whole packet: the loop stops
  with its counter at 100 and the packet consumed.
\<close>

lemma feed_loop_drains_at_bound:
  assumes "isvalid pkt \<noteq> 0" "0 < data_size pkt" "hdr pkt = None"
      and "check_in_pts para dev pkt = PLAYER_SUCCESS"
  shows "feed_loop para pkt
           (dev\<lparr>wr_script := replicate 99 (- 1, EAGAIN) @ [(data_size pkt, e)]\<rparr>) 0 PLAYER_SUCCESS
         = Some (100, PLAYER_SUCCESS, pkt\<lparr>newflag := 0, isvalid := 0, data_size := 0\<rparr>,
                 dev\<lparr>wr_script := [],
                     written := written dev @ taken (data pkt) 0 (data_size pkt)\<rparr>)"
proof -
  let ?pkt = "pkt\<lparr>newflag := 0\<rparr>" and ?dev = "dev\<lparr>wr_script := [(data_size pkt, e)]\<rparr>"
  let ?end = "dev\<lparr>wr_script := [], written := written dev @ taken (data pkt) 0 (data_size pkt)\<rparr>"
  have a: "feed_loop para pkt
           (dev\<lparr>wr_script := replicate 99 (- 1, EAGAIN) @ [(data_size pkt, e)]\<rparr>) 0 PLAYER_SUCCESS
         = feed_loop para ?pkt ?dev 99 PLAYER_SUCCESS"
    using feed_loop_would_block [OF assms, of 0 99 "[(data_size pkt, e)]" PLAYER_SUCCESS]
    by simp
  have c: "check_in_pts para ?dev ?pkt = PLAYER_SUCCESS"
    using assms(4) by (simp add: check_in_pts_def)
  have w: "write_av_packet para ?pkt ?dev
             = Some (PLAYER_SUCCESS, pkt\<lparr>newflag := 0, isvalid := 0, data_size := 0\<rparr>, ?end)"
    using write_av_packet_all [OF _ _ _ c, of e "[]"] assms(1,2,3) by simp
  have b: "feed_loop para ?pkt ?dev 99 PLAYER_SUCCESS
         = feed_loop para (pkt\<lparr>newflag := 0, isvalid := 0, data_size := 0\<rparr>) ?end
             100 PLAYER_SUCCESS"
    using assms(1) w by (subst feed_loop.simps) simp
  have d: "feed_loop para (pkt\<lparr>newflag := 0, isvalid := 0, data_size := 0\<rparr>) ?end
             100 PLAYER_SUCCESS
         = Some (100, PLAYER_SUCCESS, pkt\<lparr>newflag := 0, isvalid := 0, data_size := 0\<rparr>, ?end)"
    by (subst feed_loop.simps) simp
  from a b d show ?thesis by simp
qed

subsection \<open>The answers of the device\<close>

text \<open>
  Each loop takes its answers from the front of the script, and an answer with a
  negative value and an \<open>errno\<close> other than \<open>EAGAIN\<close> ends it with \<open>PLAYER_WR_FAILED\<close>.
\<close>

lemma write_header_loop_answers:
  "write_header_loop hbuf sz len rs w = Some (r, rs', w')
     \<Longrightarrow> \<exists>c. rs = c @ rs'
            \<and> ((\<exists>a \<in> set c. fst a < 0 \<and> snd a \<noteq> EAGAIN) \<longrightarrow> r = PLAYER_WR_FAILED)"
proof (induction hbuf sz len rs w rule: write_header_loop.induct)
  case (1 hbuf sz len w)
  then show ?case by simp
next
  case (2 hbuf sz len write_bytes errno rs w)
  show ?case
  proof (cases "write_bytes < 0 \<or> write_bytes > sz - len")
    case True
    show ?thesis
    proof (cases "errno = EAGAIN")
      case e: True
      from "2.prems" True e have "write_header_loop hbuf sz len rs w = Some (r, rs', w')" by simp
      from "2.IH"(1) [OF True _ this] e obtain c where
        "rs = c @ rs'" "(\<exists>a \<in> set c. fst a < 0 \<and> snd a \<noteq> EAGAIN) \<longrightarrow> r = PLAYER_WR_FAILED"
        by auto
      then show ?thesis using e by (intro exI [of _ "(write_bytes, errno) # c"]) simp
    next
      case False
      with "2.prems" True show ?thesis
        by (intro exI [of _ "[(write_bytes, errno)]"]) auto
    qed
  next
    case False
    show ?thesis
    proof (cases "len + write_bytes = sz")
      case True
      with "2.prems" False show ?thesis
        by (intro exI [of _ "[(write_bytes, errno)]"]) auto
    next
      case ne: False
      from "2.prems" False ne
      have "write_header_loop hbuf sz (len + write_bytes) rs (w @ taken hbuf len write_bytes)
              = Some (r, rs', w')" by simp
      from "2.IH"(2) [OF False ne this] obtain c where
        "rs = c @ rs'" "(\<exists>a \<in> set c. fst a < 0 \<and> snd a \<noteq> EAGAIN) \<longrightarrow> r = PLAYER_WR_FAILED"
        by auto
      then show ?thesis using False by (intro exI [of _ "(write_bytes, errno) # c"]) auto
    qed
  qed
qed

lemma write_header_answers:
  "write_header para pkt rs w = Some (r, rs', w')
     \<Longrightarrow> \<exists>c. rs = c @ rs'
            \<and> ((\<exists>a \<in> set c. fst a < 0 \<and> snd a \<noteq> EAGAIN) \<longrightarrow> r = PLAYER_WR_FAILED)"
  unfolding write_header_def
  by (auto split: option.splits if_splits dest: write_header_loop_answers)

lemma write_data_loop_answers:
  "write_data_loop pkt sz len rs w = Some (r, pkt', rs', w')
     \<Longrightarrow> \<exists>c. rs = c @ rs'
            \<and> ((\<exists>a \<in> set c. fst a < 0 \<and> snd a \<noteq> EAGAIN) \<longrightarrow> r = PLAYER_WR_FAILED)"
proof (induction pkt sz len rs w rule: write_data_loop.induct)
  case (1 pkt sz len rs w)
  show ?case
  proof (cases "sz > 0 \<and> isvalid pkt \<noteq> 0")
    case False
    with "1.prems" show ?thesis by (subst (asm) write_data_loop.simps) auto
  next
    case True
    show ?thesis
    proof (cases rs)
      case Nil
      with "1.prems" True show ?thesis by (subst (asm) write_data_loop.simps) simp
    next
      case (Cons a rs1)
      obtain write_bytes errno where a: "a = (write_bytes, errno)" by (cases a)
      show ?thesis
      proof (cases "\<not> (write_bytes < 0 \<or> write_bytes > sz) \<and> len + write_bytes \<noteq> data_size pkt
                      \<and> len + write_bytes < data_size pkt")
        case False
        from "1.prems" True Cons a False have "rs' = rs1 \<and> (write_bytes < 0 \<and> errno \<noteq> EAGAIN \<longrightarrow> r = PLAYER_WR_FAILED)"
          by (subst (asm) write_data_loop.simps) (auto split: if_splits)
        then show ?thesis
          using Cons a by (intro exI [of _ "[(write_bytes, errno)]"]) auto
      next
        case rec: True
        from "1.prems" True Cons a rec
        have "write_data_loop pkt (sz - write_bytes) (len + write_bytes) rs1
                (w @ taken (data pkt) len write_bytes) = Some (r, pkt', rs', w')"
          by (subst (asm) write_data_loop.simps) simp
        from "1.IH" [OF True Cons a [symmetric] _ _ _ this] rec obtain c where
          "rs1 = c @ rs'" "(\<exists>a \<in> set c. fst a < 0 \<and> snd a \<noteq> EAGAIN) \<longrightarrow> r = PLAYER_WR_FAILED"
          by auto
        then show ?thesis
          using Cons a rec by (intro exI [of _ "(write_bytes, errno) # c"]) auto
      qed
    qed
  qed
qed


lemma write_av_packet_answers:
  assumes "write_av_packet para pkt dev = Some (r, pkt', dev')"
  shows "\<exists>c. wr_script dev = c @ wr_script dev'
           \<and> ((\<exists>a \<in> set c. fst a < 0 \<and> snd a \<noteq> EAGAIN) \<longrightarrow> r = PLAYER_WR_FAILED)"
proof -
  define after_header where "after_header =
        (if newflag pkt \<noteq> 0 then
           (if isvalid pkt \<noteq> 0 \<and> check_in_pts para dev pkt \<noteq> PLAYER_SUCCESS
            then Some (PLAYER_WR_FAILED, pkt, wr_script dev, written dev)
            else case write_header para pkt (wr_script dev) (written dev) of
                   None \<Rightarrow> None
                 | Some (r, rs, w) \<Rightarrow>
                     if r = PLAYER_WR_FAILED then Some (PLAYER_WR_FAILED, pkt, rs, w)
                     else Some (PLAYER_SUCCESS, pkt\<lparr>newflag := 0\<rparr>, rs, w))
         else Some (PLAYER_SUCCESS, pkt, wr_script dev, written dev))"
  obtain r1 pkt1 rs1 w1 where ah: "after_header = Some (r1, pkt1, rs1, w1)"
    using assms unfolding write_av_packet_def after_header_def [symmetric]
    by (cases after_header) (auto simp add: Let_def)
  have h: "\<exists>c. wr_script dev = c @ rs1
             \<and> ((\<exists>a \<in> set c. fst a < 0 \<and> snd a \<noteq> EAGAIN) \<longrightarrow> r1 = PLAYER_WR_FAILED)"
    using ah unfolding after_header_def
    by (auto split: if_splits option.splits dest!: write_header_answers)
  then obtain c1 where c1: "wr_script dev = c1 @ rs1"
      "(\<exists>a \<in> set c1. fst a < 0 \<and> snd a \<noteq> EAGAIN) \<longrightarrow> r1 = PLAYER_WR_FAILED"
    by blast
  show ?thesis
  proof (cases "r1 = PLAYER_SUCCESS")
    case False
    then have "r = r1" "wr_script dev' = rs1"
      using assms ah unfolding write_av_packet_def after_header_def [symmetric]
      by (auto simp add: Let_def)
    moreover have "r1 = PLAYER_WR_FAILED"
      using ah False unfolding after_header_def
      by (auto split: if_splits option.splits)
    ultimately show ?thesis using c1(1) by (intro exI [of _ c1]) simp
  next
    case True
    then obtain pkt2 where
      d: "write_data_loop pkt2 (data_size pkt1) 0 rs1 w1 = Some (r, pkt', wr_script dev', written dev')"
      using assms ah unfolding write_av_packet_def after_header_def [symmetric]
      by (auto simp add: Let_def split: option.splits)
    from write_data_loop_answers [OF d] obtain c2 where c2: "rs1 = c2 @ wr_script dev'"
      "(\<exists>a \<in> set c2. fst a < 0 \<and> snd a \<noteq> EAGAIN) \<longrightarrow> r = PLAYER_WR_FAILED"
      by blast
    have "\<not> (\<exists>a \<in> set c1. fst a < 0 \<and> snd a \<noteq> EAGAIN)"
      using c1(2) True by auto
    then show ?thesis
      using c1(1) c2 by (intro exI [of _ "c1 @ c2"]) auto
  qed
qed

lemma feed_loop_answers:
  "feed_loop para pkt dev loop ret = Some (l, r, pkt', dev')
     \<Longrightarrow> \<exists>c. wr_script dev = c @ wr_script dev'
            \<and> ((\<exists>a \<in> set c. fst a < 0 \<and> snd a \<noteq> EAGAIN) \<longrightarrow> r = PLAYER_WR_FAILED)"
proof (induction para pkt dev loop ret rule: feed_loop.induct)
  case (1 para pkt dev loop ret)
  show ?case
  proof (cases "isvalid pkt \<noteq> 0 \<and> loop < 100")
    case False
    with "1.prems" have "dev' = dev" by (subst (asm) feed_loop.simps) simp
    then show ?thesis by (intro exI [of _ "[]"]) simp
  next
    case True
    show ?thesis
    proof (cases "write_av_packet para pkt dev")
      case None
      with True "1.prems" show ?thesis by (subst (asm) feed_loop.simps) simp
    next
      case (Some a)
      obtain r1 pkt1 dev1 where a: "a = (r1, pkt1, dev1)" by (cases a)
      from write_av_packet_answers [of para pkt dev r1 pkt1 dev1] Some a
      obtain c1 where c1: "wr_script dev = c1 @ wr_script dev1"
        "(\<exists>a \<in> set c1. fst a < 0 \<and> snd a \<noteq> EAGAIN) \<longrightarrow> r1 = PLAYER_WR_FAILED"
        by auto
      show ?thesis
      proof (cases "r1 = PLAYER_SUCCESS")
        case False
        with True Some a "1.prems" have "r = r1" "dev' = dev1"
          by (subst (asm) feed_loop.simps; simp)+
        then show ?thesis using c1 by (intro exI [of _ c1]) simp
      next
        case r1: True
        have "feed_loop para pkt1 dev1 (loop + 1) r1 = Some (l, r, pkt', dev')"
          using True Some a r1 "1.prems"(1) by (subst (asm) feed_loop.simps) simp
        from "1.IH" [OF True Some _ _ _ this] a r1 obtain c2 where
          c2: "wr_script dev1 = c2 @ wr_script dev'"
          "(\<exists>a \<in> set c2. fst a < 0 \<and> snd a \<noteq> EAGAIN) \<longrightarrow> r = PLAYER_WR_FAILED"
          by auto
        have "\<not> (\<exists>a \<in> set c1. fst a < 0 \<and> snd a \<noteq> EAGAIN)"
          using c1(2) r1 by auto
        then show ?thesis
          using c1(1) c2 by (intro exI [of _ "c1 @ c2"]) auto
      qed
    qed
  qed
qed

text \<open>A call of \<open>write_av_packet\<close> that fails ends the loop before its counter moves.\<close>

lemma feed_loop_failure_early:
  "feed_loop para pkt dev loop ret = Some (l, r, pkt', dev') \<Longrightarrow> ret = PLAYER_SUCCESS
     \<Longrightarrow> r \<noteq> PLAYER_SUCCESS \<Longrightarrow> l < 100"
proof (induction para pkt dev loop ret rule: feed_loop.induct)
  case (1 para pkt dev loop ret)
  show ?case
  proof (cases "isvalid pkt \<noteq> 0 \<and> loop < 100")
    case False
    with "1.prems" show ?thesis by (subst (asm) feed_loop.simps) simp
  next
    case True
    show ?thesis
    proof (cases "write_av_packet para pkt dev")
      case None
      with True "1.prems" show ?thesis by (subst (asm) feed_loop.simps) simp
    next
      case (Some a)
      obtain r1 pkt1 dev1 where a: "a = (r1, pkt1, dev1)" by (cases a)
      show ?thesis
      proof (cases "r1 = PLAYER_SUCCESS")
        case False
        with True Some a "1.prems" show ?thesis by (subst (asm) feed_loop.simps) auto
      next
        case r1: True
        have "feed_loop para pkt1 dev1 (loop + 1) r1 = Some (l, r, pkt', dev')"
          using True Some a r1 "1.prems"(1) by (subst (asm) feed_loop.simps) simp
        with "1.IH" [OF True Some] a r1 "1.prems" show ?thesis by simp
      qed
    qed
  qed
qed


subsection \<open>The example session\<close>

lemma example_gate:
  "AddData_gate example_platform example_session (example_device 0 rs dq) (Some [1, 2, 3, 4]) 4
     = (False, example_session\<lparr>m_minimum_buffer_level := 5\<rparr>)"
  by (simp add: AddData_gate_def GetBufferLevel_def calc_chunk_size_def i32_def Let_def
        example_session_def example_device_def example_platform_def example_para_def)

lemma example_packet:
  "AddData_packet example_platform example_aom_lib
       (example_session\<lparr>m_minimum_buffer_level := 5\<rparr>) (Some [1, 2, 3, 4]) 4 0 0
     = Some (Inr example_packet_session)"
  by (simp add: AddData_packet_def AddData_data_def AddData_pts_def set_header_info_def
        i32_def Let_def UINT64_0_def PLAYER_SUCCESS_def
        example_session_def example_packet_session_def example_platform_def example_para_def
        am_packet_init_def)

lemma example_packet_fields:
  "isvalid (am_pkt (am_private example_packet_session)) \<noteq> 0"
  "data_size (am_pkt (am_private example_packet_session)) = 4"
  "hdr (am_pkt (am_private example_packet_session)) = None"
  "check_in_pts (am_private example_packet_session) (example_device used rs dq)
     (am_pkt (am_private example_packet_session)) = PLAYER_SUCCESS"
  "data (am_pkt (am_private example_packet_session)) = Some [1, 2, 3, 4]"
  by (simp_all add: example_packet_session_def example_session_def example_para_def
        am_packet_init_def check_in_pts_def UINT64_0_def example_device_def)

lemma example_device_script:
  "example_device used rs dq = (example_device used [] dq)\<lparr>wr_script := rs\<rparr>"
  by (simp add: example_device_def)

lemma example_feed_stalled:
  "feed_loop (am_private example_packet_session) (am_pkt (am_private example_packet_session))
     (example_device 0 (replicate 99 (- 1, EAGAIN) @ [(4, 0)]) []) 0 PLAYER_SUCCESS
   = Some (100, PLAYER_SUCCESS,
           (am_pkt (am_private example_packet_session))\<lparr>newflag := 0, isvalid := 0, data_size := 0\<rparr>,
           (example_device 0 [] [])\<lparr>written := [1, 2, 3, 4]\<rparr>)"
proof -
  let ?pkt = "am_pkt (am_private example_packet_session)"
  have 2: "0 < data_size ?pkt" by (simp add: example_packet_fields(2))
  note t = feed_loop_drains_at_bound [OF example_packet_fields(1) 2 example_packet_fields(3,4),
             where e = 0 and used1 = 0 and rs1 = "[]" and dq1 = "[]"]
  have e: "example_device 0 (replicate 99 (- 1, EAGAIN) @ [(4, 0)]) []
             = (example_device 0 [] [])\<lparr>wr_script := replicate 99 (- 1, EAGAIN) @ [(4, 0)]\<rparr>"
    by (rule example_device_script)
  have f: "(example_device 0 [] [])\<lparr>wr_script := [],
              written := written (example_device 0 [] []) @ taken (data ?pkt) 0 4\<rparr>
            = (example_device 0 [] [])\<lparr>written := [1, 2, 3, 4]\<rparr>"
    by (simp add: example_device_def example_packet_fields(5) taken_def)
  show ?thesis
    unfolding e using t by (simp only: example_packet_fields(2) f)
qed

text \<open>\<open>Reset\<close> on an open elementary stream of a format that has no header.\<close>

lemma Reset_plain:
  assumes "m_opened s" "malloc_ok pf (sizeof_hdr_buf_t pf)" "malloc_ok pf HDR_BUF_SIZE"
      and "am_private s = example_para\<lparr>am_pkt := pkt\<rparr>"
  shows "map_option (resets \<circ> snd) (Reset pf s dev) = Some (resets dev + 1)"
  using assms
  by (simp add: Reset_def pre_header_feeding_def alloc_pkt_hdr_def malloc_block_def
        example_para_def am_packet_init_def PLAYER_SUCCESS_def)

lemma write_av_packet_resets:
  "write_av_packet para pkt dev = Some (r, pkt', dev') \<Longrightarrow> resets dev' = resets dev"
  unfolding write_av_packet_def
  by (auto simp add: Let_def split: if_splits option.splits prod.splits)

lemma feed_loop_resets:
  "feed_loop para pkt dev loop ret = Some (l, r, pkt', dev') \<Longrightarrow> resets dev' = resets dev"
proof (induction para pkt dev loop ret rule: feed_loop.induct)
  case (1 para pkt dev loop ret)
  show ?case
  proof (cases "isvalid pkt \<noteq> 0 \<and> loop < 100")
    case False
    with "1.prems" show ?thesis by (subst (asm) feed_loop.simps) simp
  next
    case True
    show ?thesis
    proof (cases "write_av_packet para pkt dev")
      case None
      with True "1.prems" show ?thesis by (subst (asm) feed_loop.simps) simp
    next
      case (Some a)
      obtain r1 pkt1 dev1 where a: "a = (r1, pkt1, dev1)" by (cases a)
      have w: "resets dev1 = resets dev"
        using Some a write_av_packet_resets by simp
      show ?thesis
      proof (cases "r1 = PLAYER_SUCCESS")
        case False
        with True Some a "1.prems" w show ?thesis by (subst (asm) feed_loop.simps) auto
      next
        case r1: True
        have "feed_loop para pkt1 dev1 (loop + 1) r1 = Some (l, r, pkt', dev')"
          using True Some a r1 "1.prems"(1) by (subst (asm) feed_loop.simps) simp
        with "1.IH" [OF True Some] a r1 w show ?thesis by simp
      qed
    qed
  qed
qed

text \<open>A call of \<open>AddData\<close> that returns \<open>true\<close> has not reset the decoder.\<close>

lemma AddData_accepted_no_reset:
  assumes "AddData pf lib s dev pData iSize dts pts = Some (True, s', dev')"
  shows "resets dev' = resets dev"
proof (cases "AddData_gate pf s dev pData iSize")
  case (Pair rejected s1)
  show ?thesis
  proof (cases rejected)
    case True
    with assms Pair show ?thesis by (simp add: AddData_def)
  next
    case False
    from assms Pair False show ?thesis
      by (auto simp add: AddData_def dest: feed_loop_resets
          split: option.splits sum.splits prod.splits if_splits)
  qed
qed

text \<open>
  Claim C2. The loop of \<open>AddData\<close> runs at most 100 times, and \<open>Reset\<close> is called when
  its counter is 100 at the exit, whether or not the packet is still valid. On the example
  session, with a device that answers the first 99 writes of a 4-byte packet with
  \<open>EAGAIN\<close> and takes the 4 bytes at the 100th write, the loop ends with the counter at
  100 and the packet consumed (\<open>isvalid = 0\<close>, every answer of the device used, the four
  bytes taken by the device), and \<open>AddData\<close> returns \<open>false\<close> after one reset of the
  decoder.
\<close>

theorem AddData_resets_after_last_write:
  "feed_loop (am_private example_packet_session) (am_pkt (am_private example_packet_session))
     (example_device 0 (replicate 99 (- 1, EAGAIN) @ [(4, 0)]) []) 0 PLAYER_SUCCESS
   = Some (100, PLAYER_SUCCESS,
           (am_pkt (am_private example_packet_session))\<lparr>newflag := 0, isvalid := 0, data_size := 0\<rparr>,
           (example_device 0 [] [])\<lparr>written := [1, 2, 3, 4]\<rparr>)
   \<and> observed (AddData example_platform example_aom_lib example_session
                  (example_device 0 (replicate 99 (- 1, EAGAIN) @ [(4, 0)]) [])
                  (Some [1, 2, 3, 4]) 4 0 0)
       = Some (False, 1)"
proof -
  let ?dev = "example_device 0 (replicate 99 (- 1, EAGAIN) @ [(4, 0)]) []"
  let ?pkt = "(am_pkt (am_private example_packet_session))\<lparr>newflag := 0, isvalid := 0, data_size := 0\<rparr>"
  let ?end = "(example_device 0 [] [])\<lparr>written := [1, 2, 3, 4]\<rparr>"
  have r: "map_option (resets \<circ> snd)
             (Reset example_platform (fed example_packet_session ?pkt) ?end)
           = Some (resets ?end + 1)"
    by (rule Reset_plain [where pkt = ?pkt])
       (simp_all add: fed_def example_packet_session_def example_session_def
          example_platform_def)
  have g: "AddData example_platform example_aom_lib example_session ?dev (Some [1, 2, 3, 4]) 4 0 0
           = (case Reset example_platform (fed example_packet_session ?pkt) ?end of
                None \<Rightarrow> None
              | Some (s4, dev4) \<Rightarrow> Some (False, s4, dev4))"
    by (simp add: AddData_def example_gate example_packet example_feed_stalled)
  have z: "resets ?end = 0"
    by (simp add: example_device_def)
  obtain s4 dev4 where
    r': "Reset example_platform (fed example_packet_session ?pkt) ?end = Some (s4, dev4)"
    and n: "resets dev4 = 1"
    using r z by (cases "Reset example_platform (fed example_packet_session ?pkt) ?end") auto
  have "observed (AddData example_platform example_aom_lib example_session ?dev
                  (Some [1, 2, 3, 4]) 4 0 0) = Some (False, 1)"
    unfolding g r' using n by (simp add: observed_def)
  with example_feed_stalled show ?thesis by simp
qed


subsection \<open>Write failures\<close>

text \<open>
  A write that takes a part of the packet and then a write that fails with an error other
  than \<open>EAGAIN\<close>: the first call of \<open>write_av_packet\<close> returns \<open>PLAYER_WR_FAILED\<close>.
\<close>

lemma feed_loop_fatal_after_part:
  assumes "isvalid pkt \<noteq> 0" "hdr pkt = None"
      and "check_in_pts para dev pkt = PLAYER_SUCCESS"
      and "wr_script dev = (a, e0) # (x, e) # rs" "0 \<le> a" "a < data_size pkt"
      and "x < 0" "e \<noteq> EAGAIN"
  shows "feed_loop para pkt dev 0 PLAYER_SUCCESS
           = Some (0, PLAYER_WR_FAILED, pkt\<lparr>newflag := 0\<rparr>,
                   dev\<lparr>wr_script := rs, written := written dev @ taken (data pkt) 0 a\<rparr>)"
proof -
  have w: "write_av_packet para pkt dev
             = Some (PLAYER_WR_FAILED, pkt\<lparr>newflag := 0\<rparr>,
                     dev\<lparr>wr_script := rs, written := written dev @ taken (data pkt) 0 a\<rparr>)"
  proof (cases "newflag pkt = 0")
    case True
    have e: "pkt\<lparr>newflag := 0\<rparr> = pkt" using True by (cases pkt) simp
    show ?thesis
      using assms True
      by (simp add: e write_av_packet_def write_header_def write_data_loop.simps)
  next
    case False
    show ?thesis
      using assms False
      by (simp add: write_av_packet_def write_header_def write_data_loop.simps)
  qed
  show ?thesis
    using assms(1) by (subst feed_loop.simps) (simp add: w)
qed

lemma AddData_data_early:
  "AddData_data pf para pData iSize = Some (Inl (ret, para')) \<Longrightarrow> ret < 0"
  unfolding AddData_data_def
  by (auto simp add: Let_def split: if_splits option.splits prod.splits)

lemma AddData_packet_early:
  "AddData_packet pf lib s pData iSize dts pts = Some (Inl (ret, s')) \<Longrightarrow> ret < 0"
  unfolding AddData_packet_def
  by (auto simp add: Let_def dest: AddData_data_early split: option.splits sum.splits prod.splits)

text \<open>
  Claim C10. \<open>AddData\<close> has passed its gate and prepared the packet, and its loop has run.
  If one of the answers that the device gave to the calls of \<open>codec_write\<close> of this loop,
  for the header or for the data of the packet, after any number of writes that were
  taken or would block, has a negative value and an \<open>errno\<close> other than \<open>EAGAIN\<close>, then
  the last call of \<open>write_av_packet\<close> has returned \<open>PLAYER_WR_FAILED\<close>, the counter of the
  loop is below 100 and \<open>AddData\<close> returns \<open>true\<close>. And whenever \<open>AddData\<close> returns
  \<open>false\<close>, either the gate has rejected the data or the loop has ended with its counter
  at 100.
\<close>

theorem write_failure_not_reported:
  "(\<not> fst (AddData_gate pf s dev pData iSize)
      \<and> AddData_packet pf lib (snd (AddData_gate pf s dev pData iSize)) pData iSize dts pts
          = Some (Inr s2)
      \<and> feed_loop (am_private s2) (am_pkt (am_private s2)) dev 0 PLAYER_SUCCESS
          = Some (loop, ret, pkt, dev')
      \<and> wr_script dev = answers @ wr_script dev'
      \<and> (x, e) \<in> set answers \<and> x < 0 \<and> e \<noteq> EAGAIN
    \<longrightarrow> ret = PLAYER_WR_FAILED \<and> loop < 100
        \<and> AddData pf lib s dev pData iSize dts pts = Some (True, fed s2 pkt, dev'))
   \<and> (AddData pf lib s dev pData iSize dts pts = Some (False, s', dev'')
    \<longrightarrow> fst (AddData_gate pf s dev pData iSize)
        \<or> (\<exists>s3 r p d.
              AddData_packet pf lib (snd (AddData_gate pf s dev pData iSize)) pData iSize dts pts
                = Some (Inr s3)
              \<and> feed_loop (am_private s3) (am_pkt (am_private s3)) dev 0 PLAYER_SUCCESS
                  = Some (100, r, p, d)))"
proof (intro conjI impI)
  assume h: "\<not> fst (AddData_gate pf s dev pData iSize)
      \<and> AddData_packet pf lib (snd (AddData_gate pf s dev pData iSize)) pData iSize dts pts
          = Some (Inr s2)
      \<and> feed_loop (am_private s2) (am_pkt (am_private s2)) dev 0 PLAYER_SUCCESS
          = Some (loop, ret, pkt, dev')
      \<and> wr_script dev = answers @ wr_script dev'
      \<and> (x, e) \<in> set answers \<and> x < 0 \<and> e \<noteq> EAGAIN"
  then have f: "feed_loop (am_private s2) (am_pkt (am_private s2)) dev 0 PLAYER_SUCCESS
          = Some (loop, ret, pkt, dev')" by simp
  from feed_loop_answers [OF f] obtain c where
    c: "wr_script dev = c @ wr_script dev'"
       "(\<exists>a \<in> set c. fst a < 0 \<and> snd a \<noteq> EAGAIN) \<longrightarrow> ret = PLAYER_WR_FAILED"
    by blast
  have "c = answers" using c(1) h by simp
  moreover have "fst (x, e) < 0 \<and> snd (x, e) \<noteq> EAGAIN" using h by simp
  ultimately have "\<exists>a \<in> set c. fst a < 0 \<and> snd a \<noteq> EAGAIN" using h by blast
  then show r: "ret = PLAYER_WR_FAILED" using c(2) by simp
  show l: "loop < 100"
    using feed_loop_failure_early [OF f] r by simp
  from h l show "AddData pf lib s dev pData iSize dts pts = Some (True, fed s2 pkt, dev')"
    by (cases "AddData_gate pf s dev pData iSize") (simp add: AddData_def)
next
  assume f: "AddData pf lib s dev pData iSize dts pts = Some (False, s', dev'')"
  show "fst (AddData_gate pf s dev pData iSize)
        \<or> (\<exists>s3 r p d.
              AddData_packet pf lib (snd (AddData_gate pf s dev pData iSize)) pData iSize dts pts
                = Some (Inr s3)
              \<and> feed_loop (am_private s3) (am_pkt (am_private s3)) dev 0 PLAYER_SUCCESS
                  = Some (100, r, p, d))"
  proof (cases "AddData_gate pf s dev pData iSize")
    case (Pair rejected s1)
    show ?thesis
    proof (cases rejected)
      case True
      with Pair show ?thesis by simp
    next
      case False
      from f Pair False show ?thesis
        by (auto simp add: AddData_def dest: AddData_packet_early
            split: option.splits sum.splits prod.splits if_splits)
    qed
  qed
qed

lemma example_feed_fatal:
  "feed_loop (am_private example_packet_session) (am_pkt (am_private example_packet_session))
     (example_device 0 [(2, 0), (- 1, 5)] []) 0 PLAYER_SUCCESS
   = Some (0, PLAYER_WR_FAILED, (am_pkt (am_private example_packet_session))\<lparr>newflag := 0\<rparr>,
           (example_device 0 [] [])\<lparr>written := [1, 2]\<rparr>)"
proof -
  let ?pkt = "am_pkt (am_private example_packet_session)"
  let ?dev = "example_device 0 [(2, 0), (- 1, 5)] []"
  have s: "wr_script ?dev = (2, 0) # (- 1, 5) # []" by (simp add: example_device_def)
  have f: "?dev\<lparr>wr_script := [], written := written ?dev @ taken (data ?pkt) 0 2\<rparr>
             = (example_device 0 [] [])\<lparr>written := [1, 2]\<rparr>"
    by (simp add: example_device_def example_packet_fields(5) taken_def)
  have "feed_loop (am_private example_packet_session) ?pkt ?dev 0 PLAYER_SUCCESS
          = Some (0, PLAYER_WR_FAILED, ?pkt\<lparr>newflag := 0\<rparr>,
                  ?dev\<lparr>wr_script := [], written := written ?dev @ taken (data ?pkt) 0 2\<rparr>)"
    by (rule feed_loop_fatal_after_part
              [OF example_packet_fields(1) example_packet_fields(3) example_packet_fields(4) s])
       (simp_all add: example_packet_fields(2) EAGAIN_def)
  then show ?thesis by (simp only: f)
qed

theorem write_failure_not_reported_witness:
  "\<not> fst (AddData_gate example_platform example_session
             (example_device 0 [(2, 0), (- 1, 5)] []) (Some [1, 2, 3, 4]) 4)
   \<and> AddData_packet example_platform example_aom_lib
         (snd (AddData_gate example_platform example_session
                 (example_device 0 [(2, 0), (- 1, 5)] []) (Some [1, 2, 3, 4]) 4))
         (Some [1, 2, 3, 4]) 4 0 0
       = Some (Inr example_packet_session)
   \<and> feed_loop (am_private example_packet_session) (am_pkt (am_private example_packet_session))
         (example_device 0 [(2, 0), (- 1, 5)] []) 0 PLAYER_SUCCESS
       = Some (0, PLAYER_WR_FAILED,
               (am_pkt (am_private example_packet_session))\<lparr>newflag := 0\<rparr>,
               (example_device 0 [] [])\<lparr>written := [1, 2]\<rparr>)
   \<and> wr_script (example_device 0 [(2, 0), (- 1, 5)] [])
       = [(2, 0), (- 1, 5)] @ wr_script ((example_device 0 [] [])\<lparr>written := [1, 2]\<rparr>)
   \<and> (- 1, 5) \<in> set [(2, 0), (- 1, 5 :: int)] \<and> (- 1 :: int) < 0 \<and> 5 \<noteq> EAGAIN
   \<and> (0 :: nat) < 100
   \<and> AddData example_platform example_aom_lib example_session
         (example_device 0 [(2, 0), (- 1, 5)] []) (Some [1, 2, 3, 4]) 4 0 0
       = Some (True,
               fed example_packet_session
                 ((am_pkt (am_private example_packet_session))\<lparr>newflag := 0\<rparr>),
               (example_device 0 [] [])\<lparr>written := [1, 2]\<rparr>)
   \<and> AddData example_platform example_aom_lib example_session
         (example_device 8388608 [] []) (Some [1, 2, 3, 4]) 4 0 0
       = Some (False, example_session\<lparr>m_buffer_level_ready := True, m_minimum_buffer_level := 5\<rparr>,
               example_device 8388608 [] [])
   \<and> fst (AddData_gate example_platform example_session
             (example_device 8388608 [] []) (Some [1, 2, 3, 4]) 4)"
proof -
  let ?dev = "example_device 0 [(2, 0), (- 1, 5)] []"
  let ?end = "(example_device 0 [] [])\<lparr>written := [1, 2]\<rparr>"
  let ?full = "example_device 8388608 [] []"
  let ?pkt = "(am_pkt (am_private example_packet_session))\<lparr>newflag := 0\<rparr>"
  have 1: "\<not> fst (AddData_gate example_platform example_session ?dev (Some [1, 2, 3, 4]) 4)"
    by (simp add: example_gate)
  have 2: "AddData_packet example_platform example_aom_lib
             (snd (AddData_gate example_platform example_session ?dev (Some [1, 2, 3, 4]) 4))
             (Some [1, 2, 3, 4]) 4 0 0
           = Some (Inr example_packet_session)"
    by (simp add: example_gate example_packet)
  note 3 = example_feed_fatal
  have 4: "wr_script ?dev = [(2, 0), (- 1, 5)] @ wr_script ?end"
    by (simp add: example_device_def)
  have 5: "(- 1, 5) \<in> set [(2, 0), (- 1, 5 :: int)]" "(- 1 :: int) < 0" "5 \<noteq> EAGAIN"
    by (simp_all add: EAGAIN_def)
  have 6: "AddData_gate example_platform example_session ?full (Some [1, 2, 3, 4]) 4
             = (True, example_session\<lparr>m_buffer_level_ready := True,
                                       m_minimum_buffer_level := 5\<rparr>)"
    by (simp add: AddData_gate_def GetBufferLevel_def calc_chunk_size_def i32_def Let_def
          example_session_def example_device_def example_platform_def example_para_def)
  have 7: "AddData example_platform example_aom_lib example_session ?full
             (Some [1, 2, 3, 4]) 4 0 0
           = Some (False, example_session\<lparr>m_buffer_level_ready := True,
                                           m_minimum_buffer_level := 5\<rparr>, ?full)"
    by (simp add: AddData_def 6)
  note a = write_failure_not_reported [where pf = example_platform and s = example_session
             and dev = ?dev and pData = "Some [1, 2, 3, 4]" and iSize = 4
             and lib = example_aom_lib and dts = 0 and pts = 0 and ?s2.0 = example_packet_session
             and loop = 0 and ret = PLAYER_WR_FAILED and pkt = ?pkt and dev' = ?end
             and answers = "[(2, 0), (- 1, 5)]" and x = "- 1" and e = 5]
  note b = write_failure_not_reported [where pf = example_platform and s = example_session
             and dev = ?full and pData = "Some [1, 2, 3, 4]" and iSize = 4
             and lib = example_aom_lib and dts = 0 and pts = 0
             and s' = "example_session\<lparr>m_buffer_level_ready := True,
                                        m_minimum_buffer_level := 5\<rparr>" and dev'' = ?full]
  from a 1 2 3 4 5 have 8: "AddData example_platform example_aom_lib example_session ?dev
         (Some [1, 2, 3, 4]) 4 0 0 = Some (True, fed example_packet_session ?pkt, ?end)"
    by blast
  from b 7 6 have 9: "fst (AddData_gate example_platform example_session ?full
                             (Some [1, 2, 3, 4]) 4)"
    by simp
  from 1 2 3 4 5 7 8 9 show ?thesis by simp
qed

section \<open>The MJPEG header\<close>

text \<open>Answers that would block do not stop the loop of \<open>write_header\<close>.\<close>

lemma write_header_loop_would_block:
  "write_header_loop hbuf sz len (replicate k (- 1, EAGAIN) @ rs) w
     = write_header_loop hbuf sz len rs w"
  by (induction k) simp_all

text \<open>A device that takes the whole header at once.\<close>

lemma write_header_loop_all:
  assumes "0 < sz" and "hbuf = Some (h @ rest)" and "int (length h) = sz"
  shows "write_header_loop hbuf sz 0 (replicate k (- 1, EAGAIN) @ (sz, e) # rs) w
           = Some (PLAYER_SUCCESS, rs, w @ h)"
  using assms by (simp add: write_header_loop_would_block taken_def)

text \<open>\<open>pre_header_feeding\<close> on a fresh packet of an MJPEG stream.\<close>

lemma pre_header_feeding_mjpeg:
  assumes es: "stream_type para = AM_STREAM_ES" and mj: "video_format para = VFORMAT_MJPEG"
      and tag: "video_codec_tag para = CODEC_TAG_OTHER"
      and mem: "malloc_ok pf (sizeof_hdr_buf_t pf)" "malloc_ok pf HDR_BUF_SIZE"
      and scr: "wr_script dev = replicate k (- 1, EAGAIN) @ (422, e) # rs"
  shows "pre_header_feeding pf para (am_packet_init\<lparr>codec := True\<rparr>) dev
           = Some (PLAYER_SUCCESS, para, am_packet_init\<lparr>codec := True\<rparr>,
                   dev\<lparr>wr_script := rs, written := written dev @ mjpeg_addon_data\<rparr>)"
proof -
  define blk where "blk = map (fresh pf) [0..<HDR_BUF_SIZE]"
  have lb: "length blk = 1024" by (simp add: blk_def HDR_BUF_SIZE_def)
  have mb: "malloc_block pf HDR_BUF_SIZE = Some blk"
    using mem(2) by (simp add: malloc_block_def blk_def)
  let ?pkt0 = "am_packet_init\<lparr>codec := True\<rparr>"
  let ?pkt1 = "?pkt0\<lparr>hdr := Some \<lparr>hdr_data = Some blk, hdr_size = fresh_int pf\<rparr>\<rparr>"
  have al: "alloc_pkt_hdr pf ?pkt0 = Some (True, ?pkt1)"
    using mem(1) by (simp add: alloc_pkt_hdr_def mb am_packet_init_def)
  define hb where "hb = mjpeg_addon_data @ drop 422 blk"
  have cp: "memcpy_at blk 0 mjpeg_addon_data = Some hb"
    using memcpy_at_0 [of mjpeg_addon_data blk] lb
    by (simp add: length_mjpeg_addon_data hb_def)
  let ?pkt2 = "?pkt0\<lparr>hdr := Some \<lparr>hdr_data = Some hb, hdr_size = 422\<rparr>\<rparr>"
  have pf: "mjpeg_data_prefeeding ?pkt1 = Some (PLAYER_SUCCESS, ?pkt2)"
    by (simp add: mjpeg_data_prefeeding_def cp length_mjpeg_addon_data)
  have wl: "write_header_loop (Some hb) 422 0 (replicate k (- 1, EAGAIN) @ (422, e) # rs) (written dev)
              = Some (PLAYER_SUCCESS, rs, written dev @ mjpeg_addon_data)"
    by (rule write_header_loop_all [where rest = "drop 422 blk"])
       (simp_all add: hb_def length_mjpeg_addon_data)
  have wr: "write_av_packet para (?pkt2\<lparr>codec := True, newflag := 1\<rparr>) dev
              = Some (PLAYER_SUCCESS, ?pkt2\<lparr>codec := True, newflag := 0\<rparr>,
                      dev\<lparr>wr_script := rs, written := written dev @ mjpeg_addon_data\<rparr>)"
    using mj
    by (simp add: write_av_packet_def write_header_def scr wl write_data_loop.simps
          am_packet_init_def)
  have mw: "mjpeg_write_header para ?pkt1 dev
              = Some (PLAYER_SUCCESS, ?pkt2\<lparr>codec := True, newflag := 0\<rparr>,
                      dev\<lparr>wr_script := rs, written := written dev @ mjpeg_addon_data\<rparr>)"
    using pf wr by (simp add: mjpeg_write_header_def)
  show ?thesis
    using es mj tag al mw
    by (simp add: pre_header_feeding_def am_packet_init_def)
qed

lemma OpenDecoder_feed_mjpeg:
  assumes mj: "mjpeg_session s" and fresh: "am_pkt (am_private s) = am_packet_init"
      and mem: "malloc_ok pf (sizeof_hdr_buf_t pf)" "malloc_ok pf HDR_BUF_SIZE"
      and scr: "wr_script dev = replicate k (- 1, EAGAIN) @ (422, e) # rs"
  shows "OpenDecoder_feed pf s dev
           = Some (OpenDecoder_members pf
                     (s\<lparr>am_private := (am_private s)
                          \<lparr>hdr_buf := \<lparr>hdr_data = None, hdr_size = 0\<rparr>,
                           am_pkt := am_packet_init\<lparr>codec := True\<rparr>\<rparr>\<rparr>),
                   dev\<lparr>wr_script := rs, written := written dev @ mjpeg_addon_data\<rparr>)"
proof -
  let ?para = "(am_private s)\<lparr>am_pkt := (am_pkt (am_private s))\<lparr>codec := True\<rparr>,
                                hdr_buf := \<lparr>hdr_data = None, hdr_size = 0\<rparr>\<rparr>"
  have p: "pre_header_feeding pf ?para (am_packet_init\<lparr>codec := True\<rparr>) dev
             = Some (PLAYER_SUCCESS, ?para, am_packet_init\<lparr>codec := True\<rparr>,
                     dev\<lparr>wr_script := rs, written := written dev @ mjpeg_addon_data\<rparr>)"
    using pre_header_feeding_mjpeg [OF _ _ _ mem scr, of ?para] mj
    by (simp add: mjpeg_session_def)
  show ?thesis
    using p by (simp add: OpenDecoder_feed_def fresh Let_def)
qed

text \<open>
  \<open>AddData\<close> up to its loop when no extradata wait and the format has no header of its own.
\<close>

lemma AddData_gate_snd:
  "am_private (snd (AddData_gate pf s dev pData iSize)) = am_private s"
  "m_opened (snd (AddData_gate pf s dev pData iSize)) = m_opened s"
  by (cases "GetBufferLevel pf dev (calc_chunk_size (i32 (int iSize)))";
      simp add: AddData_gate_def Let_def)+

lemma AddData_packet_plain:
  assumes "video_format (am_private s) = VFORMAT_MJPEG" "hdr_size (hdr_buf (am_private s)) = 0"
  shows "\<exists>s2. AddData_packet pf lib s pData iSize dts pts = Some (Inr s2)
           \<and> stream_type (am_private s2) = stream_type (am_private s)
           \<and> video_format (am_private s2) = video_format (am_private s)
           \<and> video_codec_tag (am_private s2) = video_codec_tag (am_private s)
           \<and> hdr_buf (am_private s2) = hdr_buf (am_private s)
           \<and> isvalid (am_pkt (am_private s2)) = 1
           \<and> data (am_pkt (am_private s2)) = pData
           \<and> data_size (am_pkt (am_private s2)) = i32 (int iSize)
           \<and> hdr (am_pkt (am_private s2)) = hdr (am_pkt (am_private s))
           \<and> m_opened s2 = m_opened s"
  using assms
  by (simp add: AddData_packet_def AddData_data_def AddData_pts_def set_header_info_def Let_def)


text \<open>A frame that the device takes in one write is written as it is.\<close>

lemma AddData_plain_frame:
  assumes mj: "mjpeg_session s" and hd: "headers_done s"
      and gate: "\<not> fst (AddData_gate pf s dev (Some frame) (length frame))"
      and fr: "0 < length frame" "length frame < 2 ^ 31"
      and ck: "\<forall>t. checkin_pts dev t = 0"
      and scr: "wr_script dev = (int (length frame), e) # rs"
  shows "\<exists>s'. AddData pf lib s dev (Some frame) (length frame) dts pts
                = Some (True, s', dev\<lparr>wr_script := rs, written := written dev @ frame\<rparr>)
              \<and> mjpeg_session s' \<and> headers_done s'"
proof -
  define s1 where "s1 = snd (AddData_gate pf s dev (Some frame) (length frame))"
  have g: "AddData_gate pf s dev (Some frame) (length frame) = (False, s1)"
    using gate by (cases "AddData_gate pf s dev (Some frame) (length frame)") (simp add: s1_def)
  have p1: "am_private s1 = am_private s" and o1: "m_opened s1 = m_opened s"
    unfolding s1_def by (rule AddData_gate_snd)+
  have f1: "video_format (am_private s1) = VFORMAT_MJPEG"
    and h1: "hdr_size (hdr_buf (am_private s1)) = 0"
    using mj hd by (simp_all add: p1 mjpeg_session_def headers_done_def)
  obtain s2 where
    pk: "AddData_packet pf lib s1 (Some frame) (length frame) dts pts = Some (Inr s2)"
    and p2: "stream_type (am_private s2) = stream_type (am_private s1)"
        "video_format (am_private s2) = video_format (am_private s1)"
        "video_codec_tag (am_private s2) = video_codec_tag (am_private s1)"
        "hdr_buf (am_private s2) = hdr_buf (am_private s1)"
    and v2: "isvalid (am_pkt (am_private s2)) = 1"
    and d2: "data (am_pkt (am_private s2)) = Some frame"
    and z2: "data_size (am_pkt (am_private s2)) = i32 (int (length frame))"
    and hh: "hdr (am_pkt (am_private s2)) = hdr (am_pkt (am_private s1))"
    and o2: "m_opened s2 = m_opened s1"
    using AddData_packet_plain [OF f1 h1, of pf lib "Some frame" "length frame" dts pts] by blast
  let ?para = "am_private s2" and ?pkt = "am_pkt (am_private s2)"
  have "int (length frame) < 2 ^ 31" using fr(2) by (rule int_less_power)
  then have sz: "data_size ?pkt = int (length frame)"
    unfolding z2 by (intro i32_id) simp_all
  have h2: "hdr ?pkt = None" using hd by (simp add: hh p1 headers_done_def)
  have c: "check_in_pts ?para dev ?pkt = PLAYER_SUCCESS"
    using ck by (simp add: check_in_pts_def)
  let ?pkt3 = "?pkt\<lparr>newflag := 0, isvalid := 0, data_size := 0\<rparr>"
  let ?dev3 = "dev\<lparr>wr_script := rs, written := written dev @ frame\<rparr>"
  have tk: "taken (data ?pkt) 0 (int (length frame)) = frame"
    by (simp add: d2 taken_def)
  have w: "write_av_packet ?para ?pkt dev = Some (PLAYER_SUCCESS, ?pkt3, ?dev3)"
    using write_av_packet_all [of ?pkt ?para dev e rs] v2 sz fr(1) h2 c scr
    by (simp add: tk)
  have l2: "feed_loop ?para ?pkt3 ?dev3 (Suc 0) PLAYER_SUCCESS
              = Some (Suc 0, PLAYER_SUCCESS, ?pkt3, ?dev3)"
    by (subst feed_loop.simps) simp
  have l1: "feed_loop ?para ?pkt dev 0 PLAYER_SUCCESS = Some (Suc 0, PLAYER_SUCCESS, ?pkt3, ?dev3)"
    using v2 w l2 by (subst feed_loop.simps) simp
  have res: "AddData pf lib s dev (Some frame) (length frame) dts pts
               = Some (True, fed s2 ?pkt3, ?dev3)"
    by (simp add: AddData_def g pk l1)
  have "mjpeg_session (fed s2 ?pkt3)"
    using mj by (simp add: mjpeg_session_def fed_def p2 p1)
  moreover have "headers_done (fed s2 ?pkt3)"
    using hd h2 by (simp add: headers_done_def fed_def p2 p1 o1 o2)
  ultimately show ?thesis using res by blast
qed


text \<open>
  Claim C9 (amended). On an elementary stream of MJPEG pictures whose codec tag selects no
  other header, with the packet as \<open>am_packet_init\<close> left it, the end of \<open>OpenDecoder\<close>
  writes to a device that takes 422 bytes at once, after any number of answers that
  would block, exactly the table \<open>mjpeg_addon_data\<close>: 422 bytes (not 624) that depend
  on nothing of the session. It leaves the session open without a header in the packet
  and without extradata. On such a session, \<open>AddData\<close> writes a frame that passes the
  gate, and that the device takes in one write, as it is and leaves the session such:
  the table is in front of the first frame and of no other.
\<close>

theorem mjpeg_header_fed_once:
  "(mjpeg_session s0 \<and> am_pkt (am_private s0) = am_packet_init
      \<and> malloc_ok pf (sizeof_hdr_buf_t pf) \<and> malloc_ok pf HDR_BUF_SIZE
      \<and> wr_script dev0 = replicate k (- 1, EAGAIN) @ (422, e0) # rs0
    \<longrightarrow> (\<exists>s1. OpenDecoder_feed pf s0 dev0
                  = Some (s1, dev0\<lparr>wr_script := rs0,
                                     written := written dev0 @ mjpeg_addon_data\<rparr>)
               \<and> mjpeg_session s1 \<and> headers_done s1)
        \<and> length mjpeg_addon_data = 422)
   \<and> (mjpeg_session s \<and> headers_done s
      \<and> \<not> fst (AddData_gate pf s dev (Some frame) (length frame))
      \<and> 0 < length frame \<and> length frame < 2 ^ 31
      \<and> (\<forall>t. checkin_pts dev t = 0)
      \<and> wr_script dev = (int (length frame), e) # rs
    \<longrightarrow> (\<exists>s'. AddData pf lib s dev (Some frame) (length frame) dts pts
                  = Some (True, s', dev\<lparr>wr_script := rs, written := written dev @ frame\<rparr>)
               \<and> mjpeg_session s' \<and> headers_done s'))"
proof (intro conjI impI)
  assume h: "mjpeg_session s0 \<and> am_pkt (am_private s0) = am_packet_init
      \<and> malloc_ok pf (sizeof_hdr_buf_t pf) \<and> malloc_ok pf HDR_BUF_SIZE
      \<and> wr_script dev0 = replicate k (- 1, EAGAIN) @ (422, e0) # rs0"
  let ?s1 = "OpenDecoder_members pf
               (s0\<lparr>am_private := (am_private s0)
                     \<lparr>hdr_buf := \<lparr>hdr_data = None, hdr_size = 0\<rparr>,
                      am_pkt := am_packet_init\<lparr>codec := True\<rparr>\<rparr>\<rparr>)"
  have o: "OpenDecoder_feed pf s0 dev0
             = Some (?s1, dev0\<lparr>wr_script := rs0, written := written dev0 @ mjpeg_addon_data\<rparr>)"
    using h by (intro OpenDecoder_feed_mjpeg) simp_all
  have "mjpeg_session ?s1"
    using h by (simp add: mjpeg_session_def OpenDecoder_members_def)
  moreover have "headers_done ?s1"
    by (simp add: headers_done_def OpenDecoder_members_def am_packet_init_def)
  ultimately show "\<exists>s1. OpenDecoder_feed pf s0 dev0
                  = Some (s1, dev0\<lparr>wr_script := rs0,
                                     written := written dev0 @ mjpeg_addon_data\<rparr>)
               \<and> mjpeg_session s1 \<and> headers_done s1"
    using o by blast
next
  show "length mjpeg_addon_data = 422" by (rule length_mjpeg_addon_data)
next
  assume h: "mjpeg_session s \<and> headers_done s
      \<and> \<not> fst (AddData_gate pf s dev (Some frame) (length frame))
      \<and> 0 < length frame \<and> length frame < 2 ^ 31
      \<and> (\<forall>t. checkin_pts dev t = 0)
      \<and> wr_script dev = (int (length frame), e) # rs"
  then show "\<exists>s'. AddData pf lib s dev (Some frame) (length frame) dts pts
                  = Some (True, s', dev\<lparr>wr_script := rs, written := written dev @ frame\<rparr>)
               \<and> mjpeg_session s' \<and> headers_done s'"
    by (intro AddData_plain_frame) simp_all
qed

lemma example_mjpeg_facts:
  "mjpeg_session example_mjpeg_session" "am_pkt (am_private example_mjpeg_session) = am_packet_init"
  "mjpeg_session example_mjpeg_opened" "headers_done example_mjpeg_opened"
  by (simp_all add: mjpeg_session_def headers_done_def example_mjpeg_session_def
        example_mjpeg_opened_def example_session_def example_para_def am_packet_init_def)

lemma example_mjpeg_gate:
  "\<not> fst (AddData_gate example_platform example_mjpeg_opened
            ((example_device 0 rs dq)\<lparr>written := w\<rparr>) (Some [1, 2, 3, 4]) 4)"
  by (simp add: AddData_gate_def GetBufferLevel_def calc_chunk_size_def i32_def Let_def
        example_mjpeg_opened_def example_session_def example_device_def example_platform_def
        example_para_def)

theorem mjpeg_header_fed_once_witness:
  "mjpeg_session example_mjpeg_session
   \<and> am_pkt (am_private example_mjpeg_session) = am_packet_init
   \<and> malloc_ok example_platform (sizeof_hdr_buf_t example_platform)
   \<and> malloc_ok example_platform HDR_BUF_SIZE
   \<and> wr_script (example_device 0 [(- 1, EAGAIN), (422, 0), (4, 0)] [])
       = replicate 1 (- 1, EAGAIN) @ (422, 0) # [(4, 0)]
   \<and> (\<exists>s1. OpenDecoder_feed example_platform example_mjpeg_session
                (example_device 0 [(- 1, EAGAIN), (422, 0), (4, 0)] [])
              = Some (s1, (example_device 0 [(4, 0)] [])\<lparr>written := mjpeg_addon_data\<rparr>)
            \<and> mjpeg_session s1 \<and> headers_done s1)
   \<and> length mjpeg_addon_data = 422
   \<and> mjpeg_session example_mjpeg_opened \<and> headers_done example_mjpeg_opened
   \<and> \<not> fst (AddData_gate example_platform example_mjpeg_opened
              ((example_device 0 [(4, 0)] [])\<lparr>written := mjpeg_addon_data\<rparr>)
              (Some [1, 2, 3, 4]) (length [1, 2, 3, 4 :: byte]))
   \<and> 0 < length [1, 2, 3, 4 :: byte] \<and> length [1, 2, 3, 4 :: byte] < 2 ^ 31
   \<and> (\<forall>t. checkin_pts ((example_device 0 [(4, 0)] [])\<lparr>written := mjpeg_addon_data\<rparr>) t = 0)
   \<and> wr_script ((example_device 0 [(4, 0)] [])\<lparr>written := mjpeg_addon_data\<rparr>)
       = (int (length [1, 2, 3, 4 :: byte]), 0) # []
   \<and> (\<exists>s'. AddData example_platform example_aom_lib example_mjpeg_opened
                ((example_device 0 [(4, 0)] [])\<lparr>written := mjpeg_addon_data\<rparr>)
                (Some [1, 2, 3, 4]) (length [1, 2, 3, 4 :: byte]) 0 0
              = Some (True, s',
                      (example_device 0 [] [])\<lparr>written := mjpeg_addon_data @ [1, 2, 3, 4]\<rparr>)
            \<and> mjpeg_session s' \<and> headers_done s')"
proof -
  let ?dev0 = "example_device 0 [(- 1, EAGAIN), (422, 0), (4, 0)] []"
  let ?dev1 = "(example_device 0 [(4, 0)] [])\<lparr>written := mjpeg_addon_data\<rparr>"
  let ?dev2 = "(example_device 0 [] [])\<lparr>written := mjpeg_addon_data @ [1, 2, 3, 4]\<rparr>"
  let ?f = "[1, 2, 3, 4] :: byte list"
  note 1 = example_mjpeg_facts(1) and 2 = example_mjpeg_facts(2)
  have 3: "malloc_ok example_platform (sizeof_hdr_buf_t example_platform)"
    and 4: "malloc_ok example_platform HDR_BUF_SIZE"
    by (simp_all add: example_platform_def)
  have 5: "wr_script ?dev0 = replicate 1 (- 1, EAGAIN) @ (422, 0) # [(4, 0)]"
    by (simp add: example_device_def)
  have e1: "?dev0\<lparr>wr_script := [(4, 0)], written := written ?dev0 @ mjpeg_addon_data\<rparr> = ?dev1"
    by (simp add: example_device_def)
  note 6 = example_mjpeg_facts(3) and 7 = example_mjpeg_facts(4)
  have l4: "length ?f = 4" by simp
  have 8: "\<not> fst (AddData_gate example_platform example_mjpeg_opened ?dev1 (Some ?f) (length ?f))"
    unfolding l4 by (rule example_mjpeg_gate)
  have 9: "0 < length ?f" and 10: "length ?f < 2 ^ 31" by simp_all
  have 11: "\<forall>t. checkin_pts ?dev1 t = 0" by (simp add: example_device_def)
  have 12: "wr_script ?dev1 = (int (length ?f), 0) # []" by (simp add: example_device_def)
  have e2: "?dev1\<lparr>wr_script := [], written := written ?dev1 @ ?f\<rparr> = ?dev2"
    by (simp add: example_device_def)
  note t1 = mjpeg_header_fed_once [where ?s0.0 = example_mjpeg_session and pf = example_platform
              and ?dev0.0 = ?dev0 and k = 1 and ?e0.0 = 0 and ?rs0.0 = "[(4, 0)]",
              THEN conjunct1, rule_format]
  note t2 = mjpeg_header_fed_once [where s = example_mjpeg_opened and pf = example_platform
              and dev = ?dev1 and frame = ?f and e = 0 and rs = "[]"
              and lib = example_aom_lib and dts = 0 and pts = 0,
              THEN conjunct2, rule_format]
  have a: "(\<exists>s1. OpenDecoder_feed example_platform example_mjpeg_session ?dev0 = Some (s1, ?dev1)
            \<and> mjpeg_session s1 \<and> headers_done s1) \<and> length mjpeg_addon_data = 422"
    using t1 1 2 3 4 5 unfolding e1 by blast
  have b: "\<exists>s'. AddData example_platform example_aom_lib example_mjpeg_opened ?dev1
                (Some ?f) (length ?f) 0 0 = Some (True, s', ?dev2)
            \<and> mjpeg_session s' \<and> headers_done s'"
    using t2 6 7 8 9 10 11 12 unfolding e2 by blast
  from 1 2 3 4 5 a 6 7 8 9 10 11 12 b show ?thesis by blast
qed

text \<open>
  C9 as stated fails: on a freshly initialised packet with a 1024-byte header buffer the
  header has 422 bytes, not 624.
\<close>

theorem mjpeg_header_624_counterexample:
  "mjpeg_data_prefeeding
     (am_packet_init\<lparr>hdr := Some \<lparr>hdr_data = Some (replicate 1024 0), hdr_size = 0\<rparr>\<rparr>)
     = Some (PLAYER_SUCCESS,
         am_packet_init\<lparr>hdr := Some \<lparr>hdr_data = Some (mjpeg_addon_data @ replicate 602 0),
                                       hdr_size = 422\<rparr>\<rparr>)
   \<and> length mjpeg_addon_data \<noteq> 624"
  by (simp add: mjpeg_data_prefeeding_def memcpy_at_0 length_mjpeg_addon_data)

end
